theory Spec2Isabelle
  imports Complex_Main
begin

section \<open>JavaScript values and library functions used by the server\<close>

text \<open>
  The server is written twice: \<^verbatim>\<open>src/index.js\<close> (audio from the Freesound search
  service) and \<^verbatim>\<open>src/unnamed/part_000\<close> (audio from a music-generation service, with
  a polled progress object). Both files define functions of the same name; a definition
  taken from the first carries the suffix \<open>_index\<close>, one taken from the second the suffix
  \<open>_part000\<close>. Definitions that are literally the same in both files have no suffix.

  Strings are lists of 8-bit characters read as the code units U+0000 .. U+00FF.
  A number of JavaScript is an IEEE double; a finite one is held here as the rational
  that it denotes. Halving, comparing, adding integers below \<open>2 ^ 53\<close> and the functions
  \<^verbatim>\<open>Math.ceil\<close>, \<^verbatim>\<open>Math.round\<close>, \<^verbatim>\<open>Math.max\<close> are exact on doubles. A division or a
  multiplication is not: its result is the exact result rounded to the nearest double
  (\<open>double_of\<close> below).
\<close>

text \<open>
  The value of \<^verbatim>\<open>Number(duration)\<close>: \<^verbatim>\<open>NaN\<close> or a finite number. The two infinite values
  are left out.
\<close>

datatype jsnum = NaN | Fin rat

fun isNaN :: "jsnum \<Rightarrow> bool" where
  "isNaN NaN = True"
| "isNaN (Fin x) = False"

definition Math_ceil :: "rat \<Rightarrow> int" where
  "Math_ceil x = \<lceil>x\<rceil>"

definition Math_round :: "rat \<Rightarrow> int" where
  "Math_round x = \<lfloor>x + 1 / 2\<rfloor>"

definition Math_max :: "int \<Rightarrow> int \<Rightarrow> int" where
  "Math_max a b = (if a < b then b else a)"

text \<open>
  Rounding to the nearest double, ties to the even significand. For \<open>x > 0\<close>,
  \<open>binade x\<close> is the integer \<open>b\<close> with \<open>2 ^ b \<le> x < 2 ^ (b + 1)\<close>; the doubles of that
  binade are the multiples of \<open>2 ^ (b - 52)\<close>. The exponent is not bounded here: the
  model has neither overflow to \<^verbatim>\<open>Infinity\<close> (from \<open>2 ^ 1024\<close>) nor subnormal numbers
  (below \<open>2 ^ - 1022\<close>).
\<close>

function floor_log2 :: "rat \<Rightarrow> nat" where
  "floor_log2 x = (if 2 \<le> x then Suc (floor_log2 (x / 2)) else 0)"
  by pat_completeness auto
termination
proof (relation "measure (\<lambda>x. nat \<lfloor>x\<rfloor>)")
  show "wf (measure (\<lambda>x. nat \<lfloor>x\<rfloor>))" by simp
  fix x :: rat
  assume h: "2 \<le> x"
  have "x / 2 \<le> x - 1" using h by simp
  then have "\<lfloor>x / 2\<rfloor> \<le> \<lfloor>x - 1\<rfloor>" by (rule floor_mono)
  also have "\<dots> = \<lfloor>x\<rfloor> - 1" by simp
  finally have "\<lfloor>x / 2\<rfloor> < \<lfloor>x\<rfloor>" by simp
  moreover have "0 < \<lfloor>x\<rfloor>" using h by (simp add: floor_less_iff not_less [symmetric] le_floor_iff)
  ultimately show "(x / 2, x) \<in> measure (\<lambda>x. nat \<lfloor>x\<rfloor>)" by simp
qed

function neg_log2 :: "rat \<Rightarrow> nat" where
  "neg_log2 x = (if 0 < x \<and> x < 1 then Suc (neg_log2 (2 * x)) else 0)"
  by pat_completeness auto
termination
proof (relation "measure (\<lambda>x. nat \<lceil>1 / x\<rceil>)")
  show "wf (measure (\<lambda>x. nat \<lceil>1 / x\<rceil>))" by simp
  fix x :: rat
  assume h: "0 < x \<and> x < 1"
  define y where "y = 1 / x"
  have y1: "1 < y" using h by (simp add: y_def)
  have "\<lceil>y / 2\<rceil> < \<lceil>y\<rceil>"
  proof (cases "y \<le> 2")
    case True
    then have "\<lceil>y / 2\<rceil> \<le> 1" by (simp add: ceiling_le_iff)
    moreover have "1 < \<lceil>y\<rceil>" using y1 by (simp add: less_ceiling_iff)
    ultimately show ?thesis by linarith
  next
    case False
    then have "y / 2 \<le> y - 1" by simp
    then have "\<lceil>y / 2\<rceil> \<le> \<lceil>y - 1\<rceil>" by (rule ceiling_mono)
    then show ?thesis by simp
  qed
  then have lt: "\<lceil>1 / (2 * x)\<rceil> < \<lceil>1 / x\<rceil>" by (simp add: y_def mult.commute)
  have "0 < \<lceil>y\<rceil>" using y1 by (simp add: less_ceiling_iff)
  then have "0 < \<lceil>1 / x\<rceil>" unfolding y_def .
  with lt show "(2 * x, x) \<in> measure (\<lambda>x. nat \<lceil>1 / x\<rceil>)"
    by (simp add: mult.commute)
qed

declare floor_log2.simps [simp del] neg_log2.simps [simp del]

definition binade :: "rat \<Rightarrow> int" where
  "binade x = (if 1 \<le> x then int (floor_log2 x) else - int (neg_log2 x))"

definition round_half_even :: "rat \<Rightarrow> int" where
  "round_half_even x =
     (let f = \<lfloor>x\<rfloor>; r = x - of_int f
      in if r < 1 / 2 then f else if 1 / 2 < r then f + 1 else if even f then f else f + 1)"

definition double_pos :: "rat \<Rightarrow> rat" where
  "double_pos x = (let e = binade x - 52 in of_int (round_half_even (x / 2 powi e)) * 2 powi e)"

definition double_of :: "rat \<Rightarrow> rat" where
  "double_of x = (if 0 < x then double_pos x else if x < 0 then - double_pos (- x) else 0)"

text \<open>The operators \<^verbatim>\<open>/\<close> and \<^verbatim>\<open>*\<close> on two doubles (the divisor is not zero).\<close>

definition js_div :: "rat \<Rightarrow> rat \<Rightarrow> rat" where
  "js_div a b = double_of (a / b)"

definition js_mul :: "rat \<Rightarrow> rat \<Rightarrow> rat" where
  "js_mul a b = double_of (a * b)"

text \<open>
  \<^verbatim>\<open>String(n)\<close> and template interpolation of an integer \<open>n\<close>
  (\<^verbatim>\<open>Number::toString\<close>): below \<open>10 ^ 21\<close> the decimal numeral. From \<open>10 ^ 21\<close> on the
  exponent notation: with \<open>v\<close> the double at \<open>n\<close>, the digits are the integer \<open>s\<close> with
  the fewest digits \<open>k\<close> for which \<open>s * 10 ^ (n - k)\<close> rounds to \<open>v\<close> (the closest to \<open>v\<close>
  when there are two), printed as \<^verbatim>\<open>d.ddde+x\<close> with \<open>x = n - 1\<close>.
\<close>

definition digit_char :: "int \<Rightarrow> char" where
  "digit_char d = char_of (48 + d)"

function decimal :: "int \<Rightarrow> string" where
  "decimal n = (if n < 10 then [digit_char n] else decimal (n div 10) @ [digit_char (n mod 10)])"
  by pat_completeness auto
termination
  by (relation "measure nat") auto

definition digit_candidates :: "int \<Rightarrow> nat \<Rightarrow> nat \<Rightarrow> int list" where
  "digit_candidates v k n =
     (let scale = 10 ^ (n - k); t = v div scale
      in filter (\<lambda>s. 10 ^ (k - 1) \<le> s \<and> s < 10 ^ k \<and> double_of (of_int (s * scale)) = of_int v)
           [t, t + 1])"

definition closest_digits :: "int \<Rightarrow> nat \<Rightarrow> nat \<Rightarrow> int option" where
  "closest_digits v k n =
     (let scale = 10 ^ (n - k)
      in case digit_candidates v k n of
           [] \<Rightarrow> None
         | [s] \<Rightarrow> Some s
         | a # b # others \<Rightarrow>
             if v - a * scale < b * scale - v then Some a
             else if b * scale - v < v - a * scale then Some b
             else if even a then Some a else Some b)"

fun shortest_digits :: "int \<Rightarrow> (nat \<times> nat) list \<Rightarrow> (int \<times> nat \<times> nat) option" where
  "shortest_digits v [] = None"
| "shortest_digits v ((k, n) # rest) =
     (case closest_digits v k n of
        Some s \<Rightarrow> Some (s, k, n)
      | None \<Rightarrow> shortest_digits v rest)"

definition exponent_form :: "int \<Rightarrow> string" where
  "exponent_form v =
     (let n0 = length (decimal v)
      in case shortest_digits v (concat (map (\<lambda>k. [(k, n0), (k, Suc n0)]) [1..<18])) of
           None \<Rightarrow> decimal v
         | Some (s, k, n) \<Rightarrow>
             (let ds = decimal s
              in hd ds # (if k = 1 then [] else CHR ''.'' # tl ds) @ ''e+'' @ decimal (int n - 1)))"

definition Number_toString :: "int \<Rightarrow> string" where
  "Number_toString m =
     (if m < 10 ^ 21 then decimal m else exponent_form \<lfloor>double_of (of_int m)\<rfloor>)"

definition String_int :: "int \<Rightarrow> string" where
  "String_int i = (if i < 0 then CHR ''-'' # Number_toString (- i) else Number_toString i)"

definition String_nat :: "nat \<Rightarrow> string" where
  "String_nat n = String_int (int n)"

text \<open>Character classes of the regular expressions \<^verbatim>\<open>\W\<close> and \<^verbatim>\<open>\s\<close>.\<close>

definition code :: "char \<Rightarrow> nat" where
  "code c = of_char c"

definition isWordChar :: "char \<Rightarrow> bool" where
  "isWordChar c = ((48 \<le> code c \<and> code c \<le> 57) \<or> (65 \<le> code c \<and> code c \<le> 90)
                   \<or> code c = 95 \<or> (97 \<le> code c \<and> code c \<le> 122))"

definition isNonWord :: "char \<Rightarrow> bool" where
  "isNonWord c = (\<not> isWordChar c)"

definition isSpace :: "char \<Rightarrow> bool" where
  "isSpace c = ((9 \<le> code c \<and> code c \<le> 13) \<or> code c = 32 \<or> code c = 160)"

text \<open>\<^verbatim>\<open>String.prototype.toLowerCase\<close> on the code units below U+0100.\<close>

definition toLowerChar :: "char \<Rightarrow> char" where
  "toLowerChar c =
     (if (65 \<le> code c \<and> code c \<le> 90) \<or> (192 \<le> code c \<and> code c \<le> 214)
         \<or> (216 \<le> code c \<and> code c \<le> 222)
      then char_of (code c + 32) else c)"

definition toLowerCase :: "string \<Rightarrow> string" where
  "toLowerCase s = map toLowerChar s"

text \<open>\<^verbatim>\<open>String.prototype.trim\<close>.\<close>

definition trim :: "string \<Rightarrow> string" where
  "trim s = rev (dropWhile isSpace (rev (dropWhile isSpace s)))"

text \<open>
  \<^verbatim>\<open>s.split(/C+/)\<close> for a character class \<open>C\<close>: the scan keeps the token being read
  and whether the previous character was a separator. As in JavaScript, a separator
  run at the start or at the end of the text leaves an empty token there, and the empty
  text splits into one empty token.
\<close>

fun split_scan :: "(char \<Rightarrow> bool) \<Rightarrow> bool \<Rightarrow> string \<Rightarrow> string \<Rightarrow> string list" where
  "split_scan sep insep cur [] = [cur]"
| "split_scan sep insep cur (c # cs) =
     (if sep c
      then (if insep then split_scan sep True cur cs else cur # split_scan sep True [] cs)
      else split_scan sep False (cur @ [c]) cs)"

definition split_runs :: "(char \<Rightarrow> bool) \<Rightarrow> string \<Rightarrow> string list" where
  "split_runs sep s = split_scan sep False [] s"

section \<open>Keyword extraction\<close>

text \<open>\<^verbatim>\<open>extractKeywords\<close> (index.js 97-105, the same text in part_000 98-106).\<close>

definition commonWords :: "string list" where
  "commonWords = [''a'', ''an'', ''the'', ''and'', ''or'', ''but'', ''in'', ''on'', ''at'',
                  ''to'', ''for'', ''with'', ''by'']"

definition extractKeywords :: "string \<Rightarrow> string list" where
  "extractKeywords prompt =
     (let words = split_runs isNonWord (toLowerCase prompt)
      in filter (\<lambda>word. length word > 2 \<and> word \<notin> set commonWords) words)"

text \<open>The keyword list that \<^verbatim>\<open>getAudioFromFreesound\<close> builds inline (index.js 368-371).\<close>

definition isAudioSeparator :: "char \<Rightarrow> bool" where
  "isAudioSeparator c = (isSpace c \<or> c = CHR ''.'' \<or> c = CHR '','' \<or> c = CHR ''!'' \<or> c = CHR ''?'')"

definition audioKeywords :: "string \<Rightarrow> string list" where
  "audioKeywords prompt =
     filter (\<lambda>word. word \<notin> set [''with'', ''and'', ''the'', ''for''])
       (filter (\<lambda>word. length word > 3)
          (split_runs isAudioSeparator (toLowerCase prompt)))"

text \<open>
  The reading of "split on runs of separator characters" that the specification gives:
  the tokens are the maximal non-empty runs of characters that are kept, in the order
  of the text.
\<close>

function maximal_runs :: "(char \<Rightarrow> bool) \<Rightarrow> string \<Rightarrow> string list" where
  "maximal_runs keep [] = []"
| "maximal_runs keep (c # cs) =
     (if keep c
      then takeWhile keep (c # cs) # maximal_runs keep (dropWhile keep cs)
      else maximal_runs keep cs)"
  by pat_completeness auto
termination
  by (relation "measure (\<lambda>(keep, s). length s)") (auto simp: length_dropWhile_le less_Suc_eq_le)

section \<open>External collaborators\<close>

text \<open>
  Every call that leaves the process is a field of \<open>services\<close>: the function tells what
  the collaborator answers. All theorems hold for every value of these fields.
  \<^item> \<open>stability sv i p\<close>: the answer of the text-to-image service to the request for
    loop index \<open>i\<close> with prompt \<open>p\<close>. \<open>ImgFailed m\<close> is a request (or the write of the
    decoded image) rejecting with message \<open>m\<close>; \<open>ImgReply b\<close> is a response whose
    \<^verbatim>\<open>data?.artifacts?.[0]?.base64\<close> is \<open>b\<close>, with \<open>None\<close> for a missing path.
  \<^item> \<open>freesound sv k q\<close>: the answer to the \<open>k\<close>-th search of the run (counted from 0)
    with query text \<open>q\<close>; the other search parameters are fixed within one call of the
    searching function. \<open>SearchReply r\<close> carries \<^verbatim>\<open>data.results\<close>.
  \<^item> \<open>preview sv url\<close>, \<open>audiocraft sv p d\<close>: the download of a preview and the
    music-generation call, each together with the write of the received bytes.
  \<^item> \<open>ffmpeg_index\<close>, \<open>ffmpeg_part000\<close>: the terminal event of the encoder run for a
    command (the second with the progress percentages emitted before it).
  \<^item> \<open>fs_stat sv k path\<close>: the \<open>k\<close>-th \<^verbatim>\<open>fs.stat\<close> of the run.
  \<^item> \<open>video_save sv v\<close>: \<open>None\<close> when the record is stored, the message otherwise.
  \<^item> \<open>Date_now sv\<close>: the clock reading used in file names.
\<close>

datatype img_response = ImgFailed string | ImgReply "string option"

record sound =
  sound_name :: string
  preview_hq_mp3 :: string

datatype search_response = SearchFailed string | SearchReply "sound list option"

datatype fetch_response = FetchFailed string | FetchData string

datatype stat_response = StatFailed string | StatSize nat

datatype enc_finish = EncEnd | EncError string

text \<open>The \<^verbatim>\<open>Video\<close> model of mongoose (both files, lines 45-53).\<close>

record video =
  video_prompt :: string
  video_url :: string
  video_duration :: rat
  createdAt :: int
  hasAudio :: bool

text \<open>The fluent-ffmpeg command that \<^verbatim>\<open>createVideo\<close> builds, in each file.\<close>

record command_index =
  inputs :: "(string \<times> string list) list"
  complexFilter :: string
  outputOptions :: "string list"
  output_index :: string

record command_part000 =
  fps :: nat
  inputs_part000 :: "string list"
  concat_n :: nat
  concat_outputs :: string
  outputOptions_part000 :: "string list"
  output_part000 :: string

text \<open>The object \<^verbatim>\<open>generationProgress\<close> of part_000 (lines 146-151).\<close>

record progress_state =
  progress :: int
  status :: string
  videoUrl :: "string option"
  error :: "string option"

record services =
  stability :: "nat \<Rightarrow> string \<Rightarrow> img_response"
  freesound :: "nat \<Rightarrow> string \<Rightarrow> search_response"
  preview :: "string \<Rightarrow> fetch_response"
  audiocraft :: "string \<Rightarrow> rat \<Rightarrow> fetch_response"
  ffmpeg_index :: "command_index \<Rightarrow> enc_finish"
  ffmpeg_part000 :: "command_part000 \<Rightarrow> rat list \<times> enc_finish"
  fs_stat :: "nat \<Rightarrow> string \<Rightarrow> stat_response"
  video_save :: "video \<Rightarrow> string option"
  Date_now :: int

text \<open>
  What a run does to the world outside its own variables, in the order it does it: the
  requests it sends and the writes to \<^verbatim>\<open>generationProgress\<close>. Every function below
  returns the events it caused together with its result; a thrown \<^verbatim>\<open>Error\<close> is
  \<open>Inl\<close> of its message.
\<close>

datatype event =
    ImageRequest nat string
  | SearchRequest string
  | PreviewRequest string
  | MusicRequest string rat
  | EncoderRun_index command_index
  | EncoderRun_part000 command_part000
  | StatRequest string
  | SaveRequest video
  | Unlink string
  | ProgressAssign progress_state
  | SetStatus string
  | SetProgress int
  | SetError string

text \<open>JavaScript truthiness of an optional string: present and not empty.\<close>

definition truthy :: "string option \<Rightarrow> bool" where
  "truthy v = (case v of None \<Rightarrow> False | Some s \<Rightarrow> s \<noteq> [])"

text \<open>\<^verbatim>\<open>Array.prototype.join\<close> and \<^verbatim>\<open>path.basename\<close>.\<close>

fun join :: "string \<Rightarrow> string list \<Rightarrow> string" where
  "join sep [] = []"
| "join sep [x] = x"
| "join sep (x # y # ys) = x @ sep @ join sep (y # ys)"

definition basename :: "string \<Rightarrow> string" where
  "basename p = rev (takeWhile (\<lambda>c. c \<noteq> CHR ''/'') (rev p))"

definition DEFAULT_CATEGORIES :: "string list" where
  "DEFAULT_CATEGORIES = [''ambient music'', ''background music'', ''soundtrack'',
                         ''atmospheric music'', ''instrumental'']"

section \<open>Frame generation\<close>

text \<open>\<^verbatim>\<open>generateFramePrompt\<close> (part_000 76-95; index.js 76-94 has the same function).\<close>

definition scenes :: "nat \<Rightarrow> string option" where
  "scenes index =
     (if index = 1 then Some ''wide establishing shot, cinematic landscape''
      else if index = 2 then Some ''medium shot, focusing on main subject''
      else if index = 3 then Some ''close-up shot, showing details''
      else if index = 4 then Some ''action shot, dynamic movement''
      else if index = 5 then Some ''dramatic finale shot''
      else None)"

definition enhancers :: "string list" where
  "enhancers = [''cinematic lighting'', ''professional photography'', ''high detail'',
                ''8k resolution'', ''masterful composition'']"

definition generateFramePrompt :: "string \<Rightarrow> nat \<Rightarrow> int \<Rightarrow> string" where
  "generateFramePrompt basePrompt index totalFrames =
     (let sceneType = (case scenes index of
                         Some s \<Rightarrow> s
                       | None \<Rightarrow> ''wide establishing shot, cinematic landscape'')
      in basePrompt @ '', '' @ sceneType @ '', '' @ join '', '' enhancers)"

text \<open>
  \<^verbatim>\<open>generateVideoFrames\<close> of index.js (214-271). The loop runs over the indices
  \<open>0 ..< minFrames\<close>; a response without image data is passed over, and only an empty
  result is an error.
\<close>

definition framePrompt_index :: "string \<Rightarrow> nat \<Rightarrow> string" where
  "framePrompt_index prompt i =
     prompt @ '', scene '' @ String_nat (i + 1) @ '', cinematic quality, high detail''"

definition framePath_index :: "nat \<Rightarrow> string" where
  "framePath_index i = ''temp/frame_'' @ String_nat i @ ''.png''"

fun frames_loop_index ::
  "services \<Rightarrow> string \<Rightarrow> nat list \<Rightarrow> string list \<Rightarrow> event list \<times> (string + string list)" where
  "frames_loop_index sv prompt [] frames = ([], Inr frames)"
| "frames_loop_index sv prompt (i # rest) frames =
     (let framePrompt = framePrompt_index prompt i in
      case stability sv i framePrompt of
        ImgFailed msg \<Rightarrow> ([ImageRequest i framePrompt], Inl msg)
      | ImgReply b \<Rightarrow>
          (let (evs, r) = frames_loop_index sv prompt rest
                            (if truthy b then frames @ [framePath_index i] else frames)
           in (ImageRequest i framePrompt # evs, r)))"

definition generateVideoFrames_index ::
  "services \<Rightarrow> string \<Rightarrow> int \<Rightarrow> event list \<times> (string + string list)" where
  "generateVideoFrames_index sv prompt numFrames =
     (let minFrames = Math_max 4 numFrames;
          (evs, r) = frames_loop_index sv prompt [0..<nat minFrames] []
      in case r of
           Inl msg \<Rightarrow> (evs, Inl msg)
         | Inr frames \<Rightarrow>
             if length frames = 0 then (evs, Inl ''Failed to generate any frames'')
             else (evs, Inr frames))"

text \<open>
  \<^verbatim>\<open>generateVideoFrames\<close> of part_000 (153-209). The loop runs over the indices
  \<open>1 .. numFrames\<close>; the inner \<^verbatim>\<open>catch\<close> wraps every failure of an iteration into an
  error that names the index, the outer one records the message in the progress object.
  The test of the API key at its top cannot fail in a running server (lines 22-25 end the
  process at start-up when the key is missing) and is left out.
\<close>

definition framePath_part000 :: "services \<Rightarrow> nat \<Rightarrow> string" where
  "framePath_part000 sv i =
     ''temp/frame_'' @ String_int (Date_now sv) @ ''_'' @ String_nat i @ ''.png''"

definition frameProgress :: "int \<Rightarrow> nat \<Rightarrow> int" where
  "frameProgress numFrames i = Math_round (js_mul (js_div (of_nat i) (of_int numFrames)) 40)"

definition frameError :: "nat \<Rightarrow> string \<Rightarrow> string" where
  "frameError i msg = ''Failed to generate frame '' @ String_nat i @ '': '' @ msg"

fun frames_loop_part000 ::
  "services \<Rightarrow> string \<Rightarrow> int \<Rightarrow> nat list \<Rightarrow> string list \<Rightarrow> event list \<times> (string + string list)" where
  "frames_loop_part000 sv prompt numFrames [] frames = ([], Inr frames)"
| "frames_loop_part000 sv prompt numFrames (i # rest) frames =
     (let framePrompt = generateFramePrompt prompt i numFrames in
      case stability sv i framePrompt of
        ImgFailed msg \<Rightarrow> ([ImageRequest i framePrompt], Inl (frameError i msg))
      | ImgReply b \<Rightarrow>
          if \<not> truthy b
          then ([ImageRequest i framePrompt],
                Inl (frameError i ''Invalid response from Stability API''))
          else (let (evs, r) = frames_loop_part000 sv prompt numFrames rest
                                 (frames @ [framePath_part000 sv i])
                in (ImageRequest i framePrompt
                    # SetStatus (''Generated frame '' @ String_nat i @ ''/'' @ String_int numFrames)
                    # SetProgress (frameProgress numFrames i)
                    # evs, r)))"

definition generateVideoFrames_part000 ::
  "services \<Rightarrow> string \<Rightarrow> int \<Rightarrow> event list \<times> (string + string list)" where
  "generateVideoFrames_part000 sv prompt numFrames =
     (let (evs, r) = frames_loop_part000 sv prompt numFrames [1..<Suc (nat numFrames)] []
      in case r of
           Inl msg \<Rightarrow> (evs @ [SetError msg], Inl msg)
         | Inr frames \<Rightarrow> (evs, Inr frames))"

section \<open>Audio acquisition\<close>

text \<open>The test \<^verbatim>\<open>!results || results.length === 0\<close> on a search response.\<close>

definition no_results :: "sound list option \<Rightarrow> bool" where
  "no_results r = (case r of None \<Rightarrow> True | Some xs \<Rightarrow> length xs = 0)"

text \<open>
  The body shared by the two \<^verbatim>\<open>for\<close> loops of \<^verbatim>\<open>searchAndDownloadMusic\<close>
  (index.js 138-153 and 160-176): each query overwrites \<^verbatim>\<open>searchResponse\<close>, here the
  pair of the query sent and the results received, and a non-empty answer leaves the loop.
  \<open>k\<close> is the number of searches done before.
\<close>

fun search_each ::
  "services \<Rightarrow> nat \<Rightarrow> string list \<Rightarrow> string \<times> sound list option
     \<Rightarrow> event list \<times> (string + string \<times> sound list option)" where
  "search_each sv k [] searchResponse = ([], Inr searchResponse)"
| "search_each sv k (q # qs) searchResponse =
     (case freesound sv k q of
        SearchFailed msg \<Rightarrow> ([SearchRequest q], Inl msg)
      | SearchReply r \<Rightarrow>
          if \<not> no_results r then ([SearchRequest q], Inr (q, r))
          else (let (evs, res) = search_each sv (Suc k) qs (q, r)
                in (SearchRequest q # evs, res)))"

record music_result =
  success :: bool
  musicPath :: string
  soundName :: string
  searchMethod :: string

definition keywordQuery :: "string \<Rightarrow> string" where
  "keywordQuery keyword = keyword @ '' music background''"

text \<open>\<^verbatim>\<open>searchAndDownloadMusic\<close> (index.js 117-211); its \<^verbatim>\<open>catch\<close> rethrows.\<close>

definition searchAndDownloadMusic ::
  "services \<Rightarrow> string \<Rightarrow> string \<Rightarrow> event list \<times> (string + music_result)" where
  "searchAndDownloadMusic sv prompt outputPath =
     (case freesound sv 0 prompt of
        SearchFailed msg \<Rightarrow> ([SearchRequest prompt], Inl msg)
      | SearchReply r1 \<Rightarrow>
          (let (log2, res2) =
                 (if no_results r1
                  then search_each sv 1 (map keywordQuery (extractKeywords prompt)) (prompt, r1)
                  else ([], Inr (prompt, r1)))
           in case res2 of
                Inl msg \<Rightarrow> (SearchRequest prompt # log2, Inl msg)
              | Inr (q2, r2) \<Rightarrow>
                  (let (log3, res3) =
                         (if no_results r2
                          then search_each sv (Suc (length log2)) DEFAULT_CATEGORIES (q2, r2)
                          else ([], Inr (q2, r2)))
                   in case res3 of
                        Inl msg \<Rightarrow> (SearchRequest prompt # log2 @ log3, Inl msg)
                      | Inr (q3, r3) \<Rightarrow>
                          (case r3 of
                             Some (snd0 # others) \<Rightarrow>
                               (case preview sv (preview_hq_mp3 snd0) of
                                  FetchFailed msg \<Rightarrow>
                                    (SearchRequest prompt # log2 @ log3
                                       @ [PreviewRequest (preview_hq_mp3 snd0)], Inl msg)
                                | FetchData bytes \<Rightarrow>
                                    (SearchRequest prompt # log2 @ log3
                                       @ [PreviewRequest (preview_hq_mp3 snd0)],
                                     Inr \<lparr>success = True, musicPath = outputPath,
                                          soundName = sound_name snd0,
                                          searchMethod =
                                            (if prompt = q3 then ''direct''
                                             else if q3 \<in> set DEFAULT_CATEGORIES then ''default''
                                             else ''keyword'')\<rparr>))
                           | _ \<Rightarrow> (SearchRequest prompt # log2 @ log3,
                                   Inl ''No matching sounds found after all attempts'')))))"

text \<open>
  The loop body of \<^verbatim>\<open>getAudioFromFreesound\<close> (index.js 376-402 and 406-432): the
  first query with a result downloads its preview and returns the path from inside the
  loop (\<open>Inr (Some path)\<close>); \<open>Inr None\<close> is the loop running to its end.
\<close>

definition audioPath_index :: "services \<Rightarrow> string" where
  "audioPath_index sv = ''temp/audio_'' @ String_int (Date_now sv) @ ''.mp3''"

fun audio_each ::
  "services \<Rightarrow> nat \<Rightarrow> string list \<Rightarrow> event list \<times> (string + string option)" where
  "audio_each sv k [] = ([], Inr None)"
| "audio_each sv k (q # qs) =
     (case freesound sv k q of
        SearchFailed msg \<Rightarrow> ([SearchRequest q], Inl msg)
      | SearchReply r \<Rightarrow>
          (case r of
             Some (snd0 # others) \<Rightarrow>
               (case preview sv (preview_hq_mp3 snd0) of
                  FetchFailed msg \<Rightarrow>
                    ([SearchRequest q, PreviewRequest (preview_hq_mp3 snd0)], Inl msg)
                | FetchData bytes \<Rightarrow>
                    ([SearchRequest q, PreviewRequest (preview_hq_mp3 snd0)],
                     Inr (Some (audioPath_index sv))))
           | _ \<Rightarrow> (let (evs, res) = audio_each sv (Suc k) qs
                   in (SearchRequest q # evs, res))))"

text \<open>
  \<^verbatim>\<open>getAudioFromFreesound\<close> (index.js 365-439): keywords first, then the default
  categories; every exception, the final \<^verbatim>\<open>No suitable audio found\<close> included, is
  caught and turned into \<^verbatim>\<open>null\<close>.
\<close>

definition getAudioFromFreesound ::
  "services \<Rightarrow> string \<Rightarrow> rat \<Rightarrow> event list \<times> string option" where
  "getAudioFromFreesound sv prompt duration =
     (let keywords = audioKeywords prompt;
          (log1, res1) = audio_each sv 0 (map keywordQuery keywords)
      in case res1 of
           Inl msg \<Rightarrow> (log1, None)
         | Inr (Some audioPath) \<Rightarrow> (log1, Some audioPath)
         | Inr None \<Rightarrow>
             (let (log2, res2) = audio_each sv (length keywords) DEFAULT_CATEGORIES
              in case res2 of
                   Inl msg \<Rightarrow> (log1 @ log2, None)
                 | Inr (Some audioPath) \<Rightarrow> (log1 @ log2, Some audioPath)
                 | Inr None \<Rightarrow> (log1 @ log2, None)))"

text \<open>\<^verbatim>\<open>generateMusicFromPrompt\<close> (part_000 118-143); its \<^verbatim>\<open>catch\<close> rethrows.\<close>

definition generateMusicFromPrompt ::
  "services \<Rightarrow> string \<Rightarrow> rat \<Rightarrow> event list \<times> (string + string)" where
  "generateMusicFromPrompt sv prompt duration =
     (case audiocraft sv prompt duration of
        FetchFailed msg \<Rightarrow> ([MusicRequest prompt duration], Inl msg)
      | FetchData bytes \<Rightarrow>
          ([MusicRequest prompt duration],
           Inr (''temp/music_'' @ String_int (Date_now sv) @ ''.wav'')))"

section \<open>Video assembly\<close>

text \<open>
  \<^verbatim>\<open>createVideo\<close> of index.js (274-342). \<open>frameSeconds\<close> is the value of the
  \<^verbatim>\<open>-t\<close> option that every frame input receives,
  \<^verbatim>\<open>Math.ceil(duration / frames.length)\<close>, with the quotient rounded to a double; it
  is computed once for each frame, so never for an empty list. The handler of the
  encoder's \<^verbatim>\<open>end\<close> event reads the size of the output file before it resolves.
\<close>

definition frameSeconds :: "rat \<Rightarrow> string list \<Rightarrow> int" where
  "frameSeconds duration frames = Math_ceil (js_div duration (of_nat (length frames)))"

definition frameInput :: "rat \<Rightarrow> string list \<Rightarrow> string \<Rightarrow> string \<times> string list" where
  "frameInput duration frames frame =
     (frame, [''-loop'', ''1'', ''-t'', String_int (frameSeconds duration frames)])"

definition filterGraph :: "string list \<Rightarrow> string option \<Rightarrow> string" where
  "filterGraph frames audioPath =
     (let n = length frames;
          ins = concat (map (\<lambda>i. ''['' @ String_nat i @ '':v]scale=1024:1024,setdar=1:1,format=yuv420p[v''
                                    @ String_nat i @ ''];'') [0..<n]);
          concatInputs = concat (map (\<lambda>i. ''[v'' @ String_nat i @ '']'') [0..<n]);
          flt = ins @ concatInputs @ ''concat=n='' @ String_nat n @ '':v=1:a=0[outv]'';
          audioFilter =
            (if truthy audioPath
             then '';['' @ String_nat n
                    @ '':a]aformat=sample_fmts=fltp:sample_rates=44100:channel_layouts=stereo[outa]''
             else [])
      in flt @ audioFilter)"

definition videoCommand_index :: "services \<Rightarrow> string list \<Rightarrow> string option \<Rightarrow> rat \<Rightarrow> command_index" where
  "videoCommand_index sv frames audioPath duration =
     \<lparr>inputs = map (frameInput duration frames) frames
                @ (if truthy audioPath then [(the audioPath, [])] else []),
      complexFilter = filterGraph frames audioPath,
      outputOptions = [''-map'', ''[outv]'']
                @ (if truthy audioPath then [''-map'', ''[outa]''] else [])
                @ [''-c:v'', ''libx264'', ''-preset'', ''medium'', ''-crf'', ''23'',
                   ''-movflags'', ''+faststart'', ''-pix_fmt'', ''yuv420p'', ''-r'', ''24''],
      output_index = ''videos/'' @ String_int (Date_now sv) @ ''.mp4''\<rparr>"

definition createVideo_index ::
  "services \<Rightarrow> string list \<Rightarrow> string option \<Rightarrow> rat \<Rightarrow> event list \<times> (string + string)" where
  "createVideo_index sv frames audioPath duration =
     (let command = videoCommand_index sv frames audioPath duration;
          outputPath = output_index command
      in case ffmpeg_index sv command of
           EncError msg \<Rightarrow> ([EncoderRun_index command], Inl msg)
         | EncEnd \<Rightarrow>
             (case fs_stat sv 0 outputPath of
                StatFailed msg \<Rightarrow>
                  ([EncoderRun_index command, StatRequest outputPath],
                   Inl (''Failed to verify video file: '' @ msg))
              | StatSize sz \<Rightarrow>
                  if sz > 0
                  then ([EncoderRun_index command, StatRequest outputPath], Inr outputPath)
                  else ([EncoderRun_index command, StatRequest outputPath],
                        Inl ''Video file is empty'')))"

text \<open>
  \<^verbatim>\<open>createVideo\<close> of part_000 (212-270). Every progress event of the encoder writes
  the status and the percentage; the \<^verbatim>\<open>end\<close> event resolves at once. The one filter
  of the command, \<^verbatim>\<open>concat\<close>, has its output labelled \<^verbatim>\<open>v\<close> (line 238);
  \<^verbatim>\<open>complexFilter\<close> is called without the second argument that would map the label to
  the output file, and the output options (242-248) hold no \<^verbatim>\<open>-map\<close>.
\<close>

definition encoderProgress :: "rat \<Rightarrow> event list" where
  "encoderProgress percent =
     [SetStatus (''Encoding video: '' @ String_int (Math_round percent) @ ''%''),
      SetProgress (75 + Math_round (js_mul percent (double_of (2 / 10))))]"

definition videoCommand_part000 :: "services \<Rightarrow> string list \<Rightarrow> string \<Rightarrow> command_part000" where
  "videoCommand_part000 sv frames audioPath =
     \<lparr>fps = 24,
      inputs_part000 = frames @ [audioPath],
      concat_n = length frames,
      concat_outputs = ''v'',
      outputOptions_part000 = [''-c:v'', ''libx264'', ''-preset'', ''medium'', ''-crf'', ''23'',
                               ''-c:a'', ''aac'', ''-shortest'', ''-movflags'', ''+faststart'',
                               ''-pix_fmt'', ''yuv420p''],
      output_part000 = ''videos/video_'' @ String_int (Date_now sv) @ ''.mp4''\<rparr>"

definition createVideo_part000 ::
  "services \<Rightarrow> string list \<Rightarrow> string \<Rightarrow> rat \<Rightarrow> event list \<times> (string + string)" where
  "createVideo_part000 sv frames audioPath duration =
     (let command = videoCommand_part000 sv frames audioPath;
          outputPath = output_part000 command;
          (percents, finish) = ffmpeg_part000 sv command;
          evs = EncoderRun_part000 command # concat (map encoderProgress percents)
      in case finish of
           EncEnd \<Rightarrow> (evs, Inr outputPath)
         | EncError msg \<Rightarrow> (evs, Inl (''Failed to create video: '' @ msg)))"

section \<open>The route \<^verbatim>\<open>POST /api/generate-video\<close>\<close>

text \<open>
  The request body after \<^verbatim>\<open>express.json()\<close>: \<open>prompt\<close> is absent (\<^verbatim>\<open>undefined\<close> or
  \<^verbatim>\<open>null\<close>), a string, or a value of another type, which has no method \<^verbatim>\<open>trim\<close>;
  the duration enters as \<^verbatim>\<open>Number(duration)\<close>.
\<close>

datatype jsvalue = Absent | Str string | NonString

datatype body = ErrorBody string | VideoBody video string | UrlBody string

datatype http_response = Response nat body

definition videoRecord :: "services \<Rightarrow> string \<Rightarrow> string \<Rightarrow> rat \<Rightarrow> video" where
  "videoRecord sv prompt url durationNum =
     \<lparr>video_prompt = prompt, video_url = url, video_duration = durationNum,
      createdAt = Date_now sv, hasAudio = True\<rparr>"

text \<open>The body of the \<^verbatim>\<open>try\<close> block of index.js below the validation (453-498).\<close>

definition pipeline_index ::
  "services \<Rightarrow> string \<Rightarrow> rat \<Rightarrow> event list \<times> (string + video)" where
  "pipeline_index sv prompt durationNum =
     (let (log1, res1) = generateVideoFrames_index sv prompt (Math_ceil (durationNum / 2))
      in case res1 of
           Inl msg \<Rightarrow> (log1, Inl msg)
         | Inr frames \<Rightarrow>
             if length frames = 0 then (log1, Inl ''Failed to generate frames'')
             else
               (let (log2, audio) = getAudioFromFreesound sv prompt durationNum
                in if \<not> truthy audio then (log1 @ log2, Inl ''Failed to get audio'')
                   else
                     (let (log3, res3) = createVideo_index sv frames audio durationNum
                      in case res3 of
                           Inl msg \<Rightarrow> (log1 @ log2 @ log3, Inl msg)
                         | Inr videoPath \<Rightarrow>
                             (case fs_stat sv 1 videoPath of
                                StatFailed msg \<Rightarrow>
                                  (log1 @ log2 @ log3 @ [StatRequest videoPath], Inl msg)
                              | StatSize sz \<Rightarrow>
                                  if sz = 0
                                  then (log1 @ log2 @ log3 @ [StatRequest videoPath],
                                        Inl ''Generated video file is empty'')
                                  else
                                    (let url = ''/videos/'' @ basename videoPath;
                                         v = videoRecord sv prompt url durationNum
                                     in case video_save sv v of
                                          Some msg \<Rightarrow>
                                            (log1 @ log2 @ log3
                                               @ [StatRequest videoPath, SaveRequest v], Inl msg)
                                        | None \<Rightarrow>
                                            (log1 @ log2 @ log3
                                               @ [StatRequest videoPath, SaveRequest v]
                                               @ map Unlink frames @ [Unlink (the audio)],
                                             Inr v))))))"

text \<open>
  The handler of index.js (442-503). The test \<^verbatim>\<open>!prompt?.trim() || isNaN(durationNum)\<close>
  is evaluated from the left; the \<^verbatim>\<open>catch\<close> answers 500 with the message of the error,
  or with a fixed text when the message is empty.
\<close>

definition route_index :: "services \<Rightarrow> jsvalue \<Rightarrow> jsnum \<Rightarrow> event list \<times> http_response" where
  "route_index sv p d =
     (case p of
        NonString \<Rightarrow> ([], Response 500 (ErrorBody ''prompt?.trim is not a function''))
      | Absent \<Rightarrow> ([], Response 400 (ErrorBody ''Invalid prompt or duration''))
      | Str prompt \<Rightarrow>
          if trim prompt = [] then ([], Response 400 (ErrorBody ''Invalid prompt or duration''))
          else
            (case d of
               NaN \<Rightarrow> ([], Response 400 (ErrorBody ''Invalid prompt or duration''))
             | Fin durationNum \<Rightarrow>
                 (let (evs, res) = pipeline_index sv prompt durationNum
                  in case res of
                       Inl msg \<Rightarrow>
                         (evs, Response 500
                                 (ErrorBody (if msg = [] then ''Video generation failed'' else msg)))
                     | Inr v \<Rightarrow>
                         (evs, Response 200
                                 (VideoBody v (''http://localhost:5000'' @ video_url v))))))"

text \<open>The body of the \<^verbatim>\<open>try\<close> block of part_000 below the validation (307-359).\<close>

definition pipeline_part000 ::
  "services \<Rightarrow> string \<Rightarrow> rat \<Rightarrow> event list \<times> (string + string)" where
  "pipeline_part000 sv prompt durationNum =
     (let log0 = [ProgressAssign \<lparr>progress = 0, status = ''Starting generation...'',
                                 videoUrl = None, error = None\<rparr>,
                  SetStatus ''Generating frames...''];
          (log1, res1) = generateVideoFrames_part000 sv prompt (Math_ceil (durationNum / 2))
      in case res1 of
           Inl msg \<Rightarrow> (log0 @ log1, Inl msg)
         | Inr frames \<Rightarrow>
             (let logA = log0 @ log1 @ [SetStatus ''Generating music...'', SetProgress 45];
                  (log2, res2) = generateMusicFromPrompt sv prompt durationNum
              in case res2 of
                   Inl msg \<Rightarrow> (logA @ log2, Inl msg)
                 | Inr audioPath \<Rightarrow>
                     (let logB = logA @ log2 @ [SetStatus ''Creating final video...'', SetProgress 75];
                          (log3, res3) = createVideo_part000 sv frames audioPath durationNum
                      in case res3 of
                           Inl msg \<Rightarrow> (logB @ log3, Inl msg)
                         | Inr videoPath \<Rightarrow>
                             (let logC = logB @ log3 @ [SetStatus ''Finalizing...'', SetProgress 90];
                                  url = ''/videos/'' @ basename videoPath;
                                  v = videoRecord sv prompt url durationNum
                              in case video_save sv v of
                                   Some msg \<Rightarrow> (logC @ [SaveRequest v], Inl msg)
                                 | None \<Rightarrow>
                                     (logC @ [SaveRequest v] @ map Unlink frames @ [Unlink audioPath]
                                        @ [ProgressAssign \<lparr>progress = 100, status = ''Complete!'',
                                                            videoUrl = Some url, error = None\<rparr>],
                                      Inr url)))))"

text \<open>
  The handler of part_000 (298-367). An invalid request is thrown inside the \<^verbatim>\<open>try\<close>
  block, before the progress object is reset; the \<^verbatim>\<open>catch\<close> writes the error, the
  status and the percentage \<open>-1\<close> into the progress object as it stands.
\<close>

definition try_part000 :: "services \<Rightarrow> jsvalue \<Rightarrow> jsnum \<Rightarrow> event list \<times> (string + string)" where
  "try_part000 sv p d =
     (case p of
        NonString \<Rightarrow> ([], Inl ''prompt?.trim is not a function'')
      | Absent \<Rightarrow> ([], Inl ''Invalid prompt or duration'')
      | Str prompt \<Rightarrow>
          if trim prompt = [] then ([], Inl ''Invalid prompt or duration'')
          else
            (case d of
               NaN \<Rightarrow> ([], Inl ''Invalid prompt or duration'')
             | Fin durationNum \<Rightarrow> pipeline_part000 sv prompt durationNum))"

definition route_part000 :: "services \<Rightarrow> jsvalue \<Rightarrow> jsnum \<Rightarrow> event list \<times> http_response" where
  "route_part000 sv p d =
     (let (evs, res) = try_part000 sv p d
      in case res of
           Inl msg \<Rightarrow>
             (evs @ [SetError msg, SetStatus ''Error occurred'', SetProgress (- 1)],
              Response 500 (ErrorBody msg))
         | Inr url \<Rightarrow> (evs, Response 200 (UrlBody url)))"

section \<open>What a polling client can read\<close>

text \<open>
  The value of \<^verbatim>\<open>generationProgress\<close> after each write, from the value it had before
  the run; \<^verbatim>\<open>GET /api/progress\<close> returns the value current at the time of the call.
\<close>

fun apply_event :: "progress_state \<Rightarrow> event \<Rightarrow> progress_state" where
  "apply_event s (ProgressAssign t) = t"
| "apply_event s (SetStatus x) = s\<lparr>status := x\<rparr>"
| "apply_event s (SetProgress n) = s\<lparr>progress := n\<rparr>"
| "apply_event s (SetError m) = s\<lparr>error := Some m\<rparr>"
| "apply_event s other = s"




text \<open>The parts of a trace that the theorems speak of.\<close>

fun queries :: "event list \<Rightarrow> string list" where
  "queries [] = []"
| "queries (SearchRequest q # es) = q # queries es"
| "queries (e # es) = queries es"

fun is_encoder_run :: "event \<Rightarrow> bool" where
  "is_encoder_run (EncoderRun_index c) = True"
| "is_encoder_run (EncoderRun_part000 c) = True"
| "is_encoder_run other = False"

fun saved_records :: "event list \<Rightarrow> video list" where
  "saved_records [] = []"
| "saved_records (SaveRequest v # es) = v # saved_records es"
| "saved_records (e # es) = saved_records es"

fun image_requests :: "event list \<Rightarrow> nat list" where
  "image_requests [] = []"
| "image_requests (ImageRequest i p # es) = i # image_requests es"
| "image_requests (e # es) = image_requests es"

text \<open>
  The answer of the image service to the request that the loop sends for index \<open>i\<close>,
  and its two classes: the request succeeded, and the response carries image data.
\<close>

definition reply_index :: "services \<Rightarrow> string \<Rightarrow> nat \<Rightarrow> img_response" where
  "reply_index sv prompt i = stability sv i (framePrompt_index prompt i)"

definition reply_part000 :: "services \<Rightarrow> string \<Rightarrow> int \<Rightarrow> nat \<Rightarrow> img_response" where
  "reply_part000 sv prompt numFrames i = stability sv i (generateFramePrompt prompt i numFrames)"

fun request_failed :: "img_response \<Rightarrow> bool" where
  "request_failed (ImgFailed m) = True"
| "request_failed (ImgReply b) = False"

fun well_formed :: "img_response \<Rightarrow> bool" where
  "well_formed (ImgFailed m) = False"
| "well_formed (ImgReply b) = truthy b"

fun encoder_runs :: "event list \<Rightarrow> event list" where
  "encoder_runs [] = []"
| "encoder_runs (e # es) = (if is_encoder_run e then e # encoder_runs es else encoder_runs es)"

text \<open>The events that reach the encoder or the store.\<close>

fun service_call :: "event \<Rightarrow> bool" where
  "service_call (EncoderRun_index c) = True"
| "service_call (EncoderRun_part000 c) = True"
| "service_call (SaveRequest v) = True"
| "service_call other = False"

text \<open>A search that came back without a result.\<close>

fun empty_reply :: "search_response \<Rightarrow> bool" where
  "empty_reply (SearchFailed m) = False"
| "empty_reply (SearchReply r) = no_results r"

text \<open>The prompt has no text: it is absent, or only white space.\<close>

fun blank :: "jsvalue \<Rightarrow> bool" where
  "blank Absent = True"
| "blank (Str s) = (trim s = [])"
| "blank NonString = False"

text \<open>
  A tier came back empty: the searches number \<open>k\<close>, \<open>k + 1\<close>, ... of the run, sent with
  the queries \<open>qs\<close> in their order, all answered without a result.
\<close>

definition tier_empty :: "services \<Rightarrow> nat \<Rightarrow> string list \<Rightarrow> bool" where
  "tier_empty sv k qs = list_all (\<lambda>j. empty_reply (freesound sv (k + j) (qs ! j))) [0..<length qs]"

text \<open>
  The value of \<^verbatim>\<open>generationProgress\<close> after a list of events, the percentages that
  the events write, in their order, and the assignments of a whole new object.
\<close>

definition final_state :: "progress_state \<Rightarrow> event list \<Rightarrow> progress_state" where
  "final_state s evs = foldl apply_event s evs"







subsection \<open>Concrete collaborators for the examples\<close>

text \<open>
  \<open>sv_ok\<close>: every collaborator succeeds; the encoder accepts every command and reports
  50 and 100 percent before it ends. The variants differ from it in the answers named.
\<close>

definition sv_ok :: services where
  "sv_ok = \<lparr>stability = (\<lambda>i p. ImgReply (Some ''iVBORw0KGgo='')),
            freesound = (\<lambda>k q. SearchReply (Some [\<lparr>sound_name = ''rain'',
                                                    preview_hq_mp3 = ''https://cdn.freesound.org/1.mp3''\<rparr>])),
            preview = (\<lambda>url. FetchData ''ID3''),
            audiocraft = (\<lambda>p d. FetchData ''RIFF''),
            ffmpeg_index = (\<lambda>c. EncEnd),
            ffmpeg_part000 = (\<lambda>c. ([50, 100], EncEnd)),
            fs_stat = (\<lambda>k path. StatSize 4096),
            video_save = (\<lambda>v. None),
            Date_now = 1700000000000\<rparr>"

text \<open>The image service answers the request for index 2 without image data.\<close>

definition sv_gap :: services where
  "sv_gap = sv_ok\<lparr>stability := (\<lambda>i p. if i = 2 then ImgReply None else ImgReply (Some ''iVBORw0KGgo=''))\<rparr>"


text \<open>The sound library has nothing for any query.\<close>

definition sv_silent :: services where
  "sv_silent = sv_ok\<lparr>freesound := (\<lambda>k q. SearchReply (Some []))\<rparr>"

text \<open>
  The sound library has a sound for the first default category only, and the download
  of its preview fails.
\<close>

definition sv_preview_down :: services where
  "sv_preview_down =
     sv_ok\<lparr>freesound := (\<lambda>k q. if q = ''ambient music''
                                then SearchReply (Some [\<lparr>sound_name = ''rain'',
                                       preview_hq_mp3 = ''https://cdn.freesound.org/1.mp3''\<rparr>])
                                else SearchReply (Some [])),
           preview := (\<lambda>url. FetchFailed ''connect ETIMEDOUT'')\<rparr>"


section \<open>Keyword extraction: the scan computes the maximal runs\<close>

lemma split_scan_runs:
  "filter (\<lambda>w. w \<noteq> []) (split_scan sep False cur s) =
     (if cur @ takeWhile (\<lambda>c. \<not> sep c) s = [] then [] else [cur @ takeWhile (\<lambda>c. \<not> sep c) s])
       @ maximal_runs (\<lambda>c. \<not> sep c) (dropWhile (\<lambda>c. \<not> sep c) s)
   \<and> filter (\<lambda>w. w \<noteq> []) (split_scan sep True [] s) = maximal_runs (\<lambda>c. \<not> sep c) s"
proof (induction s arbitrary: cur)
  case Nil
  show ?case by simp
next
  case (Cons c cs)
  show ?case
  proof (cases "sep c")
    case True
    with Cons [of "[]"] show ?thesis by simp
  next
    case False
    with Cons [of "cur @ [c]"] Cons [of "[c]"] show ?thesis by simp
  qed
qed

lemma split_runs_maximal:
  "filter (\<lambda>w. w \<noteq> []) (split_runs sep s) = maximal_runs (\<lambda>c. \<not> sep c) s"
proof (cases s)
  case Nil
  then show ?thesis by (simp add: split_runs_def)
next
  case (Cons c cs)
  show ?thesis
  proof (cases "sep c")
    case True
    then show ?thesis using split_scan_runs [of sep "[]" cs] Cons by (simp add: split_runs_def)
  next
    case False
    then show ?thesis using split_scan_runs [of sep "[c]" cs] Cons by (simp add: split_runs_def)
  qed
qed

lemma filter_after_nonempty:
  "(\<And>w. P w \<Longrightarrow> w \<noteq> []) \<Longrightarrow> filter P xs = filter P (filter (\<lambda>w. w \<noteq> []) xs)"
  by (induction xs) auto

lemma extractKeywords_runs:
  "extractKeywords str =
     filter (\<lambda>w. 2 < length w \<and> w \<notin> set commonWords) (maximal_runs isWordChar (toLowerCase str))"
proof -
  have "extractKeywords str =
          filter (\<lambda>w. 2 < length w \<and> w \<notin> set commonWords) (split_runs isNonWord (toLowerCase str))"
    by (simp add: extractKeywords_def)
  also have "\<dots> = filter (\<lambda>w. 2 < length w \<and> w \<notin> set commonWords)
                     (filter (\<lambda>w. w \<noteq> []) (split_runs isNonWord (toLowerCase str)))"
    by (rule filter_after_nonempty) auto
  also have "\<dots> = filter (\<lambda>w. 2 < length w \<and> w \<notin> set commonWords)
                     (maximal_runs isWordChar (toLowerCase str))"
    by (simp add: split_runs_maximal isNonWord_def)
  finally show ?thesis .
qed

lemma audioKeywords_runs:
  "audioKeywords str =
     filter (\<lambda>w. 3 < length w \<and> w \<notin> set [''with'', ''and'', ''the'', ''for''])
       (maximal_runs (\<lambda>c. \<not> isAudioSeparator c) (toLowerCase str))"
proof -
  have "audioKeywords str =
          filter (\<lambda>w. 3 < length w \<and> w \<notin> set [''with'', ''and'', ''the'', ''for''])
            (split_runs isAudioSeparator (toLowerCase str))"
    unfolding audioKeywords_def filter_filter by (rule filter_cong) auto
  also have "\<dots> = filter (\<lambda>w. 3 < length w \<and> w \<notin> set [''with'', ''and'', ''the'', ''for''])
                     (filter (\<lambda>w. w \<noteq> []) (split_runs isAudioSeparator (toLowerCase str)))"
    by (rule filter_after_nonempty) auto
  finally show ?thesis by (simp only: split_runs_maximal)
qed

text \<open>
  C4, as the specification states it, fails on its own example: \<^verbatim>\<open>extractKeywords\<close>
  keeps every token longer than two characters, so it returns "cat" (and "fox", which
  the expected list of the specification contains although it has three letters).
\<close>

theorem C4_example_counterexample:
  "extractKeywords ''A cat and the quick brown fox jumps'' \<noteq> [''quick'', ''brown'', ''fox'', ''jumps'']
   \<and> ''cat'' \<in> set (extractKeywords ''A cat and the quick brown fox jumps'')"
  by code_simp

text \<open>
  C4, amended. For every text, \<^verbatim>\<open>extractKeywords\<close> lower-cases the text, splits it on
  runs of non-word characters and returns, in the order of the text, exactly the tokens
  of length greater than 2 that are not in its stopword list; the keyword list that
  \<^verbatim>\<open>getAudioFromFreesound\<close> builds splits on runs of white space and of the marks
  \<^verbatim>\<open>. , ! ?\<close> and returns the tokens of length greater than 3 other than "with", "and",
  "the", "for". For "A cat and the quick brown fox jumps" the first returns
  cat, quick, brown, fox, jumps and the second quick, brown, jumps.
\<close>

theorem C4_keywords:
  "extractKeywords str =
     filter (\<lambda>w. 2 < length w \<and> w \<notin> set commonWords) (maximal_runs isWordChar (toLowerCase str))
   \<and> audioKeywords str =
     filter (\<lambda>w. 3 < length w \<and> w \<notin> set [''with'', ''and'', ''the'', ''for''])
       (maximal_runs (\<lambda>c. \<not> isAudioSeparator c) (toLowerCase str))
   \<and> extractKeywords ''A cat and the quick brown fox jumps''
       = [''cat'', ''quick'', ''brown'', ''fox'', ''jumps'']
   \<and> audioKeywords ''A cat and the quick brown fox jumps'' = [''quick'', ''brown'', ''jumps'']"
proof -
  have a: "extractKeywords ''A cat and the quick brown fox jumps''
             = [''cat'', ''quick'', ''brown'', ''fox'', ''jumps'']"
    by code_simp
  have b: "audioKeywords ''A cat and the quick brown fox jumps'' = [''quick'', ''brown'', ''jumps'']"
    by code_simp
  show ?thesis
    using extractKeywords_runs [of str] audioKeywords_runs [of str] a b by blast
qed

section \<open>Frame generation: what the two loops return\<close>

lemma frames_loop_part000_step:
  "snd (frames_loop_part000 sv prompt n (i # rest) acc) =
     (case reply_part000 sv prompt n i of
        ImgFailed m \<Rightarrow> Inl (frameError i m)
      | ImgReply b \<Rightarrow>
          if truthy b then snd (frames_loop_part000 sv prompt n rest (acc @ [framePath_part000 sv i]))
          else Inl (frameError i ''Invalid response from Stability API''))"
  by (simp add: reply_part000_def Let_def case_prod_beta split: img_response.splits)

lemma frames_loop_part000_Inr:
  "snd (frames_loop_part000 sv prompt n idxs acc) = Inr frames \<Longrightarrow>
     frames = acc @ map (framePath_part000 sv) idxs
     \<and> (\<forall>i\<in>set idxs. well_formed (reply_part000 sv prompt n i))"
proof (induction idxs arbitrary: acc)
  case Nil
  then show ?case by simp
next
  case (Cons i rest)
  from Cons.prems obtain b where b: "reply_part000 sv prompt n i = ImgReply b" "truthy b"
    and r: "snd (frames_loop_part000 sv prompt n rest (acc @ [framePath_part000 sv i])) = Inr frames"
    unfolding frames_loop_part000_step by (auto split: img_response.splits if_splits)
  from Cons.IH [OF r] b show ?case by simp
qed

lemma frames_loop_part000_Inl:
  "snd (frames_loop_part000 sv prompt n idxs acc) = Inl msg \<Longrightarrow>
     \<exists>pre i post m. idxs = pre @ i # post
        \<and> (\<forall>j\<in>set pre. well_formed (reply_part000 sv prompt n j))
        \<and> \<not> well_formed (reply_part000 sv prompt n i)
        \<and> msg = frameError i m"
proof (induction idxs arbitrary: acc)
  case Nil
  then show ?case by simp
next
  case (Cons i rest)
  show ?case
  proof (cases "well_formed (reply_part000 sv prompt n i)")
    case False
    with Cons.prems have "\<exists>m. msg = frameError i m"
      unfolding frames_loop_part000_step by (auto split: img_response.splits if_splits)
    then obtain m where m: "msg = frameError i m" ..
    show ?thesis
      by (rule exI [of _ "[]"], rule exI [of _ i], rule exI [of _ rest], rule exI [of _ m])
         (use False m in simp)
  next
    case True
    with Cons.prems have "snd (frames_loop_part000 sv prompt n rest (acc @ [framePath_part000 sv i])) = Inl msg"
      unfolding frames_loop_part000_step by (auto split: img_response.splits if_splits)
    from Cons.IH [OF this] obtain pre j post m where
      h: "rest = pre @ j # post" "\<forall>k\<in>set pre. well_formed (reply_part000 sv prompt n k)"
         "\<not> well_formed (reply_part000 sv prompt n j)" "msg = frameError j m" by blast
    show ?thesis
      by (rule exI [of _ "i # pre"], rule exI [of _ j], rule exI [of _ post], rule exI [of _ m])
         (use h True in simp)
  qed
qed

lemma frames_loop_part000_total:
  "(\<forall>i\<in>set idxs. well_formed (reply_part000 sv prompt n i)) \<Longrightarrow>
   snd (frames_loop_part000 sv prompt n idxs acc) = Inr (acc @ map (framePath_part000 sv) idxs)"
proof (induction idxs arbitrary: acc)
  case Nil
  then show ?case by simp
next
  case (Cons i rest)
  from Cons.prems obtain b where b: "reply_part000 sv prompt n i = ImgReply b" "truthy b"
    by (cases "reply_part000 sv prompt n i") auto
  have "\<forall>j\<in>set rest. well_formed (reply_part000 sv prompt n j)" using Cons.prems by simp
  from Cons.IH [OF this, of "acc @ [framePath_part000 sv i]"] b show ?case
    unfolding frames_loop_part000_step by simp
qed

lemma snd_generateVideoFrames_part000:
  "snd (generateVideoFrames_part000 sv prompt n)
     = snd (frames_loop_part000 sv prompt n [1..<Suc (nat n)] [])"
  unfolding generateVideoFrames_part000_def case_prod_beta
  by (cases "snd (frames_loop_part000 sv prompt n [1..<Suc (nat n)] [])") (simp_all del: upt_Suc)

lemma upt_split_index:
  "[a..<b] = pre @ i # post \<Longrightarrow> a \<le> i \<and> i < b \<and> set pre = {a..<i}"
proof -
  assume h: "[a..<b] = pre @ i # post"
  have "i \<in> set [a..<b]" unfolding h by simp
  then have ab: "a \<le> i" "i < b" by auto
  have "[a..<b] = [a..<i] @ [i..<b]"
    using upt_add_eq_append [of a i "b - i"] ab by simp
  then have e: "[a..<b] = [a..<i] @ i # [Suc i..<b]"
    using ab by (simp add: upt_conv_Cons)
  have "length pre = length [a..<i]"
  proof -
    have "[a..<b] ! length pre = i" unfolding h by simp
    moreover have "length pre < length [a..<b]" unfolding h by simp
    ultimately have "a + length pre = i" by simp
    then show ?thesis by simp
  qed
  with h e have "pre = [a..<i]" by (metis append_eq_append_conv)
  then show ?thesis using ab by simp
qed

lemma generateVideoFrames_part000_cases:
  "(case snd (generateVideoFrames_part000 sv prompt n) of
      Inr frames \<Rightarrow> length frames = nat n
                    \<and> (\<forall>i\<in>{1..nat n}. well_formed (reply_part000 sv prompt n i))
    | Inl msg \<Rightarrow> (\<exists>i\<in>{1..nat n}. \<not> well_formed (reply_part000 sv prompt n i)
                    \<and> (\<forall>j\<in>{1..<i}. well_formed (reply_part000 sv prompt n j))
                    \<and> (\<exists>m. msg = frameError i m)))"
proof (cases "snd (frames_loop_part000 sv prompt n [1..<Suc (nat n)] [])")
  case (Inl msg)
  from frames_loop_part000_Inl [OF Inl] obtain pre i post m where
    h: "[1..<Suc (nat n)] = pre @ i # post" "\<forall>j\<in>set pre. well_formed (reply_part000 sv prompt n j)"
       "\<not> well_formed (reply_part000 sv prompt n i)" "msg = frameError i m" by blast
  from upt_split_index [OF h(1)] have i: "1 \<le> i" "i < Suc (nat n)" "set pre = {1..<i}" by auto
  have "\<exists>i\<in>{1..nat n}. \<not> well_formed (reply_part000 sv prompt n i)
                    \<and> (\<forall>j\<in>{1..<i}. well_formed (reply_part000 sv prompt n j))
                    \<and> (\<exists>m. msg = frameError i m)"
  proof (rule bexI [of _ i])
    show "i \<in> {1..nat n}" using i by simp
    show "\<not> well_formed (reply_part000 sv prompt n i)
                    \<and> (\<forall>j\<in>{1..<i}. well_formed (reply_part000 sv prompt n j))
                    \<and> (\<exists>m. msg = frameError i m)"
      using h(2,3,4) i(3) by blast
  qed
  with Inl show ?thesis
    unfolding snd_generateVideoFrames_part000 by simp
next
  case (Inr frames)
  from frames_loop_part000_Inr [OF Inr] have "length frames = nat n"
    "\<forall>i\<in>set [1..<Suc (nat n)]. well_formed (reply_part000 sv prompt n i)" by simp_all
  then have "length frames = nat n \<and> (\<forall>i\<in>{1..nat n}. well_formed (reply_part000 sv prompt n i))"
    by (simp add: atLeastLessThanSuc_atLeastAtMost del: upt_Suc)
  with Inr show ?thesis
    unfolding snd_generateVideoFrames_part000 by simp
qed

lemma frames_loop_index_step:
  "snd (frames_loop_index sv prompt (i # rest) acc) =
     (case reply_index sv prompt i of
        ImgFailed m \<Rightarrow> Inl m
      | ImgReply b \<Rightarrow>
          snd (frames_loop_index sv prompt rest (if truthy b then acc @ [framePath_index i] else acc)))"
  by (simp add: reply_index_def Let_def case_prod_beta split: img_response.splits)

lemma frames_loop_index_Inr:
  "snd (frames_loop_index sv prompt idxs acc) = Inr frames \<Longrightarrow>
     frames = acc @ map framePath_index (filter (\<lambda>i. well_formed (reply_index sv prompt i)) idxs)
     \<and> (\<forall>i\<in>set idxs. \<not> request_failed (reply_index sv prompt i))"
proof (induction idxs arbitrary: acc)
  case Nil
  then show ?case by simp
next
  case (Cons i rest)
  from Cons.prems obtain b where b: "reply_index sv prompt i = ImgReply b"
    and r: "snd (frames_loop_index sv prompt rest (if truthy b then acc @ [framePath_index i] else acc)) = Inr frames"
    unfolding frames_loop_index_step by (auto split: img_response.splits)
  from Cons.IH [OF r] b show ?case by simp
qed

lemma frames_loop_index_Inl:
  "snd (frames_loop_index sv prompt idxs acc) = Inl msg \<Longrightarrow>
     \<exists>i\<in>set idxs. reply_index sv prompt i = ImgFailed msg"
proof (induction idxs arbitrary: acc)
  case Nil
  then show ?case by simp
next
  case (Cons i rest)
  show ?case
  proof (cases "reply_index sv prompt i")
    case (ImgFailed m)
    with Cons.prems show ?thesis unfolding frames_loop_index_step by simp
  next
    case (ImgReply b)
    with Cons.prems have "snd (frames_loop_index sv prompt rest (if truthy b then acc @ [framePath_index i] else acc)) = Inl msg"
      unfolding frames_loop_index_step by simp
    from Cons.IH [OF this] show ?thesis by auto
  qed
qed

lemma frames_loop_index_total:
  "(\<forall>i\<in>set idxs. \<not> request_failed (reply_index sv prompt i)) \<Longrightarrow>
   snd (frames_loop_index sv prompt idxs acc)
     = Inr (acc @ map framePath_index (filter (\<lambda>i. well_formed (reply_index sv prompt i)) idxs))"
proof (induction idxs arbitrary: acc)
  case Nil
  then show ?case by simp
next
  case (Cons i rest)
  from Cons.prems obtain b where b: "reply_index sv prompt i = ImgReply b"
    by (cases "reply_index sv prompt i") auto
  have "\<forall>j\<in>set rest. \<not> request_failed (reply_index sv prompt j)" using Cons.prems by simp
  from Cons.IH [OF this, of "if truthy b then acc @ [framePath_index i] else acc"] b show ?case
    unfolding frames_loop_index_step by simp
qed

lemma snd_generateVideoFrames_index:
  "snd (generateVideoFrames_index sv prompt n) =
     (case snd (frames_loop_index sv prompt [0..<nat (Math_max 4 n)] []) of
        Inl msg \<Rightarrow> Inl msg
      | Inr frames \<Rightarrow> if frames = [] then Inl ''Failed to generate any frames'' else Inr frames)"
  unfolding generateVideoFrames_index_def Let_def case_prod_beta
  by (cases "snd (frames_loop_index sv prompt [0..<nat (Math_max 4 n)] [])") simp_all

lemma generateVideoFrames_index_cases:
  "(case snd (generateVideoFrames_index sv prompt n) of
      Inr frames \<Rightarrow>
        frames \<noteq> []
        \<and> frames = map framePath_index
                     (filter (\<lambda>i. well_formed (reply_index sv prompt i)) [0..<nat (Math_max 4 n)])
        \<and> (\<forall>i\<in>{0..<nat (Math_max 4 n)}. \<not> request_failed (reply_index sv prompt i))
    | Inl msg \<Rightarrow>
        (\<exists>i\<in>{0..<nat (Math_max 4 n)}. reply_index sv prompt i = ImgFailed msg)
        \<or> (msg = ''Failed to generate any frames''
            \<and> (\<forall>i\<in>{0..<nat (Math_max 4 n)}. \<not> well_formed (reply_index sv prompt i))))"
proof (cases "snd (frames_loop_index sv prompt [0..<nat (Math_max 4 n)] [])")
  case (Inl msg)
  from frames_loop_index_Inl [OF Inl] Inl show ?thesis
    unfolding snd_generateVideoFrames_index by simp
next
  case (Inr frames)
  from frames_loop_index_Inr [OF Inr]
  have f: "frames = map framePath_index
                     (filter (\<lambda>i. well_formed (reply_index sv prompt i)) [0..<nat (Math_max 4 n)])"
    and g: "\<forall>i\<in>{0..<nat (Math_max 4 n)}. \<not> request_failed (reply_index sv prompt i)"
    by simp_all
  show ?thesis
  proof (cases "frames = []")
    case True
    with f have "\<forall>i\<in>{0..<nat (Math_max 4 n)}. \<not> well_formed (reply_index sv prompt i)"
      by (simp add: filter_empty_conv)
    with True Inr show ?thesis unfolding snd_generateVideoFrames_index by simp
  next
    case False
    with f g Inr show ?thesis unfolding snd_generateVideoFrames_index by simp
  qed
qed

lemma generateVideoFrames_index_all_good:
  assumes "\<forall>i\<in>{0..<nat (Math_max 4 n)}. well_formed (reply_index sv prompt i)"
  shows "\<exists>frames. snd (generateVideoFrames_index sv prompt n) = Inr frames
           \<and> length frames = nat (Math_max 4 n)"
proof -
  have nf: "\<forall>i\<in>set [0..<nat (Math_max 4 n)]. \<not> request_failed (reply_index sv prompt i)"
  proof
    fix i assume "i \<in> set [0..<nat (Math_max 4 n)]"
    with assms have "well_formed (reply_index sv prompt i)" by simp
    then show "\<not> request_failed (reply_index sv prompt i)"
      by (cases "reply_index sv prompt i") simp_all
  qed
  have fl: "filter (\<lambda>i. well_formed (reply_index sv prompt i)) [0..<nat (Math_max 4 n)]
              = [0..<nat (Math_max 4 n)]"
    using assms by (simp add: filter_id_conv)
  have pos: "0 < nat (Math_max 4 n)" by (simp add: Math_max_def)
  from frames_loop_index_total [OF nf, of "[]"] fl
  have "snd (frames_loop_index sv prompt [0..<nat (Math_max 4 n)] [])
          = Inr (map framePath_index [0..<nat (Math_max 4 n)])" by simp
  with pos show ?thesis unfolding snd_generateVideoFrames_index by simp
qed

section \<open>What a run sends to the encoder and to the store\<close>

lemma encoder_runs_append: "encoder_runs (xs @ ys) = encoder_runs xs @ encoder_runs ys"
  by (induction xs) simp_all

lemma saved_records_append: "saved_records (xs @ ys) = saved_records xs @ saved_records ys"
  by (induction xs rule: saved_records.induct) simp_all

lemma queries_append: "queries (xs @ ys) = queries xs @ queries ys"
  by (induction xs rule: queries.induct) simp_all

lemma image_requests_append: "image_requests (xs @ ys) = image_requests xs @ image_requests ys"
  by (induction xs rule: image_requests.induct) simp_all

lemma quiet_encoder_runs: "(\<forall>e\<in>set evs. \<not> service_call e) \<Longrightarrow> encoder_runs evs = []"
proof (induction evs)
  case Nil
  show ?case by simp
next
  case (Cons e evs)
  then show ?case by (cases e) simp_all
qed

lemma quiet_saved_records: "(\<forall>e\<in>set evs. \<not> service_call e) \<Longrightarrow> saved_records evs = []"
proof (induction evs)
  case Nil
  show ?case by simp
next
  case (Cons e evs)
  then show ?case by (cases e) simp_all
qed

lemma frames_loop_index_quiet:
  "\<forall>e\<in>set (fst (frames_loop_index sv prompt idxs acc)). \<not> service_call e"
  by (induction idxs arbitrary: acc)
     (simp_all add: Let_def case_prod_beta split: img_response.splits)

lemma generateVideoFrames_index_quiet:
  "\<forall>e\<in>set (fst (generateVideoFrames_index sv prompt n)). \<not> service_call e"
  using frames_loop_index_quiet [of sv prompt "[0..<nat (Math_max 4 n)]" "[]"]
  by (simp add: generateVideoFrames_index_def Let_def case_prod_beta split: sum.splits)

lemma frames_loop_part000_quiet:
  "\<forall>e\<in>set (fst (frames_loop_part000 sv prompt n idxs acc)). \<not> service_call e"
  by (induction idxs arbitrary: acc)
     (simp_all add: Let_def case_prod_beta split: img_response.splits)

lemma generateVideoFrames_part000_quiet:
  "\<forall>e\<in>set (fst (generateVideoFrames_part000 sv prompt n)). \<not> service_call e"
  using frames_loop_part000_quiet [of sv prompt n "[1..<Suc (nat n)]" "[]"]
  by (simp add: generateVideoFrames_part000_def Let_def case_prod_beta split: sum.splits del: upt_Suc)

lemma audio_each_quiet:
  "\<forall>e\<in>set (fst (audio_each sv k qs)). \<not> service_call e"
  by (induction qs arbitrary: k)
     (simp_all add: Let_def case_prod_beta
        split: search_response.splits option.splits list.splits fetch_response.splits)

lemma getAudioFromFreesound_quiet:
  "\<forall>e\<in>set (fst (getAudioFromFreesound sv prompt d)). \<not> service_call e"
  using audio_each_quiet [of sv 0 "map keywordQuery (audioKeywords prompt)"]
        audio_each_quiet [of sv "length (audioKeywords prompt)" DEFAULT_CATEGORIES]
  by (auto simp add: getAudioFromFreesound_def Let_def case_prod_beta split: sum.splits option.splits)

lemma generateMusicFromPrompt_quiet:
  "\<forall>e\<in>set (fst (generateMusicFromPrompt sv prompt d)). \<not> service_call e"
  by (simp add: generateMusicFromPrompt_def split: fetch_response.splits)

lemma unlink_quiet: "\<forall>e\<in>set (map Unlink xs). \<not> service_call e"
  by (induction xs) simp_all

lemma encoder_runs_createVideo_index:
  "encoder_runs (fst (createVideo_index sv frames a d))
     = [EncoderRun_index (videoCommand_index sv frames a d)]"
  by (simp add: createVideo_index_def Let_def split: enc_finish.splits stat_response.splits)

lemma saved_records_createVideo_index:
  "saved_records (fst (createVideo_index sv frames a d)) = []"
  by (simp add: createVideo_index_def Let_def split: enc_finish.splits stat_response.splits)

lemma encoder_progress_quiet:
  "\<forall>e\<in>set (concat (map encoderProgress ps)). \<not> service_call e"
  by (induction ps) (simp_all add: encoderProgress_def)

lemma encoder_runs_createVideo_part000:
  "encoder_runs (fst (createVideo_part000 sv frames a d))
     = [EncoderRun_part000 (videoCommand_part000 sv frames a)]"
  using quiet_encoder_runs [OF encoder_progress_quiet]
  by (simp add: createVideo_part000_def Let_def case_prod_beta split: enc_finish.splits)

lemma saved_records_createVideo_part000:
  "saved_records (fst (createVideo_part000 sv frames a d)) = []"
  using quiet_saved_records [OF encoder_progress_quiet]
  by (simp add: createVideo_part000_def Let_def case_prod_beta split: enc_finish.splits)

lemmas quiet_logs =
  quiet_encoder_runs [OF generateVideoFrames_index_quiet]
  quiet_saved_records [OF generateVideoFrames_index_quiet]
  quiet_encoder_runs [OF generateVideoFrames_part000_quiet]
  quiet_saved_records [OF generateVideoFrames_part000_quiet]
  quiet_encoder_runs [OF getAudioFromFreesound_quiet]
  quiet_saved_records [OF getAudioFromFreesound_quiet]
  quiet_encoder_runs [OF generateMusicFromPrompt_quiet]
  quiet_saved_records [OF generateMusicFromPrompt_quiet]
  quiet_encoder_runs [OF unlink_quiet]
  quiet_saved_records [OF unlink_quiet]
  encoder_runs_createVideo_index saved_records_createVideo_index
  encoder_runs_createVideo_part000 saved_records_createVideo_part000
  encoder_runs_append saved_records_append

lemma pipeline_index_saved:
  "saved_records (fst (pipeline_index sv prompt d)) = []
   \<or> (\<exists>url. saved_records (fst (pipeline_index sv prompt d)) = [videoRecord sv prompt url d])"
  by (auto simp add: pipeline_index_def Let_def case_prod_beta quiet_logs
        split: sum.splits stat_response.splits option.splits)

lemma pipeline_part000_saved:
  "saved_records (fst (pipeline_part000 sv prompt d)) = []
   \<or> (\<exists>url. saved_records (fst (pipeline_part000 sv prompt d)) = [videoRecord sv prompt url d])"
  by (auto simp add: pipeline_part000_def Let_def case_prod_beta quiet_logs
        split: sum.splits option.splits)

lemma route_index_saved:
  "v \<in> set (saved_records (fst (route_index sv p d))) \<Longrightarrow> hasAudio v"
proof (cases "\<exists>s x. p = Str s \<and> trim s \<noteq> [] \<and> d = Fin x")
  case False
  then have "fst (route_index sv p d) = []"
    by (cases p; cases d) (auto simp: route_index_def)
  then show "v \<in> set (saved_records (fst (route_index sv p d))) \<Longrightarrow> hasAudio v" by simp
next
  case True
  then obtain s x where h: "p = Str s" "trim s \<noteq> []" "d = Fin x" by blast
  then have "fst (route_index sv p d) = fst (pipeline_index sv s x)"
    by (simp add: route_index_def case_prod_beta split: sum.splits)
  with pipeline_index_saved [of sv s x]
  show "v \<in> set (saved_records (fst (route_index sv p d))) \<Longrightarrow> hasAudio v"
    by (auto simp: videoRecord_def)
qed

lemma fst_route_index:
  "trim prompt \<noteq> [] \<Longrightarrow>
   fst (route_index sv (Str prompt) (Fin d)) = fst (pipeline_index sv prompt d)"
  by (simp add: route_index_def case_prod_beta split: sum.splits)

lemma fst_pipeline_index_prefix:
  "\<exists>rest. fst (pipeline_index sv prompt d)
            = fst (generateVideoFrames_index sv prompt (Math_ceil (d / 2))) @ rest"
  by (simp add: pipeline_index_def Let_def case_prod_beta
        split: sum.splits stat_response.splits option.splits)

lemma fst_pipeline_part000_prefix:
  "\<exists>rest. fst (pipeline_part000 sv prompt d)
            = [ProgressAssign \<lparr>progress = 0, status = ''Starting generation...'',
                                videoUrl = None, error = None\<rparr>,
               SetStatus ''Generating frames...'']
              @ fst (generateVideoFrames_part000 sv prompt (Math_ceil (d / 2))) @ rest"
  by (simp add: pipeline_part000_def Let_def case_prod_beta
        split: sum.splits enc_finish.splits option.splits)

lemma ceil_half_bounds:
  assumes "5 \<le> d" "d \<le> 30"
  shows "3 \<le> Math_ceil (d / 2) \<and> Math_ceil (d / 2) \<le> 15"
proof -
  have "2 < d / 2" using assms by simp
  then have "2 < \<lceil>d / 2\<rceil>" by (simp add: less_ceiling_iff)
  moreover have "d / 2 \<le> 15" using assms by simp
  then have "\<lceil>d / 2\<rceil> \<le> 15" by (simp add: ceiling_le_iff)
  ultimately show ?thesis by (simp add: Math_ceil_def)
qed

lemma max4_ceil_half: "(Math_max 4 (Math_ceil (d / 2)) = Math_ceil (d / 2)) = (6 < d)"
proof -
  have "(3 < \<lceil>d / 2\<rceil>) = (3 < d / 2)" using less_ceiling_iff [of 3 "d / 2"] by simp
  also have "\<dots> = (6 < d)" by auto
  finally have a: "(3 < \<lceil>d / 2\<rceil>) = (6 < d)" .
  have "(Math_max 4 (Math_ceil (d / 2)) = Math_ceil (d / 2)) = (3 < \<lceil>d / 2\<rceil>)"
  proof -
    define c where "c = \<lceil>d / 2\<rceil>"
    have "((if 4 < c then c else 4) = c) = (3 < c)" by (cases "4 < c") auto
    then show ?thesis unfolding Math_max_def Math_ceil_def c_def .
  qed
  with a show ?thesis by simp
qed

lemma fst_route_part000:
  "trim prompt \<noteq> [] \<Longrightarrow>
   \<exists>tail. fst (route_part000 sv (Str prompt) (Fin d)) = fst (pipeline_part000 sv prompt d) @ tail
          \<and> (\<forall>e\<in>set tail. \<not> service_call e)"
  by (simp add: route_part000_def try_part000_def case_prod_beta split: sum.splits)

lemma route_part000_saved:
  "v \<in> set (saved_records (fst (route_part000 sv p d))) \<Longrightarrow> hasAudio v"
proof (cases "\<exists>s x. p = Str s \<and> trim s \<noteq> [] \<and> d = Fin x")
  case False
  then have "fst (try_part000 sv p d) = []"
    by (cases p; cases d) (auto simp: try_part000_def)
  then have "saved_records (fst (route_part000 sv p d)) = []"
    by (simp add: route_part000_def case_prod_beta split: sum.splits)
  then show "v \<in> set (saved_records (fst (route_part000 sv p d))) \<Longrightarrow> hasAudio v" by simp
next
  case True
  then obtain s x where h: "p = Str s" "trim s \<noteq> []" "d = Fin x" by blast
  from fst_route_part000 [OF h(2), of sv x] obtain tail where
    t: "fst (route_part000 sv (Str s) (Fin x)) = fst (pipeline_part000 sv s x) @ tail"
       "\<forall>e\<in>set tail. \<not> service_call e" by blast
  from t(2) have "saved_records tail = []" by (rule quiet_saved_records)
  with t(1) h have "saved_records (fst (route_part000 sv p d)) = saved_records (fst (pipeline_part000 sv s x))"
    by (simp add: saved_records_append)
  with pipeline_part000_saved [of sv s x]
  show "v \<in> set (saved_records (fst (route_part000 sv p d))) \<Longrightarrow> hasAudio v"
    by (auto simp: videoRecord_def)
qed

text \<open>
  C9. Every record that the generation route hands to the store has \<open>hasAudio = True\<close>,
  in both files and whatever the collaborators answer: the route builds the record with
  the constant \<^verbatim>\<open>hasAudio: true\<close>, and no other code of a run saves a record.
\<close>

theorem C9_hasAudio:
  "(\<forall>v\<in>set (saved_records (fst (route_index sv p d))). hasAudio v)
   \<and> (\<forall>v\<in>set (saved_records (fst (route_part000 sv p d))). hasAudio v)"
  using route_index_saved route_part000_saved by blast

text \<open>A run of each route that does save a record, and the record it saves.\<close>

theorem C9_hasAudio_witness:
  "saved_records (fst (route_index sv_ok (Str ''a calm lake at sunrise'') (Fin 10)))
     = [videoRecord sv_ok ''a calm lake at sunrise'' ''/videos/1700000000000.mp4'' 10]
   \<and> hasAudio (videoRecord sv_ok ''a calm lake at sunrise'' ''/videos/1700000000000.mp4'' 10)
   \<and> saved_records (fst (route_part000 sv_ok (Str ''a calm lake at sunrise'') (Fin 10)))
     = [videoRecord sv_ok ''a calm lake at sunrise'' ''/videos/video_1700000000000.mp4'' 10]
   \<and> hasAudio (videoRecord sv_ok ''a calm lake at sunrise'' ''/videos/video_1700000000000.mp4'' 10)"
proof -
  have a: "saved_records (fst (route_index sv_ok (Str ''a calm lake at sunrise'') (Fin 10)))
     = [videoRecord sv_ok ''a calm lake at sunrise'' ''/videos/1700000000000.mp4'' 10]"
    by code_simp
  have b: "saved_records (fst (route_part000 sv_ok (Str ''a calm lake at sunrise'') (Fin 10)))
     = [videoRecord sv_ok ''a calm lake at sunrise'' ''/videos/video_1700000000000.mp4'' 10]"
    by code_simp
  from C9_hasAudio [where sv = sv_ok and p = "Str ''a calm lake at sunrise''" and d = "Fin 10"] a b
  show ?thesis by simp
qed

section \<open>The audio cascade\<close>

lemma queries_requests: "queries (map SearchRequest qs) = qs"
  by (induction qs) simp_all

lemma tier_empty_Nil: "tier_empty sv k []"
  by (simp add: tier_empty_def)

lemma tier_empty_iff:
  "tier_empty sv k qs = (\<forall>j<length qs. empty_reply (freesound sv (k + j) (qs ! j)))"
  by (auto simp add: tier_empty_def list_all_iff)

lemma tier_empty_Cons:
  "tier_empty sv k (q # qs) = (empty_reply (freesound sv k q) \<and> tier_empty sv (Suc k) qs)"
  unfolding tier_empty_iff by (simp add: All_less_Suc2)

lemma no_results_cases: "no_results r = (r = None \<or> r = Some [])"
  by (cases r) (simp_all add: no_results_def)

lemma empty_replyE:
  assumes "empty_reply x"
  obtains r where "x = SearchReply r" "no_results r"
  using assms by (cases x) simp_all

lemma search_each_empty:
  "tier_empty sv k qs \<Longrightarrow>
     fst (search_each sv k qs cur) = map SearchRequest qs
     \<and> (\<exists>q r. snd (search_each sv k qs cur) = Inr (q, r)
            \<and> (qs = [] \<longrightarrow> (q, r) = cur) \<and> (qs \<noteq> [] \<longrightarrow> no_results r))"
proof (induction qs arbitrary: k cur)
  case Nil
  show ?case by (cases cur) simp
next
  case (Cons q qs)
  from Cons.prems have e: "empty_reply (freesound sv k q)" and t: "tier_empty sv (Suc k) qs"
    by (simp_all add: tier_empty_Cons)
  from e obtain r where r: "freesound sv k q = SearchReply r" "no_results r" by (rule empty_replyE)
  from Cons.IH [OF t, of "(q, r)"] obtain q' r' where
    h: "fst (search_each sv (Suc k) qs (q, r)) = map SearchRequest qs"
       "snd (search_each sv (Suc k) qs (q, r)) = Inr (q', r')"
       "qs = [] \<longrightarrow> (q', r') = (q, r)" "qs \<noteq> [] \<longrightarrow> no_results r'" by blast
  from h(3,4) r(2) have "no_results r'" by (cases "qs = []") auto
  with h(1,2) r show ?case by (simp add: case_prod_beta)
qed

lemma search_each_prefix:
  "\<exists>m\<le>length qs. fst (search_each sv k qs cur) = map SearchRequest (take m qs)"
proof (induction qs arbitrary: k cur)
  case Nil
  show ?case by simp
next
  case (Cons q qs)
  show ?case
  proof (cases "empty_reply (freesound sv k q)")
    case False
    then have "fst (search_each sv k (q # qs) cur) = map SearchRequest (take 1 (q # qs))"
      by (cases "freesound sv k q") simp_all
    then show ?thesis by (intro exI [of _ 1]) simp
  next
    case True
    then obtain r where r: "freesound sv k q = SearchReply r" "no_results r" by (rule empty_replyE)
    from Cons.IH [of "Suc k" "(q, r)"] obtain m where
      m: "m \<le> length qs" "fst (search_each sv (Suc k) qs (q, r)) = map SearchRequest (take m qs)"
      by blast
    with r have "fst (search_each sv k (q # qs) cur) = map SearchRequest (take (Suc m) (q # qs))"
      by (simp add: case_prod_beta)
    with m(1) show ?thesis by (intro exI [of _ "Suc m"]) simp
  qed
qed

lemma audio_each_empty:
  "tier_empty sv k qs \<Longrightarrow> audio_each sv k qs = (map SearchRequest qs, Inr None)"
proof (induction qs arbitrary: k)
  case Nil
  show ?case by simp
next
  case (Cons q qs)
  from Cons.prems have e: "empty_reply (freesound sv k q)" and t: "tier_empty sv (Suc k) qs"
    by (simp_all add: tier_empty_Cons)
  from e obtain r where r: "freesound sv k q = SearchReply r" "no_results r" by (rule empty_replyE)
  from r(2) have "r = None \<or> r = Some []" by (simp add: no_results_cases)
  with Cons.IH [OF t] r(1) show ?case by auto
qed

lemma audio_each_prefix:
  "\<exists>m\<le>length qs. queries (fst (audio_each sv k qs)) = take m qs"
proof (induction qs arbitrary: k)
  case Nil
  show ?case by simp
next
  case (Cons q qs)
  show ?case
  proof (cases "empty_reply (freesound sv k q)")
    case False
    then have "queries (fst (audio_each sv k (q # qs))) = take 1 (q # qs)"
      by (cases "freesound sv k q")
         (auto simp: no_results_def split: option.splits list.splits fetch_response.splits)
    then show ?thesis by (intro exI [of _ 1]) simp
  next
    case True
    then obtain r where r: "freesound sv k q = SearchReply r" "no_results r" by (rule empty_replyE)
    from r(2) have r': "r = None \<or> r = Some []" by (simp add: no_results_cases)
    from Cons.IH [of "Suc k"] obtain m where
      m: "m \<le> length qs" "queries (fst (audio_each sv (Suc k) qs)) = take m qs"
      by blast
    with r(1) r' have "queries (fst (audio_each sv k (q # qs))) = take (Suc m) (q # qs)"
      by (auto simp: case_prod_beta)
    with m(1) show ?thesis by (intro exI [of _ "Suc m"]) simp
  qed
qed

lemma music_direct_hit:
  assumes "freesound sv 0 prompt = SearchReply r" "\<not> no_results r"
  shows "queries (fst (searchAndDownloadMusic sv prompt out)) = [prompt]"
proof -
  from assms(2) obtain s others where "r = Some (s # others)"
    by (cases r) (auto simp: no_results_def neq_Nil_conv)
  with assms show ?thesis
    by (simp add: searchAndDownloadMusic_def no_results_def queries_append
          split: fetch_response.splits)
qed

lemma music_third_tier:
  assumes "freesound sv 0 prompt = SearchReply r1" "no_results r1"
    and "search_each sv 1 (map keywordQuery (extractKeywords prompt)) (prompt, r1) = (log2, Inr (q2, r2))"
    and "no_results r2"
    and "search_each sv (Suc (length log2)) DEFAULT_CATEGORIES (q2, r2) = (log3, res3)"
  shows "queries (fst (searchAndDownloadMusic sv prompt out)) = prompt # queries log2 @ queries log3"
    and "res3 = Inr (q3, r3) \<Longrightarrow> no_results r3 \<Longrightarrow>
           snd (searchAndDownloadMusic sv prompt out) = Inl ''No matching sounds found after all attempts''"
proof -
  show "queries (fst (searchAndDownloadMusic sv prompt out)) = prompt # queries log2 @ queries log3"
    using assms
    by (simp add: searchAndDownloadMusic_def queries_append
          split: sum.splits option.splits list.splits fetch_response.splits prod.splits)
  show "res3 = Inr (q3, r3) \<Longrightarrow> no_results r3 \<Longrightarrow>
           snd (searchAndDownloadMusic sv prompt out) = Inl ''No matching sounds found after all attempts''"
    using assms
    by (auto simp add: searchAndDownloadMusic_def no_results_cases)
qed

lemma music_after_empty_tiers:
  assumes t1: "tier_empty sv 0 [prompt]"
    and t2: "tier_empty sv 1 (map keywordQuery (extractKeywords prompt))"
  shows "(\<exists>m\<le>length DEFAULT_CATEGORIES.
           queries (fst (searchAndDownloadMusic sv prompt out))
             = prompt # map keywordQuery (extractKeywords prompt) @ take m DEFAULT_CATEGORIES)
       \<and> (tier_empty sv (Suc (length (extractKeywords prompt))) DEFAULT_CATEGORIES \<longrightarrow>
            queries (fst (searchAndDownloadMusic sv prompt out))
              = prompt # map keywordQuery (extractKeywords prompt) @ DEFAULT_CATEGORIES
            \<and> snd (searchAndDownloadMusic sv prompt out)
                = Inl ''No matching sounds found after all attempts'')"
proof -
  let ?kwq = "map keywordQuery (extractKeywords prompt)"
  from t1 have "empty_reply (freesound sv 0 prompt)" by (simp add: tier_empty_Cons)
  then obtain r1 where r1: "freesound sv 0 prompt = SearchReply r1" "no_results r1"
    by (rule empty_replyE)
  from search_each_empty [OF t2, of "(prompt, r1)"] obtain q2 r2 where
    h: "fst (search_each sv 1 ?kwq (prompt, r1)) = map SearchRequest ?kwq"
       "snd (search_each sv 1 ?kwq (prompt, r1)) = Inr (q2, r2)"
       "?kwq = [] \<longrightarrow> (q2, r2) = (prompt, r1)"
       "?kwq \<noteq> [] \<longrightarrow> no_results r2"
    by blast
  from h(3,4) r1(2) have n2: "no_results r2" by (cases "?kwq = []") auto
  from h(1,2) have s2: "search_each sv 1 ?kwq (prompt, r1) = (map SearchRequest ?kwq, Inr (q2, r2))"
    by (metis prod.collapse)
  obtain log3 res3 where
    s3: "search_each sv (Suc (length (map SearchRequest ?kwq))) DEFAULT_CATEGORIES (q2, r2) = (log3, res3)"
    by (metis prod.collapse)
  note third = music_third_tier [OF r1 s2 n2 s3]
  have q: "queries (fst (searchAndDownloadMusic sv prompt out)) = prompt # ?kwq @ queries log3"
    using third(1) [of out] by (simp add: queries_requests del: map_map)
  from search_each_prefix [of DEFAULT_CATEGORIES sv "Suc (length (map SearchRequest ?kwq))" "(q2, r2)"] s3
  obtain m where m: "m \<le> length DEFAULT_CATEGORIES" "log3 = map SearchRequest (take m DEFAULT_CATEGORIES)"
    by auto
  have a: "\<exists>m\<le>length DEFAULT_CATEGORIES.
           queries (fst (searchAndDownloadMusic sv prompt out))
             = prompt # ?kwq @ take m DEFAULT_CATEGORIES"
    using q m by (auto simp: queries_requests)
  have b: "queries (fst (searchAndDownloadMusic sv prompt out)) = prompt # ?kwq @ DEFAULT_CATEGORIES
            \<and> snd (searchAndDownloadMusic sv prompt out)
                = Inl ''No matching sounds found after all attempts''"
    if t3: "tier_empty sv (Suc (length (extractKeywords prompt))) DEFAULT_CATEGORIES"
  proof -
    have ne: "DEFAULT_CATEGORIES \<noteq> []" by (simp add: DEFAULT_CATEGORIES_def)
    from t3 have "tier_empty sv (Suc (length (map SearchRequest ?kwq))) DEFAULT_CATEGORIES" by simp
    from search_each_empty [OF this, of "(q2, r2)"] ne s3 obtain q3 r3 where
      k: "log3 = map SearchRequest DEFAULT_CATEGORIES" "res3 = Inr (q3, r3)" "no_results r3"
      by auto
    from third(2) [OF k(2,3)] q k(1) show ?thesis by (simp add: queries_requests)
  qed
  from a b show ?thesis by blast
qed

lemma audio_after_empty_keywords:
  assumes t1: "tier_empty sv 0 (map keywordQuery (audioKeywords prompt))"
  shows "(\<exists>m\<le>length DEFAULT_CATEGORIES.
           queries (fst (getAudioFromFreesound sv prompt d))
             = map keywordQuery (audioKeywords prompt) @ take m DEFAULT_CATEGORIES)
       \<and> (tier_empty sv (length (audioKeywords prompt)) DEFAULT_CATEGORIES \<longrightarrow>
            queries (fst (getAudioFromFreesound sv prompt d))
              = map keywordQuery (audioKeywords prompt) @ DEFAULT_CATEGORIES
            \<and> snd (getAudioFromFreesound sv prompt d) = None)"
proof -
  let ?kwq = "map keywordQuery (audioKeywords prompt)"
  note a1 = audio_each_empty [OF t1]
  have q: "queries (fst (getAudioFromFreesound sv prompt d))
             = ?kwq @ queries (fst (audio_each sv (length (audioKeywords prompt)) DEFAULT_CATEGORIES))"
    by (simp add: getAudioFromFreesound_def Let_def a1 case_prod_beta queries_append queries_requests
          split: sum.splits option.splits del: map_map)
  from audio_each_prefix [of DEFAULT_CATEGORIES sv "length (audioKeywords prompt)"]
  obtain m where m: "m \<le> length DEFAULT_CATEGORIES"
    "queries (fst (audio_each sv (length (audioKeywords prompt)) DEFAULT_CATEGORIES))
       = take m DEFAULT_CATEGORIES" by blast
  have a: "\<exists>m\<le>length DEFAULT_CATEGORIES.
           queries (fst (getAudioFromFreesound sv prompt d)) = ?kwq @ take m DEFAULT_CATEGORIES"
    using q m by auto
  have b: "queries (fst (getAudioFromFreesound sv prompt d)) = ?kwq @ DEFAULT_CATEGORIES
            \<and> snd (getAudioFromFreesound sv prompt d) = None"
    if t2: "tier_empty sv (length (audioKeywords prompt)) DEFAULT_CATEGORIES"
  proof -
    note a2 = audio_each_empty [OF t2]
    show ?thesis
      by (simp add: getAudioFromFreesound_def Let_def a1 a2 queries_append queries_requests
            del: map_map)
  qed
  from a b show ?thesis by blast
qed

lemma pipeline_index_no_audio:
  assumes "snd (getAudioFromFreesound sv prompt d) = None"
  shows "(\<exists>msg. snd (pipeline_index sv prompt d) = Inl msg)
         \<and> encoder_runs (fst (pipeline_index sv prompt d)) = []
         \<and> saved_records (fst (pipeline_index sv prompt d)) = []"
  using assms
  by (simp add: pipeline_index_def Let_def case_prod_beta quiet_logs truthy_def split: sum.splits)

lemma pipeline_index_no_audio_message:
  assumes "snd (getAudioFromFreesound sv prompt d) = None"
    and "snd (generateVideoFrames_index sv prompt (Math_ceil (d / 2))) = Inr frames"
  shows "snd (pipeline_index sv prompt d) = Inl ''Failed to get audio''"
proof -
  have "case snd (generateVideoFrames_index sv prompt (Math_ceil (d / 2))) of
          Inr fs \<Rightarrow> fs \<noteq> [] | Inl msg \<Rightarrow> True"
    using generateVideoFrames_index_cases [where sv = sv and prompt = prompt and n = "Math_ceil (d / 2)"]
    by (cases "snd (generateVideoFrames_index sv prompt (Math_ceil (d / 2)))") simp_all
  with assms(2) have "frames \<noteq> []" by simp
  with assms show ?thesis
    by (simp add: pipeline_index_def Let_def case_prod_beta truthy_def)
qed

lemma snd_route_index:
  "trim prompt \<noteq> [] \<Longrightarrow>
   snd (route_index sv (Str prompt) (Fin d)) =
     (case snd (pipeline_index sv prompt d) of
        Inl msg \<Rightarrow> Response 500 (ErrorBody (if msg = [] then ''Video generation failed'' else msg))
      | Inr v \<Rightarrow> Response 200 (VideoBody v (''http://localhost:5000'' @ video_url v)))"
  by (simp add: route_index_def case_prod_beta split: sum.splits)

lemma pipeline_index_encoder:
  "encoder_runs (fst (pipeline_index sv prompt d)) = []
   \<or> (\<exists>frames a. snd (generateVideoFrames_index sv prompt (Math_ceil (d / 2))) = Inr frames
         \<and> snd (getAudioFromFreesound sv prompt d) = Some a \<and> a \<noteq> []
         \<and> encoder_runs (fst (pipeline_index sv prompt d))
             = [EncoderRun_index (videoCommand_index sv frames (Some a) d)])"
  by (auto simp add: pipeline_index_def Let_def case_prod_beta quiet_logs truthy_def
        split: sum.splits stat_response.splits option.splits)

lemma pipeline_part000_encoder:
  "encoder_runs (fst (pipeline_part000 sv prompt d)) = []
   \<or> (\<exists>frames a. snd (generateVideoFrames_part000 sv prompt (Math_ceil (d / 2))) = Inr frames
         \<and> snd (generateMusicFromPrompt sv prompt d) = Inr a
         \<and> encoder_runs (fst (pipeline_part000 sv prompt d))
             = [EncoderRun_part000 (videoCommand_part000 sv frames a)])"
  by (auto simp add: pipeline_part000_def Let_def case_prod_beta quiet_logs
        split: sum.splits option.splits)

lemma pipeline_part000_frames_failed:
  assumes "snd (generateVideoFrames_part000 sv prompt (Math_ceil (d / 2))) = Inl msg"
  shows "snd (pipeline_part000 sv prompt d) = Inl msg
         \<and> encoder_runs (fst (pipeline_part000 sv prompt d)) = []
         \<and> saved_records (fst (pipeline_part000 sv prompt d)) = []"
  using assms
  by (simp add: pipeline_part000_def Let_def case_prod_beta quiet_logs)

lemma pipeline_index_frames_failed:
  assumes "snd (generateVideoFrames_index sv prompt (Math_ceil (d / 2))) = Inl msg"
  shows "snd (pipeline_index sv prompt d) = Inl msg
         \<and> encoder_runs (fst (pipeline_index sv prompt d)) = []
         \<and> saved_records (fst (pipeline_index sv prompt d)) = []"
  using assms
  by (simp add: pipeline_index_def Let_def case_prod_beta quiet_logs)

lemma route_part000_of_pipeline:
  assumes "trim prompt \<noteq> []"
  shows "encoder_runs (fst (route_part000 sv (Str prompt) (Fin d)))
           = encoder_runs (fst (pipeline_part000 sv prompt d))"
    and "saved_records (fst (route_part000 sv (Str prompt) (Fin d)))
           = saved_records (fst (pipeline_part000 sv prompt d))"
    and "snd (route_part000 sv (Str prompt) (Fin d)) =
           (case snd (pipeline_part000 sv prompt d) of
              Inl msg \<Rightarrow> Response 500 (ErrorBody msg)
            | Inr url \<Rightarrow> Response 200 (UrlBody url))"
  using assms
  by (simp_all add: route_part000_def try_part000_def case_prod_beta encoder_runs_append
        saved_records_append split: sum.splits)

lemma route_index_of_pipeline:
  assumes "trim prompt \<noteq> []"
  shows "encoder_runs (fst (route_index sv (Str prompt) (Fin d)))
           = encoder_runs (fst (pipeline_index sv prompt d))"
    and "saved_records (fst (route_index sv (Str prompt) (Fin d)))
           = saved_records (fst (pipeline_index sv prompt d))"
  using fst_route_index [OF assms] by simp_all

text \<open>
  C6. When every tier comes back empty, \<^verbatim>\<open>searchAndDownloadMusic\<close> throws and
  \<^verbatim>\<open>getAudioFromFreesound\<close> returns \<^verbatim>\<open>null\<close>; whenever the latter returns
  \<^verbatim>\<open>null\<close> the route answers 500 (with "Failed to get audio" when the frames were
  generated), runs no encoder and saves no record. An encoder run of the route always has
  an audio path that \<^verbatim>\<open>getAudioFromFreesound\<close> returned among its inputs.
\<close>

theorem C6_no_audio_aborts:
  "(tier_empty sv 0 [prompt] \<and> tier_empty sv 1 (map keywordQuery (extractKeywords prompt))
      \<and> tier_empty sv (Suc (length (extractKeywords prompt))) DEFAULT_CATEGORIES \<longrightarrow>
        snd (searchAndDownloadMusic sv prompt out) = Inl ''No matching sounds found after all attempts'')
   \<and> (tier_empty sv 0 (map keywordQuery (audioKeywords prompt))
      \<and> tier_empty sv (length (audioKeywords prompt)) DEFAULT_CATEGORIES \<longrightarrow>
        snd (getAudioFromFreesound sv prompt d) = None)
   \<and> (trim prompt \<noteq> [] \<and> snd (getAudioFromFreesound sv prompt d) = None \<longrightarrow>
        (\<exists>msg. snd (route_index sv (Str prompt) (Fin d)) = Response 500 (ErrorBody msg))
        \<and> encoder_runs (fst (route_index sv (Str prompt) (Fin d))) = []
        \<and> saved_records (fst (route_index sv (Str prompt) (Fin d))) = []
        \<and> ((\<exists>frames. snd (generateVideoFrames_index sv prompt (Math_ceil (d / 2))) = Inr frames) \<longrightarrow>
             snd (route_index sv (Str prompt) (Fin d)) = Response 500 (ErrorBody ''Failed to get audio'')))
   \<and> (trim prompt \<noteq> [] \<and> encoder_runs (fst (route_index sv (Str prompt) (Fin d))) \<noteq> [] \<longrightarrow>
        (\<exists>frames a. a \<noteq> [] \<and> snd (getAudioFromFreesound sv prompt d) = Some a
           \<and> encoder_runs (fst (route_index sv (Str prompt) (Fin d)))
               = [EncoderRun_index (videoCommand_index sv frames (Some a) d)]))"
proof -
  have a: "snd (searchAndDownloadMusic sv prompt out) = Inl ''No matching sounds found after all attempts''"
    if "tier_empty sv 0 [prompt]" "tier_empty sv 1 (map keywordQuery (extractKeywords prompt))"
       "tier_empty sv (Suc (length (extractKeywords prompt))) DEFAULT_CATEGORIES"
    using music_after_empty_tiers [OF that(1,2), of out] that(3) by blast
  have b: "snd (getAudioFromFreesound sv prompt d) = None"
    if "tier_empty sv 0 (map keywordQuery (audioKeywords prompt))"
       "tier_empty sv (length (audioKeywords prompt)) DEFAULT_CATEGORIES"
    using audio_after_empty_keywords [OF that(1), of d] that(2) by blast
  have c: "(\<exists>msg. snd (route_index sv (Str prompt) (Fin d)) = Response 500 (ErrorBody msg))
        \<and> encoder_runs (fst (route_index sv (Str prompt) (Fin d))) = []
        \<and> saved_records (fst (route_index sv (Str prompt) (Fin d))) = []
        \<and> ((\<exists>frames. snd (generateVideoFrames_index sv prompt (Math_ceil (d / 2))) = Inr frames) \<longrightarrow>
             snd (route_index sv (Str prompt) (Fin d)) = Response 500 (ErrorBody ''Failed to get audio''))"
    if t: "trim prompt \<noteq> []" and n: "snd (getAudioFromFreesound sv prompt d) = None"
  proof -
    from pipeline_index_no_audio [OF n] obtain msg where
      m: "snd (pipeline_index sv prompt d) = Inl msg"
         "encoder_runs (fst (pipeline_index sv prompt d)) = []"
         "saved_records (fst (pipeline_index sv prompt d)) = []" by blast
    have "snd (route_index sv (Str prompt) (Fin d))
            = Response 500 (ErrorBody (if msg = [] then ''Video generation failed'' else msg))"
      by (simp add: snd_route_index [OF t] m(1))
    moreover have "snd (route_index sv (Str prompt) (Fin d)) = Response 500 (ErrorBody ''Failed to get audio'')"
      if "\<exists>frames. snd (generateVideoFrames_index sv prompt (Math_ceil (d / 2))) = Inr frames"
    proof -
      from that obtain frames where
        "snd (generateVideoFrames_index sv prompt (Math_ceil (d / 2))) = Inr frames" ..
      from pipeline_index_no_audio_message [OF n this] show ?thesis
        by (simp add: snd_route_index [OF t])
    qed
    ultimately show ?thesis using m(2,3) route_index_of_pipeline [OF t, of sv d] by auto
  qed
  have e: "\<exists>frames a. a \<noteq> [] \<and> snd (getAudioFromFreesound sv prompt d) = Some a
           \<and> encoder_runs (fst (route_index sv (Str prompt) (Fin d)))
               = [EncoderRun_index (videoCommand_index sv frames (Some a) d)]"
    if t: "trim prompt \<noteq> []" and n: "encoder_runs (fst (route_index sv (Str prompt) (Fin d))) \<noteq> []"
    using pipeline_index_encoder [of sv prompt d] n route_index_of_pipeline(1) [OF t, of sv d]
    by auto
  from a b c e show ?thesis by blast
qed

text \<open>
  The route at a sound library without any result.
\<close>

theorem C6_no_audio_aborts_witness:
  "snd (route_index sv_silent (Str ''a calm lake at sunrise'') (Fin 10))
     = Response 500 (ErrorBody ''Failed to get audio'')
   \<and> encoder_runs (fst (route_index sv_silent (Str ''a calm lake at sunrise'') (Fin 10))) = []
   \<and> saved_records (fst (route_index sv_silent (Str ''a calm lake at sunrise'') (Fin 10))) = []
   \<and> snd (searchAndDownloadMusic sv_silent ''a calm lake at sunrise'' ''temp/music.mp3'')
     = Inl ''No matching sounds found after all attempts''"
proof -
  have t1: "tier_empty sv_silent 0 [''a calm lake at sunrise'']"
    by code_simp
  have t2: "tier_empty sv_silent 1 (map keywordQuery (extractKeywords ''a calm lake at sunrise''))"
    by code_simp
  have t3: "tier_empty sv_silent (Suc (length (extractKeywords ''a calm lake at sunrise'')))
              DEFAULT_CATEGORIES"
    by code_simp
  have t4: "tier_empty sv_silent 0 (map keywordQuery (audioKeywords ''a calm lake at sunrise''))"
    by code_simp
  have t5: "tier_empty sv_silent (length (audioKeywords ''a calm lake at sunrise'')) DEFAULT_CATEGORIES"
    by code_simp
  have tr: "trim ''a calm lake at sunrise'' \<noteq> []"
    by code_simp
  have fr: "\<exists>frames. snd (generateVideoFrames_index sv_silent ''a calm lake at sunrise'' (Math_ceil (10 / 2)))
              = Inr frames"
  proof -
    have "snd (generateVideoFrames_index sv_silent ''a calm lake at sunrise'' (Math_ceil (10 / 2)))
            = Inr [''temp/frame_0.png'', ''temp/frame_1.png'', ''temp/frame_2.png'',
                   ''temp/frame_3.png'', ''temp/frame_4.png'']"
      by code_simp
    then show ?thesis ..
  qed
  note inst = C6_no_audio_aborts [where sv = sv_silent and prompt = "''a calm lake at sunrise''"
                                   and out = "''temp/music.mp3''" and d = 10]
  from inst t4 t5 have n: "snd (getAudioFromFreesound sv_silent ''a calm lake at sunrise'' 10) = None"
    by blast
  from inst t1 t2 t3 tr n fr show ?thesis by blast
qed

section \<open>The first event of a run, and the frame stage as a whole\<close>

lemma fst_generateVideoFrames_index_first:
  "\<exists>rest. fst (generateVideoFrames_index sv prompt n)
            = ImageRequest 0 (framePrompt_index prompt 0) # rest"
proof -
  have "0 < nat (Math_max 4 n)" by (simp add: Math_max_def)
  then have u: "[0..<nat (Math_max 4 n)] = 0 # [1..<nat (Math_max 4 n)]"
    by (simp add: upt_conv_Cons)
  show ?thesis
    unfolding generateVideoFrames_index_def Let_def u
    by (simp add: Let_def case_prod_beta split: img_response.splits sum.splits)
qed

lemma fst_route_index_first:
  assumes "trim prompt \<noteq> []"
  shows "\<exists>rest. fst (route_index sv (Str prompt) (Fin x))
                 = ImageRequest 0 (framePrompt_index prompt 0) # rest"
proof -
  from fst_pipeline_index_prefix [of sv prompt x] obtain r1 where
    "fst (pipeline_index sv prompt x) = fst (generateVideoFrames_index sv prompt (Math_ceil (x / 2))) @ r1"
    by blast
  moreover from fst_generateVideoFrames_index_first [of sv prompt "Math_ceil (x / 2)"] obtain r2 where
    "fst (generateVideoFrames_index sv prompt (Math_ceil (x / 2)))
       = ImageRequest 0 (framePrompt_index prompt 0) # r2" by blast
  ultimately show ?thesis using fst_route_index [OF assms, of sv x] by simp
qed

lemma fst_route_part000_first:
  assumes "trim prompt \<noteq> []"
  shows "\<exists>rest. fst (route_part000 sv (Str prompt) (Fin x))
                 = ProgressAssign \<lparr>progress = 0, status = ''Starting generation...'',
                                    videoUrl = None, error = None\<rparr> # rest"
    and "\<exists>rest. fst (try_part000 sv (Str prompt) (Fin x))
                 = ProgressAssign \<lparr>progress = 0, status = ''Starting generation...'',
                                    videoUrl = None, error = None\<rparr> # rest"
proof -
  from fst_pipeline_part000_prefix [of sv prompt x] obtain r1 where
    r1: "fst (pipeline_part000 sv prompt x)
       = [ProgressAssign \<lparr>progress = 0, status = ''Starting generation...'',
                           videoUrl = None, error = None\<rparr>,
          SetStatus ''Generating frames...'']
         @ fst (generateVideoFrames_part000 sv prompt (Math_ceil (x / 2))) @ r1"
    by blast
  from fst_route_part000 [OF assms, of sv x] obtain tail where
    "fst (route_part000 sv (Str prompt) (Fin x)) = fst (pipeline_part000 sv prompt x) @ tail"
    by blast
  with r1 show "\<exists>rest. fst (route_part000 sv (Str prompt) (Fin x))
                 = ProgressAssign \<lparr>progress = 0, status = ''Starting generation...'',
                                    videoUrl = None, error = None\<rparr> # rest" by simp
  from r1 assms show "\<exists>rest. fst (try_part000 sv (Str prompt) (Fin x))
                 = ProgressAssign \<lparr>progress = 0, status = ''Starting generation...'',
                                    videoUrl = None, error = None\<rparr> # rest"
    by (simp add: try_part000_def)
qed

lemma generateVideoFrames_index_Inr:
  assumes "snd (generateVideoFrames_index sv prompt n) = Inr frames"
  shows "frames \<noteq> []"
    and "frames = map framePath_index
                   (filter (\<lambda>i. well_formed (reply_index sv prompt i)) [0..<nat (Math_max 4 n)])"
  using generateVideoFrames_index_cases [where sv = sv and prompt = prompt and n = n]
  unfolding assms sum.case by blast+

lemma generateVideoFrames_part000_Inr:
  assumes "snd (generateVideoFrames_part000 sv prompt n) = Inr frames"
  shows "length frames = nat n"
  using generateVideoFrames_part000_cases [where sv = sv and prompt = prompt and n = n]
  unfolding assms sum.case by blast

text \<open>
  C1, as the specification states it, fails for \<^verbatim>\<open>generateVideoFrames\<close> of index.js:
  asked for 2 frames with every response well-formed, it returns 4 frames; asked for 5
  frames when the response for index 2 has no image data, it returns the other 4 frames
  and no error.
\<close>

theorem C1_counterexample:
  "snd (generateVideoFrames_index sv_ok ''cat'' 2)
     = Inr [''temp/frame_0.png'', ''temp/frame_1.png'', ''temp/frame_2.png'', ''temp/frame_3.png'']
   \<and> snd (generateVideoFrames_index sv_gap ''cat'' 5)
     = Inr [''temp/frame_0.png'', ''temp/frame_1.png'', ''temp/frame_3.png'', ''temp/frame_4.png'']"
  by code_simp

text \<open>
  C1, amended. In part_000 frame generation is all-or-nothing: for every prompt and
  requested count \<open>n\<close> the stage returns exactly \<open>n\<close> frames (none when \<open>n \<le> 0\<close>), or it
  fails at the first index whose request fails or whose response has no image data, with
  an error whose message names that index; the route then answers 500 with that message,
  runs no encoder and saves no record, and an encoder run of the route always has exactly
  the requested number of frames. In index.js the stage asks for \<open>max 4 n\<close> frames; a
  failed request aborts the stage with the error of the request, a response without
  image data is passed over, and the stage fails with "Failed to generate any frames"
  only when no response had image data; it returns the frames of the well-formed
  responses, exactly \<open>max 4 n\<close> of them when all are well-formed. A failed stage ends the
  route with 500, without encoder run or saved record.
\<close>

theorem C1_frame_generation:
  "(case snd (generateVideoFrames_part000 sv prompt n) of
      Inr frames \<Rightarrow> length frames = nat n
                    \<and> (\<forall>i\<in>{1..nat n}. well_formed (reply_part000 sv prompt n i))
    | Inl msg \<Rightarrow> (\<exists>i\<in>{1..nat n}. \<not> well_formed (reply_part000 sv prompt n i)
                    \<and> (\<forall>j\<in>{1..<i}. well_formed (reply_part000 sv prompt n j))
                    \<and> (\<exists>m. msg = frameError i m)))
   \<and> (case snd (generateVideoFrames_index sv prompt n) of
      Inr frames \<Rightarrow>
        frames \<noteq> []
        \<and> frames = map framePath_index
                     (filter (\<lambda>i. well_formed (reply_index sv prompt i)) [0..<nat (Math_max 4 n)])
        \<and> (\<forall>i\<in>{0..<nat (Math_max 4 n)}. \<not> request_failed (reply_index sv prompt i))
    | Inl msg \<Rightarrow>
        (\<exists>i\<in>{0..<nat (Math_max 4 n)}. reply_index sv prompt i = ImgFailed msg)
        \<or> (msg = ''Failed to generate any frames''
            \<and> (\<forall>i\<in>{0..<nat (Math_max 4 n)}. \<not> well_formed (reply_index sv prompt i))))
   \<and> ((\<forall>i\<in>{0..<nat (Math_max 4 n)}. well_formed (reply_index sv prompt i)) \<longrightarrow>
        (\<exists>frames. snd (generateVideoFrames_index sv prompt n) = Inr frames
           \<and> length frames = nat (Math_max 4 n)))
   \<and> (trim prompt \<noteq> [] \<longrightarrow>
        (\<forall>msg. snd (generateVideoFrames_part000 sv prompt (Math_ceil (d / 2))) = Inl msg \<longrightarrow>
           snd (route_part000 sv (Str prompt) (Fin d)) = Response 500 (ErrorBody msg)
           \<and> encoder_runs (fst (route_part000 sv (Str prompt) (Fin d))) = []
           \<and> saved_records (fst (route_part000 sv (Str prompt) (Fin d))) = [])
        \<and> (encoder_runs (fst (route_part000 sv (Str prompt) (Fin d))) = []
            \<or> (\<exists>frames a. length frames = nat (Math_ceil (d / 2))
                  \<and> encoder_runs (fst (route_part000 sv (Str prompt) (Fin d)))
                      = [EncoderRun_part000 (videoCommand_part000 sv frames a)]))
        \<and> (\<forall>msg. snd (generateVideoFrames_index sv prompt (Math_ceil (d / 2))) = Inl msg \<longrightarrow>
           (\<exists>m. snd (route_index sv (Str prompt) (Fin d)) = Response 500 (ErrorBody m))
           \<and> encoder_runs (fst (route_index sv (Str prompt) (Fin d))) = []
           \<and> saved_records (fst (route_index sv (Str prompt) (Fin d))) = []))"
proof -
  have r: "(\<forall>msg. snd (generateVideoFrames_part000 sv prompt (Math_ceil (d / 2))) = Inl msg \<longrightarrow>
           snd (route_part000 sv (Str prompt) (Fin d)) = Response 500 (ErrorBody msg)
           \<and> encoder_runs (fst (route_part000 sv (Str prompt) (Fin d))) = []
           \<and> saved_records (fst (route_part000 sv (Str prompt) (Fin d))) = [])
        \<and> (encoder_runs (fst (route_part000 sv (Str prompt) (Fin d))) = []
            \<or> (\<exists>frames a. length frames = nat (Math_ceil (d / 2))
                  \<and> encoder_runs (fst (route_part000 sv (Str prompt) (Fin d)))
                      = [EncoderRun_part000 (videoCommand_part000 sv frames a)]))
        \<and> (\<forall>msg. snd (generateVideoFrames_index sv prompt (Math_ceil (d / 2))) = Inl msg \<longrightarrow>
           (\<exists>m. snd (route_index sv (Str prompt) (Fin d)) = Response 500 (ErrorBody m))
           \<and> encoder_runs (fst (route_index sv (Str prompt) (Fin d))) = []
           \<and> saved_records (fst (route_index sv (Str prompt) (Fin d))) = [])"
    if t: "trim prompt \<noteq> []"
  proof -
    note rp = route_part000_of_pipeline [OF t, of sv d]
    note ri = route_index_of_pipeline [OF t, of sv d]
    have a: "snd (route_part000 sv (Str prompt) (Fin d)) = Response 500 (ErrorBody msg)
           \<and> encoder_runs (fst (route_part000 sv (Str prompt) (Fin d))) = []
           \<and> saved_records (fst (route_part000 sv (Str prompt) (Fin d))) = []"
      if "snd (generateVideoFrames_part000 sv prompt (Math_ceil (d / 2))) = Inl msg" for msg
      using pipeline_part000_frames_failed [OF that] rp by simp
    have b: "encoder_runs (fst (route_part000 sv (Str prompt) (Fin d))) = []
            \<or> (\<exists>frames a. length frames = nat (Math_ceil (d / 2))
                  \<and> encoder_runs (fst (route_part000 sv (Str prompt) (Fin d)))
                      = [EncoderRun_part000 (videoCommand_part000 sv frames a)])"
    proof (cases "encoder_runs (fst (pipeline_part000 sv prompt d)) = []")
      case True
      then show ?thesis using rp(1) by simp
    next
      case False
      with pipeline_part000_encoder [of sv prompt d] obtain frames a where
        f: "snd (generateVideoFrames_part000 sv prompt (Math_ceil (d / 2))) = Inr frames"
           "encoder_runs (fst (pipeline_part000 sv prompt d))
              = [EncoderRun_part000 (videoCommand_part000 sv frames a)]" by blast
      from generateVideoFrames_part000_Inr [OF f(1)] f(2) rp(1) show ?thesis by auto
    qed
    have c: "(\<exists>m. snd (route_index sv (Str prompt) (Fin d)) = Response 500 (ErrorBody m))
           \<and> encoder_runs (fst (route_index sv (Str prompt) (Fin d))) = []
           \<and> saved_records (fst (route_index sv (Str prompt) (Fin d))) = []"
      if "snd (generateVideoFrames_index sv prompt (Math_ceil (d / 2))) = Inl msg" for msg
      using pipeline_index_frames_failed [OF that] ri snd_route_index [OF t, of sv d] by simp
    from a b c show ?thesis by blast
  qed
  from generateVideoFrames_part000_cases [where sv = sv and prompt = prompt and n = n]
       generateVideoFrames_index_cases [where sv = sv and prompt = prompt and n = n]
       generateVideoFrames_index_all_good [where sv = sv and prompt = prompt and n = n]
       r
  show ?thesis by blast
qed

text \<open>
  Both generators at a service whose response for index 2 has no image data: part_000
  fails and names index 2, and its route answers 500; index.js returns the four other
  frames.
\<close>

theorem C1_frame_generation_witness:
  "(\<exists>i\<in>{1..nat 5}. \<not> well_formed (reply_part000 sv_gap ''cat'' 5 i)
        \<and> (\<exists>m. ''Failed to generate frame 2: Invalid response from Stability API'' = frameError i m))
   \<and> length [''temp/frame_0.png'', ''temp/frame_1.png'', ''temp/frame_3.png'', ''temp/frame_4.png'']
       = length (filter (\<lambda>i. well_formed (reply_index sv_gap ''cat'' i)) [0..<nat (Math_max 4 5)])
   \<and> snd (route_part000 sv_gap (Str ''cat'') (Fin 10))
       = Response 500 (ErrorBody ''Failed to generate frame 2: Invalid response from Stability API'')
   \<and> encoder_runs (fst (route_part000 sv_gap (Str ''cat'') (Fin 10))) = []"
proof -
  have a: "snd (generateVideoFrames_part000 sv_gap ''cat'' 5)
             = Inl ''Failed to generate frame 2: Invalid response from Stability API''"
    by code_simp
  have b: "snd (generateVideoFrames_index sv_gap ''cat'' 5)
     = Inr [''temp/frame_0.png'', ''temp/frame_1.png'', ''temp/frame_3.png'', ''temp/frame_4.png'']"
    by code_simp
  have c: "Math_ceil (10 / 2) = 5" by code_simp
  have t: "trim ''cat'' \<noteq> []" by code_simp
  note inst = C1_frame_generation [where sv = sv_gap and prompt = "''cat''" and n = 5 and d = 10]
  from inst
  have "(\<exists>i\<in>{1..nat 5}. \<not> well_formed (reply_part000 sv_gap ''cat'' 5 i)
                    \<and> (\<forall>j\<in>{1..<i}. well_formed (reply_part000 sv_gap ''cat'' 5 j))
                    \<and> (\<exists>m. ''Failed to generate frame 2: Invalid response from Stability API'' = frameError i m))"
    and "[''temp/frame_0.png'', ''temp/frame_1.png'', ''temp/frame_3.png'', ''temp/frame_4.png'']
          = map framePath_index
                     (filter (\<lambda>i. well_formed (reply_index sv_gap ''cat'' i)) [0..<nat (Math_max 4 5)])"
    unfolding a b by simp_all
  then have p1: "(\<exists>i\<in>{1..nat 5}. \<not> well_formed (reply_part000 sv_gap ''cat'' 5 i)
        \<and> (\<exists>m. ''Failed to generate frame 2: Invalid response from Stability API'' = frameError i m))
   \<and> length [''temp/frame_0.png'', ''temp/frame_1.png'', ''temp/frame_3.png'', ''temp/frame_4.png'']
       = length (filter (\<lambda>i. well_formed (reply_index sv_gap ''cat'' i)) [0..<nat (Math_max 4 5)])"
    by (metis length_map)
  from inst t a have p2: "snd (route_part000 sv_gap (Str ''cat'') (Fin 10))
       = Response 500 (ErrorBody ''Failed to generate frame 2: Invalid response from Stability API'')
   \<and> encoder_runs (fst (route_part000 sv_gap (Str ''cat'') (Fin 10))) = []"
    unfolding c by blast
  from p1 p2 show ?thesis by blast
qed

section \<open>Rounding to doubles\<close>

lemma floor_log2_bounds:
  "1 \<le> x \<Longrightarrow> 2 ^ floor_log2 x \<le> x \<and> x < 2 ^ Suc (floor_log2 x)"
proof (induction x rule: floor_log2.induct)
  case (1 x)
  show ?case
  proof (cases "2 \<le> x")
    case True
    then have "1 \<le> x / 2" by simp
    from 1(1) [OF True this] have "2 ^ floor_log2 (x / 2) \<le> x / 2" "x / 2 < 2 ^ Suc (floor_log2 (x / 2))"
      by simp_all
    moreover have "floor_log2 x = Suc (floor_log2 (x / 2))" using True by (subst floor_log2.simps) simp
    ultimately show ?thesis by simp
  next
    case False
    then have "floor_log2 x = 0" by (subst floor_log2.simps) simp
    with False 1(2) show ?thesis by simp
  qed
qed

lemma neg_log2_bounds:
  "0 < x \<Longrightarrow> x < 1 \<Longrightarrow> 1 \<le> x * 2 ^ neg_log2 x \<and> x * 2 ^ neg_log2 x < 2"
proof (induction x rule: neg_log2.induct)
  case (1 x)
  have s: "neg_log2 x = Suc (neg_log2 (2 * x))" using 1(2,3) by (subst neg_log2.simps) simp
  show ?case
  proof (cases "2 * x < 1")
    case True
    from 1(1) [OF _ _ True] 1(2,3)
    have "1 \<le> 2 * x * 2 ^ neg_log2 (2 * x) \<and> 2 * x * 2 ^ neg_log2 (2 * x) < 2" by simp
    then show ?thesis unfolding s by (simp add: mult.assoc mult.left_commute)
  next
    case False
    then have "neg_log2 (2 * x) = 0" by (subst neg_log2.simps) simp
    with False 1(3) show ?thesis unfolding s by simp
  qed
qed

lemma binade_bounds:
  assumes "0 < x"
  shows "2 powi binade x \<le> x" and "x < 2 powi (binade x + 1)"
proof -
  show "2 powi binade x \<le> x"
  proof (cases "1 \<le> x")
    case True
    with floor_log2_bounds [OF True] show ?thesis by (simp add: binade_def)
  next
    case False
    then have x1: "x < 1" by simp
    from neg_log2_bounds [OF assms x1] have "1 \<le> x * 2 ^ neg_log2 x" by simp
    then have "1 / 2 ^ neg_log2 x \<le> x" by (simp add: divide_le_eq)
    moreover have "(2 :: rat) powi (- int (neg_log2 x)) = 1 / 2 ^ neg_log2 x"
      by (simp add: power_int_minus inverse_eq_divide)
    ultimately show ?thesis using False by (simp only: binade_def if_False)
  qed
  show "x < 2 powi (binade x + 1)"
  proof (cases "1 \<le> x")
    case True
    from floor_log2_bounds [OF True] have "x < 2 ^ Suc (floor_log2 x)" by simp
    moreover have "(2 :: rat) powi (int (floor_log2 x) + 1) = 2 ^ Suc (floor_log2 x)"
      by (simp add: power_int_add)
    ultimately show ?thesis using True by (simp add: binade_def)
  next
    case False
    then have x1: "x < 1" by simp
    from neg_log2_bounds [OF assms x1] have "x * 2 ^ neg_log2 x < 2" by simp
    then have "x < 2 / 2 ^ neg_log2 x" by (simp add: less_divide_eq)
    moreover have "(2 :: rat) powi (- int (neg_log2 x) + 1) = 2 / 2 ^ neg_log2 x"
    proof -
      have "(2 :: rat) powi (- int (neg_log2 x) + 1) = 2 powi (- int (neg_log2 x)) * 2 powi 1"
        by (rule power_int_add) simp
      then show ?thesis by (simp add: power_int_minus inverse_eq_divide)
    qed
    ultimately show ?thesis using False by (simp add: binade_def)
  qed
qed

lemma pow2_less_exp:
  assumes "(2 :: rat) powi a < 2 powi b"
  shows "a < b"
proof (rule ccontr)
  assume "\<not> a < b"
  then have "b \<le> a" by simp
  then have "(2 :: rat) powi b \<le> 2 powi a" by (rule power_int_increasing) simp
  with assms show False by simp
qed

lemma round_half_even_error: "\<bar>of_int (round_half_even x) - x\<bar> \<le> 1 / 2"
proof -
  have "of_int \<lfloor>x\<rfloor> \<le> x" "x < of_int \<lfloor>x\<rfloor> + 1" by linarith+
  then show ?thesis by (auto simp add: round_half_even_def Let_def)
qed

lemma round_half_even_of_int [simp]: "round_half_even (of_int z) = z"
  by (simp add: round_half_even_def)


lemma double_pos_error:
  assumes "0 < x"
  shows "\<bar>double_pos x - x\<bar> \<le> x / 2 ^ 53"
proof -
  define e where "e = binade x - 52"
  define p where "p = (2 :: rat) powi e"
  have ppos: "0 < p" by (simp add: p_def)
  have "p * 2 ^ 52 = 2 powi (e + 52)" by (simp add: p_def power_int_add)
  also have "\<dots> = 2 powi binade x" by (simp add: e_def)
  also have "\<dots> \<le> x" by (rule binade_bounds [OF assms])
  finally have px: "p * 2 ^ 52 \<le> x" .
  have "\<bar>of_int (round_half_even (x / p)) - x / p\<bar> \<le> 1 / 2" by (rule round_half_even_error)
  then have "\<bar>of_int (round_half_even (x / p)) - x / p\<bar> * p \<le> 1 / 2 * p"
    using ppos by (intro mult_right_mono) simp_all
  moreover have "\<bar>of_int (round_half_even (x / p)) - x / p\<bar> * p
                  = \<bar>of_int (round_half_even (x / p)) * p - x\<bar>"
  proof -
    have "(of_int (round_half_even (x / p)) - x / p) * p = of_int (round_half_even (x / p)) * p - x"
      using ppos by (simp add: left_diff_distrib)
    moreover have "\<bar>of_int (round_half_even (x / p)) - x / p\<bar> * p
                     = \<bar>(of_int (round_half_even (x / p)) - x / p) * p\<bar>"
      using ppos by (intro abs_mult_pos) simp
    ultimately show ?thesis by simp
  qed
  ultimately have "\<bar>of_int (round_half_even (x / p)) * p - x\<bar> \<le> p / 2" by simp
  also have "p / 2 \<le> x / 2 ^ 53" using px by (simp add: field_simps)
  finally show ?thesis by (simp add: double_pos_def Let_def e_def p_def)
qed

lemma double_pos_of_int:
  assumes "0 < z" "z < 2 ^ 53"
  shows "double_pos (of_int z) = of_int z"
proof -
  define x where "x = (of_int z :: rat)"
  have xpos: "0 < x" using assms by (simp add: x_def)
  define e where "e = binade x - 52"
  have "2 powi binade x \<le> x" by (rule binade_bounds [OF xpos])
  also have "x < 2 ^ 53" using assms(2) unfolding x_def
    by (metis of_int_less_iff of_int_numeral of_int_power)
  finally have "(2 :: rat) powi binade x < 2 powi 53" by simp
  then have "binade x < 53" by (rule pow2_less_exp)
  then have e0: "e \<le> 0" by (simp add: e_def)
  then have "(2 :: rat) powi e = 1 / 2 ^ nat (- e)"
    by (simp add: power_int_def inverse_eq_divide power_one_over [symmetric] del: power_one_over)
  then have q: "x / 2 powi e = of_int (z * 2 ^ nat (- e))" "of_int (z * 2 ^ nat (- e)) * (2 :: rat) powi e = x"
    by (simp_all add: x_def)
  show ?thesis
    unfolding double_pos_def Let_def x_def [symmetric] e_def [symmetric] q(1) round_half_even_of_int
    by (rule q(2))
qed



lemma ceiling_double_of_quotient:
  fixes d :: int and n :: nat
  assumes "0 < d" "d < 2 ^ 53" "0 < n"
  shows "\<lceil>double_of (of_int d / of_nat n)\<rceil> = \<lceil>(of_int d :: rat) / of_nat n\<rceil>"
proof -
  define x where "x = (of_int d :: rat) / of_nat n"
  define q where "q = d div int n"
  define r where "r = d mod int n"
  have npos: "(0 :: rat) < of_nat n" using assms(3) by simp
  have xpos: "0 < x" using assms(1) npos by (simp add: x_def)
  have dq: "d = q * int n + r" by (simp add: q_def r_def)
  have r0: "0 \<le> r" and rn: "r < int n" using assms(3) by (simp_all add: r_def)
  have xq: "x = of_int q + of_int r / of_nat n"
    using npos by (simp add: x_def dq add_divide_distrib)
  have dbl: "double_of x = double_pos x" using xpos by (simp add: double_of_def)
  show ?thesis
  proof (cases "r = 0")
    case True
    then have xi: "x = of_int q" by (simp add: xq)
    with xpos have qpos: "0 < q" by simp
    have "q \<le> d"
    proof -
      have "q * 1 \<le> q * int n" using qpos assms(3) by (intro mult_left_mono) simp_all
      with dq True show ?thesis by simp
    qed
    with assms(2) have "q < 2 ^ 53" by simp
    from double_pos_of_int [OF qpos this] have "double_pos x = x" unfolding xi .
    then show ?thesis unfolding x_def [symmetric] dbl by simp
  next
    case False
    with r0 have r1: "1 \<le> r" by simp
    have "x / 2 ^ 53 < 1 / of_nat n"
    proof -
      have "(of_int d :: rat) < 2 ^ 53" using assms(2)
        by (metis of_int_less_iff of_int_numeral of_int_power)
      then have "(of_int d :: rat) / 2 ^ 53 < 1" by simp
      then have "(of_int d :: rat) / 2 ^ 53 / of_nat n < 1 / of_nat n"
        using npos by (intro divide_strict_right_mono) simp_all
      then show ?thesis by (simp add: x_def)
    qed
    with double_pos_error [OF xpos] have err: "\<bar>double_pos x - x\<bar> < 1 / of_nat n" by simp
    have lo: "of_int q + 1 / of_nat n \<le> x"
    proof -
      have "(1 :: rat) \<le> of_int r" using r1 by simp
      then have "(1 :: rat) / of_nat n \<le> of_int r / of_nat n"
        using npos by (intro divide_right_mono) simp_all
      then show ?thesis by (simp add: xq)
    qed
    have hi: "x \<le> of_int q + 1 - 1 / of_nat n"
    proof -
      have "r \<le> int n - 1" using rn by simp
      then have "(of_int r :: rat) \<le> of_int (int n - 1)" by (simp only: of_int_le_iff)
      then have "(of_int r :: rat) \<le> of_nat n - 1" by simp
      then have "(of_int r :: rat) / of_nat n \<le> (of_nat n - 1) / of_nat n"
        using npos by (intro divide_right_mono) simp_all
      also have "\<dots> = 1 - 1 / of_nat n" using npos by (simp add: diff_divide_distrib)
      finally show ?thesis by (simp add: xq)
    qed
    from err lo hi have a: "of_int q < double_pos x" "double_pos x < of_int q + 1" by linarith+
    from lo hi npos have b: "of_int q < x" "x < of_int q + 1"
    proof -
      have "(0 :: rat) < 1 / of_nat n" using npos by simp
      with lo hi show "of_int q < x" "x < of_int q + 1" by linarith+
    qed
    have "\<lceil>double_pos x\<rceil> = q + 1" using a by (intro ceiling_unique) simp_all
    moreover have "\<lceil>x\<rceil> = q + 1" using b by (intro ceiling_unique) simp_all
    ultimately show ?thesis unfolding x_def [symmetric] dbl by simp
  qed
qed





section \<open>The display time of a frame\<close>

lemma ceil_div_bounds:
  fixes d :: int and n :: nat
  assumes "0 < n"
  shows "d \<le> int n * \<lceil>(of_int d :: rat) / of_nat n\<rceil>"
    and "int n * \<lceil>(of_int d :: rat) / of_nat n\<rceil> - d \<le> int n - 1"
proof -
  let ?x = "(of_int d :: rat) / of_nat n"
  let ?c = "\<lceil>?x\<rceil>"
  have npos: "(0 :: rat) < of_nat n" using assms by simp
  have up: "?x \<le> of_int ?c" by (rule le_of_int_ceiling)
  have lo: "of_int ?c < ?x + 1" using ceiling_correct [of ?x] by linarith
  have xn: "?x * of_nat n = of_int d" using npos by simp
  from up npos have "?x * of_nat n \<le> of_int ?c * (of_nat n :: rat)"
    by (intro mult_right_mono) simp_all
  with xn have "(of_int d :: rat) \<le> of_int (int n * ?c)" by (simp add: mult.commute)
  then show "d \<le> int n * ?c" by (simp only: of_int_le_iff)
  from lo npos have "of_int ?c * (of_nat n :: rat) < (?x + 1) * of_nat n"
    by (intro mult_strict_right_mono) simp_all
  also have "\<dots> = of_int d + of_nat n" using xn by (simp add: distrib_right)
  finally have "(of_int (int n * ?c) :: rat) < of_int (d + int n)" by (simp add: mult.commute)
  then have "int n * ?c < d + int n" by (simp only: of_int_less_iff)
  then show "int n * ?c - d \<le> int n - 1" by simp
qed

lemma frameSeconds_exact:
  assumes "frames \<noteq> []" "0 < d" "d < 2 ^ 53"
  shows "frameSeconds (of_int d) frames = \<lceil>(of_int d :: rat) / of_nat (length frames)\<rceil>"
proof -
  from assms(1) have n: "0 < length frames" by simp
  from ceiling_double_of_quotient [OF assms(2,3) n] show ?thesis
    by (simp add: frameSeconds_def Math_ceil_def js_div_def)
qed

lemma String_int_decimal: "0 \<le> i \<Longrightarrow> i < 10 ^ 21 \<Longrightarrow> String_int i = decimal i"
  by (simp add: String_int_def Number_toString_def)

text \<open>
  C7, as the specification states it, fails for \<^verbatim>\<open>createVideo\<close> of index.js at a
  duration above \<open>2 ^ 53\<close>, where the quotient \<^verbatim>\<open>duration / frames.length\<close> is rounded
  to a double before \<^verbatim>\<open>Math.ceil\<close> sees it: the duration 13510798882111492 on three
  frames gives each frame 4503599627370497 time units, and three times that is less than
  the duration.
\<close>

theorem C7_counterexample:
  "frameSeconds (of_int 13510798882111492)
     [''temp/frame_0.png'', ''temp/frame_1.png'', ''temp/frame_2.png''] = 4503599627370497
   \<and> int (length [''temp/frame_0.png'', ''temp/frame_1.png'', ''temp/frame_2.png''])
       * frameSeconds (of_int 13510798882111492)
           [''temp/frame_0.png'', ''temp/frame_1.png'', ''temp/frame_2.png'']
     < 13510798882111492
   \<and> \<lceil>(of_int 13510798882111492 :: rat) / 3\<rceil> = 4503599627370498"
  by code_simp

text \<open>
  C7, amended. For a non-empty frame list and a positive integer duration below
  \<open>2 ^ 53\<close>, \<^verbatim>\<open>createVideo\<close> of index.js gives every frame input the option
  \<^verbatim>\<open>-t\<close> with the decimal numeral of \<open>\<lceil>duration / frameCount\<rceil>\<close>; the total
  \<open>frameCount * \<lceil>duration / frameCount\<rceil>\<close> is not less than the duration and exceeds it
  by at most \<open>frameCount - 1\<close>.
\<close>

theorem C7_frame_seconds:
  assumes "frames \<noteq> []" and "0 < d" and "d < 2 ^ 53"
  shows "inputs (videoCommand_index sv frames audioPath (of_int d))
           = map (\<lambda>frame. (frame, [''-loop'', ''1'', ''-t'',
                                       String_int (frameSeconds (of_int d) frames)])) frames
             @ (if truthy audioPath then [(the audioPath, [])] else [])
       \<and> String_int (frameSeconds (of_int d) frames) = decimal (frameSeconds (of_int d) frames)
       \<and> frameSeconds (of_int d) frames = \<lceil>(of_int d :: rat) / of_nat (length frames)\<rceil>
       \<and> d \<le> int (length frames) * frameSeconds (of_int d) frames
       \<and> int (length frames) * frameSeconds (of_int d) frames - d \<le> int (length frames) - 1"
proof -
  from assms(1) have n: "0 < length frames" by simp
  have "map (frameInput (of_int d) frames) frames
          = map (\<lambda>frame. (frame, [''-loop'', ''1'', ''-t'',
                                       String_int (frameSeconds (of_int d) frames)])) frames"
    by (simp add: frameInput_def)
  then have a: "inputs (videoCommand_index sv frames audioPath (of_int d))
           = map (\<lambda>frame. (frame, [''-loop'', ''1'', ''-t'',
                                       String_int (frameSeconds (of_int d) frames)])) frames
             @ (if truthy audioPath then [(the audioPath, [])] else [])"
    by (simp add: videoCommand_index_def)
  note b = frameSeconds_exact [OF assms]
  note c = ceil_div_bounds [OF n, of d]
  have lo: "0 \<le> frameSeconds (of_int d) frames"
  proof -
    have "(0 :: rat) \<le> of_int d / of_nat (length frames)" using assms(2) by simp
    then show ?thesis unfolding b by (simp add: ceiling_le_iff [symmetric] del: ceiling_le_iff)
  qed
  have hi: "frameSeconds (of_int d) frames < 10 ^ 21"
  proof -
    have "(of_int d :: rat) / of_nat (length frames) \<le> of_int d / 1"
      using assms(2) n by (intro divide_left_mono) (simp_all add: Suc_le_eq)
    then have "\<lceil>(of_int d :: rat) / of_nat (length frames)\<rceil> \<le> \<lceil>(of_int d :: rat)\<rceil>"
      by (intro ceiling_mono) simp
    then have "frameSeconds (of_int d) frames \<le> d" unfolding b by simp
    also note assms(3)
    also have "(2 :: int) ^ 53 < 10 ^ 21" by simp
    finally show ?thesis .
  qed
  from String_int_decimal [OF lo hi] a b c show ?thesis by simp
qed

text \<open>
  Four frames for five seconds: two seconds each, eight in total, three more than asked.
\<close>

theorem C7_frame_seconds_witness:
  "inputs (videoCommand_index sv_ok [''temp/frame_0.png'', ''temp/frame_1.png'', ''temp/frame_2.png'',
                                     ''temp/frame_3.png''] (Some ''temp/audio.mp3'') (of_int 5))
     = [(''temp/frame_0.png'', [''-loop'', ''1'', ''-t'', ''2'']),
        (''temp/frame_1.png'', [''-loop'', ''1'', ''-t'', ''2'']),
        (''temp/frame_2.png'', [''-loop'', ''1'', ''-t'', ''2'']),
        (''temp/frame_3.png'', [''-loop'', ''1'', ''-t'', ''2'']),
        (''temp/audio.mp3'', [])]
   \<and> (5 :: int) \<le> 4 * 2 \<and> (4 :: int) * 2 - 5 \<le> 4 - 1"
proof -
  let ?frames = "[''temp/frame_0.png'', ''temp/frame_1.png'', ''temp/frame_2.png'', ''temp/frame_3.png'']"
  have ne: "?frames \<noteq> []" by simp
  have pos: "(0 :: int) < 5" by simp
  have bd: "(5 :: int) < 2 ^ 53" by simp
  have fs: "frameSeconds (of_int 5) ?frames = 2" by code_simp
  have st: "String_int 2 = ''2''" by code_simp
  have tr: "truthy (Some ''temp/audio.mp3'')" by (simp add: truthy_def)
  from C7_frame_seconds [OF ne pos bd, of sv_ok "Some ''temp/audio.mp3''"]
  have "inputs (videoCommand_index sv_ok ?frames (Some ''temp/audio.mp3'') (of_int 5))
           = map (\<lambda>frame. (frame, [''-loop'', ''1'', ''-t'',
                                       String_int (frameSeconds (of_int 5) ?frames)])) ?frames
             @ (if truthy (Some ''temp/audio.mp3'') then [(the (Some ''temp/audio.mp3''), [])] else [])"
    by (rule conjunct1)
  then show ?thesis unfolding fs st using tr by simp
qed

section \<open>Validation of the request\<close>

text \<open>
  C10, as the specification states it, fails for a prompt that is not a string (a number,
  say): \<^verbatim>\<open>prompt?.trim\<close> is then \<^verbatim>\<open>undefined\<close>, the call throws a TypeError before the
  duration is examined, and the \<^verbatim>\<open>catch\<close> answers 500. So a request whose duration is
  \<^verbatim>\<open>NaN\<close> is not rejected as invalid, and a request with a prompt that is not empty and a
  finite duration does not start the pipeline: index.js sends no image request, part_000
  never resets the progress object.
\<close>

theorem C10_counterexample:
  "isNaN NaN
   \<and> route_index sv_ok NonString NaN
       \<noteq> ([], Response 400 (ErrorBody ''Invalid prompt or duration''))
   \<and> try_part000 sv_ok NonString NaN \<noteq> ([], Inl ''Invalid prompt or duration'')
   \<and> \<not> blank NonString \<and> \<not> isNaN (Fin 10)
   \<and> route_index sv_ok NonString (Fin 10)
       = ([], Response 500 (ErrorBody ''prompt?.trim is not a function''))
   \<and> route_part000 sv_ok NonString (Fin 10)
       = ([SetError ''prompt?.trim is not a function'', SetStatus ''Error occurred'',
           SetProgress (- 1)],
          Response 500 (ErrorBody ''prompt?.trim is not a function''))"
  by (simp add: route_index_def try_part000_def route_part000_def)

text \<open>
  C10, amended. For a prompt that is a string or absent, the request is rejected as
  invalid exactly when the prompt is empty after trimming (or absent) or the duration is
  \<^verbatim>\<open>NaN\<close>: index.js answers 400 "Invalid prompt or duration" without any other
  effect, part_000 throws that error before it touches the progress object; every other
  such request, whatever finite number its duration is (zero and negative numbers
  included), starts the pipeline: index.js sends the first image request, part_000
  resets the progress object.
\<close>

theorem C10_validation:
  assumes "p \<noteq> NonString"
  shows "(route_index sv p d = ([], Response 400 (ErrorBody ''Invalid prompt or duration'')))
           = (blank p \<or> isNaN d)
       \<and> (try_part000 sv p d = ([], Inl ''Invalid prompt or duration'')) = (blank p \<or> isNaN d)
       \<and> (\<not> blank p \<longrightarrow>
            (\<forall>x. d = Fin x \<longrightarrow>
               (\<exists>s rest. p = Str s
                   \<and> fst (route_index sv p d) = ImageRequest 0 (framePrompt_index s 0) # rest)
               \<and> (\<exists>rest. fst (route_part000 sv p d)
                     = ProgressAssign \<lparr>progress = 0, status = ''Starting generation...'',
                                        videoUrl = None, error = None\<rparr> # rest)))"
proof (cases "blank p \<or> isNaN d")
  case True
  then have "route_index sv p d = ([], Response 400 (ErrorBody ''Invalid prompt or duration''))"
    using assms by (cases p; cases d) (auto simp: route_index_def)
  moreover from True have "try_part000 sv p d = ([], Inl ''Invalid prompt or duration'')"
    using assms by (cases p; cases d) (auto simp: try_part000_def)
  moreover have "\<not> blank p \<longrightarrow> (\<forall>x. d = Fin x \<longrightarrow> False)" using True by auto
  ultimately show ?thesis using True by auto
next
  case False
  with assms obtain s x where h: "p = Str s" "trim s \<noteq> []" "d = Fin x"
    by (cases p; cases d) auto
  from fst_route_index_first [OF h(2), of sv x] obtain r1 where
    r1: "fst (route_index sv (Str s) (Fin x)) = ImageRequest 0 (framePrompt_index s 0) # r1" by blast
  from fst_route_part000_first [OF h(2), of sv x] obtain r2 r3 where
    r2: "fst (route_part000 sv (Str s) (Fin x))
           = ProgressAssign \<lparr>progress = 0, status = ''Starting generation...'',
                              videoUrl = None, error = None\<rparr> # r2"
    and r3: "fst (try_part000 sv (Str s) (Fin x))
           = ProgressAssign \<lparr>progress = 0, status = ''Starting generation...'',
                              videoUrl = None, error = None\<rparr> # r3" by blast
  from r1 have a: "route_index sv p d \<noteq> ([], Response 400 (ErrorBody ''Invalid prompt or duration''))"
    unfolding h by (metis fst_conv list.distinct(1))
  from r3 have b: "try_part000 sv p d \<noteq> ([], Inl ''Invalid prompt or duration'')"
    unfolding h by (metis fst_conv list.distinct(1))
  from a b False r1 r2 h show ?thesis by auto
qed

text \<open>
  A blank prompt and a \<^verbatim>\<open>NaN\<close> duration are rejected; the durations 0 and -3 pass.
\<close>

theorem C10_validation_witness:
  "route_index sv_ok (Str ''   '') (Fin 10) = ([], Response 400 (ErrorBody ''Invalid prompt or duration''))
   \<and> route_index sv_ok (Str ''cat'') NaN = ([], Response 400 (ErrorBody ''Invalid prompt or duration''))
   \<and> route_index sv_ok (Str ''cat'') (Fin 0) \<noteq> ([], Response 400 (ErrorBody ''Invalid prompt or duration''))
   \<and> (\<exists>rest. fst (route_index sv_ok (Str ''cat'') (Fin (- 3)))
                = ImageRequest 0 (framePrompt_index ''cat'' 0) # rest)
   \<and> (\<exists>rest. fst (route_part000 sv_ok (Str ''cat'') (Fin (- 3)))
                = ProgressAssign \<lparr>progress = 0, status = ''Starting generation...'',
                                   videoUrl = None, error = None\<rparr> # rest)"
proof -
  have b1: "blank (Str ''   '')" by code_simp
  have b2: "\<not> blank (Str ''cat'')" by code_simp
  have ns: "Str ''   '' \<noteq> NonString" "Str ''cat'' \<noteq> NonString" by simp_all
  from C10_validation [OF ns(1), of sv_ok "Fin 10"] b1
  have a: "route_index sv_ok (Str ''   '') (Fin 10) = ([], Response 400 (ErrorBody ''Invalid prompt or duration''))"
    by blast
  from C10_validation [OF ns(2), of sv_ok NaN]
  have b: "route_index sv_ok (Str ''cat'') NaN = ([], Response 400 (ErrorBody ''Invalid prompt or duration''))"
    by simp
  from C10_validation [OF ns(2), of sv_ok "Fin 0"] b2
  have c: "route_index sv_ok (Str ''cat'') (Fin 0) \<noteq> ([], Response 400 (ErrorBody ''Invalid prompt or duration''))"
    by simp
  from C10_validation [OF ns(2), of sv_ok "Fin (- 3)"] b2
  have e: "(\<exists>rest. fst (route_index sv_ok (Str ''cat'') (Fin (- 3)))
                = ImageRequest 0 (framePrompt_index ''cat'' 0) # rest)
   \<and> (\<exists>rest. fst (route_part000 sv_ok (Str ''cat'') (Fin (- 3)))
                = ProgressAssign \<lparr>progress = 0, status = ''Starting generation...'',
                                   videoUrl = None, error = None\<rparr> # rest)"
    by auto
  from a b c e show ?thesis by blast
qed

section \<open>The audio cascade: where the default tier stops\<close>

lemma search_each_stop:
  "\<exists>m\<le>length qs. fst (search_each sv k qs cur) = map SearchRequest (take m qs)
      \<and> tier_empty sv k (take (m - 1) qs)
      \<and> (m < length qs \<longrightarrow> 0 < m \<and> \<not> empty_reply (freesound sv (k + (m - 1)) (qs ! (m - 1))))"
proof (induction qs arbitrary: k cur)
  case Nil
  show ?case by (simp add: tier_empty_Nil)
next
  case (Cons q qs)
  show ?case
  proof (cases "empty_reply (freesound sv k q)")
    case False
    then have "fst (search_each sv k (q # qs) cur) = map SearchRequest (take 1 (q # qs))"
      by (cases "freesound sv k q") simp_all
    with False show ?thesis by (intro exI [of _ 1]) (simp add: tier_empty_Nil)
  next
    case True
    then obtain r where r: "freesound sv k q = SearchReply r" "no_results r" by (rule empty_replyE)
    from Cons.IH [of "Suc k" "(q, r)"] obtain m where
      m: "m \<le> length qs" "fst (search_each sv (Suc k) qs (q, r)) = map SearchRequest (take m qs)"
         "tier_empty sv (Suc k) (take (m - 1) qs)"
         "m < length qs \<longrightarrow> 0 < m \<and> \<not> empty_reply (freesound sv (Suc k + (m - 1)) (qs ! (m - 1)))"
      by blast
    from m(2) r have a: "fst (search_each sv k (q # qs) cur) = map SearchRequest (take (Suc m) (q # qs))"
      by (simp add: case_prod_beta)
    have b: "tier_empty sv k (take (Suc m - 1) (q # qs))"
    proof (cases m)
      case 0
      then show ?thesis by (simp add: tier_empty_Nil)
    next
      case (Suc j)
      with m(3) True show ?thesis by (simp add: tier_empty_Cons)
    qed
    have c: "0 < Suc m \<and> \<not> empty_reply (freesound sv (k + (Suc m - 1)) ((q # qs) ! (Suc m - 1)))"
      if "Suc m < length (q # qs)"
    proof -
      from that have "m < length qs" by simp
      with m(4) have "0 < m" "\<not> empty_reply (freesound sv (Suc k + (m - 1)) (qs ! (m - 1)))" by blast+
      then obtain j where j: "m = Suc j" by (cases m) simp_all
      with \<open>\<not> empty_reply (freesound sv (Suc k + (m - 1)) (qs ! (m - 1)))\<close>
      show ?thesis by simp
    qed
    have le: "Suc m \<le> length (q # qs)" using m(1) by simp
    from le a b c show ?thesis by blast
  qed
qed

lemma audio_each_stop:
  "\<exists>m\<le>length qs. queries (fst (audio_each sv k qs)) = take m qs
      \<and> tier_empty sv k (take (m - 1) qs)
      \<and> (m < length qs \<longrightarrow> 0 < m \<and> \<not> empty_reply (freesound sv (k + (m - 1)) (qs ! (m - 1))))"
proof (induction qs arbitrary: k)
  case Nil
  show ?case by (simp add: tier_empty_Nil)
next
  case (Cons q qs)
  show ?case
  proof (cases "empty_reply (freesound sv k q)")
    case False
    then have "queries (fst (audio_each sv k (q # qs))) = take 1 (q # qs)"
      by (cases "freesound sv k q")
         (auto simp: no_results_def split: option.splits list.splits fetch_response.splits)
    with False show ?thesis by (intro exI [of _ 1]) (simp add: tier_empty_Nil)
  next
    case True
    then obtain r where r: "freesound sv k q = SearchReply r" "no_results r" by (rule empty_replyE)
    from r(2) have r': "r = None \<or> r = Some []" by (simp add: no_results_cases)
    from Cons.IH [of "Suc k"] obtain m where
      m: "m \<le> length qs" "queries (fst (audio_each sv (Suc k) qs)) = take m qs"
         "tier_empty sv (Suc k) (take (m - 1) qs)"
         "m < length qs \<longrightarrow> 0 < m \<and> \<not> empty_reply (freesound sv (Suc k + (m - 1)) (qs ! (m - 1)))"
      by blast
    from m(2) r(1) r' have a: "queries (fst (audio_each sv k (q # qs))) = take (Suc m) (q # qs)"
      by (auto simp: case_prod_beta)
    have b: "tier_empty sv k (take (Suc m - 1) (q # qs))"
    proof (cases m)
      case 0
      then show ?thesis by (simp add: tier_empty_Nil)
    next
      case (Suc j)
      with m(3) True show ?thesis by (simp add: tier_empty_Cons)
    qed
    have c: "0 < Suc m \<and> \<not> empty_reply (freesound sv (k + (Suc m - 1)) ((q # qs) ! (Suc m - 1)))"
      if "Suc m < length (q # qs)"
    proof -
      from that have "m < length qs" by simp
      with m(4) have "0 < m" "\<not> empty_reply (freesound sv (Suc k + (m - 1)) (qs ! (m - 1)))" by blast+
      then obtain j where j: "m = Suc j" by (cases m) simp_all
      with \<open>\<not> empty_reply (freesound sv (Suc k + (m - 1)) (qs ! (m - 1)))\<close>
      show ?thesis by simp
    qed
    have le: "Suc m \<le> length (q # qs)" using m(1) by simp
    from le a b c show ?thesis by blast
  qed
qed

lemma music_default_stop:
  assumes t1: "tier_empty sv 0 [prompt]"
    and t2: "tier_empty sv 1 (map keywordQuery (extractKeywords prompt))"
  shows "\<exists>m\<le>length DEFAULT_CATEGORIES.
           queries (fst (searchAndDownloadMusic sv prompt out))
             = prompt # map keywordQuery (extractKeywords prompt) @ take m DEFAULT_CATEGORIES
           \<and> tier_empty sv (Suc (length (extractKeywords prompt))) (take (m - 1) DEFAULT_CATEGORIES)
           \<and> (m < length DEFAULT_CATEGORIES \<longrightarrow>
                0 < m \<and> \<not> empty_reply (freesound sv (Suc (length (extractKeywords prompt)) + (m - 1))
                                          (DEFAULT_CATEGORIES ! (m - 1))))"
proof -
  let ?kwq = "map keywordQuery (extractKeywords prompt)"
  from t1 have "empty_reply (freesound sv 0 prompt)" by (simp add: tier_empty_Cons)
  then obtain r1 where r1: "freesound sv 0 prompt = SearchReply r1" "no_results r1"
    by (rule empty_replyE)
  from search_each_empty [OF t2, of "(prompt, r1)"] obtain q2 r2 where
    h: "fst (search_each sv 1 ?kwq (prompt, r1)) = map SearchRequest ?kwq"
       "snd (search_each sv 1 ?kwq (prompt, r1)) = Inr (q2, r2)"
       "?kwq = [] \<longrightarrow> (q2, r2) = (prompt, r1)"
       "?kwq \<noteq> [] \<longrightarrow> no_results r2"
    by blast
  from h(3,4) r1(2) have n2: "no_results r2" by (cases "?kwq = []") auto
  from h(1,2) have s2: "search_each sv 1 ?kwq (prompt, r1) = (map SearchRequest ?kwq, Inr (q2, r2))"
    by (metis prod.collapse)
  obtain log3 res3 where
    s3: "search_each sv (Suc (length (map SearchRequest ?kwq))) DEFAULT_CATEGORIES (q2, r2) = (log3, res3)"
    by (metis prod.collapse)
  note third = music_third_tier [OF r1 s2 n2 s3]
  have q: "queries (fst (searchAndDownloadMusic sv prompt out)) = prompt # ?kwq @ queries log3"
    using third(1) [of out] by (simp add: queries_requests del: map_map)
  from search_each_stop [of DEFAULT_CATEGORIES sv "Suc (length (map SearchRequest ?kwq))" "(q2, r2)"] s3
  obtain m where m: "m \<le> length DEFAULT_CATEGORIES" "log3 = map SearchRequest (take m DEFAULT_CATEGORIES)"
      "tier_empty sv (Suc (length (extractKeywords prompt))) (take (m - 1) DEFAULT_CATEGORIES)"
      "m < length DEFAULT_CATEGORIES \<longrightarrow>
         0 < m \<and> \<not> empty_reply (freesound sv (Suc (length (extractKeywords prompt)) + (m - 1))
                                   (DEFAULT_CATEGORIES ! (m - 1)))"
    by auto
  from q m(2) have "queries (fst (searchAndDownloadMusic sv prompt out))
             = prompt # ?kwq @ take m DEFAULT_CATEGORIES"
    by (simp add: queries_requests)
  with m(1,3,4) show ?thesis by blast
qed

lemma audio_default_stop:
  assumes t1: "tier_empty sv 0 (map keywordQuery (audioKeywords prompt))"
  shows "\<exists>m\<le>length DEFAULT_CATEGORIES.
           queries (fst (getAudioFromFreesound sv prompt d))
             = map keywordQuery (audioKeywords prompt) @ take m DEFAULT_CATEGORIES
           \<and> tier_empty sv (length (audioKeywords prompt)) (take (m - 1) DEFAULT_CATEGORIES)
           \<and> (m < length DEFAULT_CATEGORIES \<longrightarrow>
                0 < m \<and> \<not> empty_reply (freesound sv (length (audioKeywords prompt) + (m - 1))
                                          (DEFAULT_CATEGORIES ! (m - 1))))"
proof -
  let ?kwq = "map keywordQuery (audioKeywords prompt)"
  note a1 = audio_each_empty [OF t1]
  have q: "queries (fst (getAudioFromFreesound sv prompt d))
             = ?kwq @ queries (fst (audio_each sv (length (audioKeywords prompt)) DEFAULT_CATEGORIES))"
    by (simp add: getAudioFromFreesound_def Let_def a1 case_prod_beta queries_append queries_requests
          split: sum.splits option.splits del: map_map)
  from audio_each_stop [of DEFAULT_CATEGORIES sv "length (audioKeywords prompt)"]
  obtain m where m: "m \<le> length DEFAULT_CATEGORIES"
    "queries (fst (audio_each sv (length (audioKeywords prompt)) DEFAULT_CATEGORIES))
       = take m DEFAULT_CATEGORIES"
    "tier_empty sv (length (audioKeywords prompt)) (take (m - 1) DEFAULT_CATEGORIES)"
    "m < length DEFAULT_CATEGORIES \<longrightarrow>
        0 < m \<and> \<not> empty_reply (freesound sv (length (audioKeywords prompt) + (m - 1))
                                  (DEFAULT_CATEGORIES ! (m - 1)))"
    by blast
  from q m(2) have "queries (fst (getAudioFromFreesound sv prompt d)) = ?kwq @ take m DEFAULT_CATEGORIES"
    by simp
  with m(1,3,4) show ?thesis by blast
qed

text \<open>
  C5, as the specification states it, fails: the first and the keyword tier come back
  empty, the first default category has a sound, and the download of its preview fails.
  \<^verbatim>\<open>searchAndDownloadMusic\<close> then throws the error of the download and
  \<^verbatim>\<open>getAudioFromFreesound\<close> returns \<^verbatim>\<open>null\<close>, so that the route answers "Failed to
  get audio", after one default category; the other four are never queried.
\<close>

theorem C5_counterexample:
  "tier_empty sv_preview_down 0 [''a calm lake at sunrise'']
   \<and> tier_empty sv_preview_down 1 (map keywordQuery (extractKeywords ''a calm lake at sunrise''))
   \<and> queries (fst (searchAndDownloadMusic sv_preview_down ''a calm lake at sunrise'' ''temp/music.mp3''))
       = [''a calm lake at sunrise'', ''calm music background'', ''lake music background'',
          ''sunrise music background'', ''ambient music'']
   \<and> snd (searchAndDownloadMusic sv_preview_down ''a calm lake at sunrise'' ''temp/music.mp3'')
       = Inl ''connect ETIMEDOUT''
   \<and> tier_empty sv_preview_down 0 (map keywordQuery (audioKeywords ''a calm lake at sunrise''))
   \<and> queries (fst (getAudioFromFreesound sv_preview_down ''a calm lake at sunrise'' 10))
       = [''calm music background'', ''lake music background'', ''sunrise music background'',
          ''ambient music'']
   \<and> snd (getAudioFromFreesound sv_preview_down ''a calm lake at sunrise'' 10) = None
   \<and> snd (route_index sv_preview_down (Str ''a calm lake at sunrise'') (Fin 10))
       = Response 500 (ErrorBody ''Failed to get audio'')"
  by code_simp

text \<open>
  C5, amended. The cascade of \<^verbatim>\<open>searchAndDownloadMusic\<close> respects its order. When the
  direct query (the raw prompt) has a result, it is the only search of the call. When the
  direct query and every keyword query come back empty, the searches of the call are the
  prompt, the keyword queries in their order, and the default categories in the order of
  the fixed list up to and including the first one whose search does not come back empty
  (a search that fails, or one with a result: the call then ends with the download of
  the preview, whether that succeeds or throws). When every default category comes back
  empty, all of them have been searched, and only then does the call fail with "No
  matching sounds found after all attempts". \<^verbatim>\<open>getAudioFromFreesound\<close>, which the
  route calls, has no direct tier: when its keyword queries come back empty it searches
  the default categories in the same way, and returns \<^verbatim>\<open>null\<close> after all of them when
  all come back empty.
\<close>

theorem C5_cascade_order:
  "(\<forall>r. freesound sv 0 prompt = SearchReply r \<and> \<not> no_results r \<longrightarrow>
        queries (fst (searchAndDownloadMusic sv prompt out)) = [prompt])
   \<and> (tier_empty sv 0 [prompt] \<and> tier_empty sv 1 (map keywordQuery (extractKeywords prompt)) \<longrightarrow>
        (\<exists>m\<le>length DEFAULT_CATEGORIES.
           queries (fst (searchAndDownloadMusic sv prompt out))
             = prompt # map keywordQuery (extractKeywords prompt) @ take m DEFAULT_CATEGORIES
           \<and> tier_empty sv (Suc (length (extractKeywords prompt))) (take (m - 1) DEFAULT_CATEGORIES)
           \<and> (m < length DEFAULT_CATEGORIES \<longrightarrow>
                0 < m \<and> \<not> empty_reply (freesound sv (Suc (length (extractKeywords prompt)) + (m - 1))
                                          (DEFAULT_CATEGORIES ! (m - 1)))))
        \<and> (tier_empty sv (Suc (length (extractKeywords prompt))) DEFAULT_CATEGORIES \<longrightarrow>
             queries (fst (searchAndDownloadMusic sv prompt out))
               = prompt # map keywordQuery (extractKeywords prompt) @ DEFAULT_CATEGORIES
             \<and> snd (searchAndDownloadMusic sv prompt out)
                 = Inl ''No matching sounds found after all attempts''))
   \<and> (tier_empty sv 0 (map keywordQuery (audioKeywords prompt)) \<longrightarrow>
        (\<exists>m\<le>length DEFAULT_CATEGORIES.
           queries (fst (getAudioFromFreesound sv prompt d))
             = map keywordQuery (audioKeywords prompt) @ take m DEFAULT_CATEGORIES
           \<and> tier_empty sv (length (audioKeywords prompt)) (take (m - 1) DEFAULT_CATEGORIES)
           \<and> (m < length DEFAULT_CATEGORIES \<longrightarrow>
                0 < m \<and> \<not> empty_reply (freesound sv (length (audioKeywords prompt) + (m - 1))
                                          (DEFAULT_CATEGORIES ! (m - 1)))))
        \<and> (tier_empty sv (length (audioKeywords prompt)) DEFAULT_CATEGORIES \<longrightarrow>
             queries (fst (getAudioFromFreesound sv prompt d))
               = map keywordQuery (audioKeywords prompt) @ DEFAULT_CATEGORIES
             \<and> snd (getAudioFromFreesound sv prompt d) = None))"
proof -
  note a = music_direct_hit [where sv = sv and prompt = prompt and out = out]
  note b = music_default_stop [where sv = sv and prompt = prompt and out = out]
  note c = music_after_empty_tiers [where sv = sv and prompt = prompt and out = out]
  note e = audio_default_stop [where sv = sv and prompt = prompt and d = d]
  note f = audio_after_empty_keywords [where sv = sv and prompt = prompt and d = d]
  have 1: "\<forall>r. freesound sv 0 prompt = SearchReply r \<and> \<not> no_results r \<longrightarrow>
        queries (fst (searchAndDownloadMusic sv prompt out)) = [prompt]"
    using a by blast
  have 2: "tier_empty sv 0 [prompt] \<and> tier_empty sv 1 (map keywordQuery (extractKeywords prompt)) \<longrightarrow>
        (\<exists>m\<le>length DEFAULT_CATEGORIES.
           queries (fst (searchAndDownloadMusic sv prompt out))
             = prompt # map keywordQuery (extractKeywords prompt) @ take m DEFAULT_CATEGORIES
           \<and> tier_empty sv (Suc (length (extractKeywords prompt))) (take (m - 1) DEFAULT_CATEGORIES)
           \<and> (m < length DEFAULT_CATEGORIES \<longrightarrow>
                0 < m \<and> \<not> empty_reply (freesound sv (Suc (length (extractKeywords prompt)) + (m - 1))
                                          (DEFAULT_CATEGORIES ! (m - 1)))))
        \<and> (tier_empty sv (Suc (length (extractKeywords prompt))) DEFAULT_CATEGORIES \<longrightarrow>
             queries (fst (searchAndDownloadMusic sv prompt out))
               = prompt # map keywordQuery (extractKeywords prompt) @ DEFAULT_CATEGORIES
             \<and> snd (searchAndDownloadMusic sv prompt out)
                 = Inl ''No matching sounds found after all attempts'')"
    using b c by blast
  have 3: "tier_empty sv 0 (map keywordQuery (audioKeywords prompt)) \<longrightarrow>
        (\<exists>m\<le>length DEFAULT_CATEGORIES.
           queries (fst (getAudioFromFreesound sv prompt d))
             = map keywordQuery (audioKeywords prompt) @ take m DEFAULT_CATEGORIES
           \<and> tier_empty sv (length (audioKeywords prompt)) (take (m - 1) DEFAULT_CATEGORIES)
           \<and> (m < length DEFAULT_CATEGORIES \<longrightarrow>
                0 < m \<and> \<not> empty_reply (freesound sv (length (audioKeywords prompt) + (m - 1))
                                          (DEFAULT_CATEGORIES ! (m - 1)))))
        \<and> (tier_empty sv (length (audioKeywords prompt)) DEFAULT_CATEGORIES \<longrightarrow>
             queries (fst (getAudioFromFreesound sv prompt d))
               = map keywordQuery (audioKeywords prompt) @ DEFAULT_CATEGORIES
             \<and> snd (getAudioFromFreesound sv prompt d) = None)"
    using e f by blast
  from 1 2 3 show ?thesis by (intro conjI)
qed

text \<open>
  A library that has a sound for the prompt, and one that has nothing for any query.
\<close>

theorem C5_cascade_order_witness:
  "queries (fst (searchAndDownloadMusic sv_ok ''a calm lake at sunrise'' ''temp/music.mp3''))
     = [''a calm lake at sunrise'']
   \<and> queries (fst (searchAndDownloadMusic sv_silent ''a calm lake at sunrise'' ''temp/music.mp3''))
     = [''a calm lake at sunrise'', ''calm music background'', ''lake music background'',
        ''sunrise music background'', ''ambient music'', ''background music'', ''soundtrack'',
        ''atmospheric music'', ''instrumental'']
   \<and> snd (searchAndDownloadMusic sv_silent ''a calm lake at sunrise'' ''temp/music.mp3'')
     = Inl ''No matching sounds found after all attempts''
   \<and> queries (fst (getAudioFromFreesound sv_silent ''a calm lake at sunrise'' 10))
     = [''calm music background'', ''lake music background'', ''sunrise music background'',
        ''ambient music'', ''background music'', ''soundtrack'', ''atmospheric music'',
        ''instrumental'']
   \<and> snd (getAudioFromFreesound sv_silent ''a calm lake at sunrise'' 10) = None"
proof -
  have hit: "freesound sv_ok 0 ''a calm lake at sunrise''
               = SearchReply (Some [\<lparr>sound_name = ''rain'',
                                     preview_hq_mp3 = ''https://cdn.freesound.org/1.mp3''\<rparr>])
             \<and> \<not> no_results (Some [\<lparr>sound_name = ''rain'',
                                     preview_hq_mp3 = ''https://cdn.freesound.org/1.mp3''\<rparr>])"
    by (simp add: sv_ok_def no_results_def)
  have kw: "map keywordQuery (extractKeywords ''a calm lake at sunrise'')
              = [''calm music background'', ''lake music background'', ''sunrise music background'']"
    by code_simp
  have akw: "map keywordQuery (audioKeywords ''a calm lake at sunrise'')
              = [''calm music background'', ''lake music background'', ''sunrise music background'']"
    by code_simp
  have dc: "DEFAULT_CATEGORIES = [''ambient music'', ''background music'', ''soundtrack'',
                                  ''atmospheric music'', ''instrumental'']"
    by (simp add: DEFAULT_CATEGORIES_def)
  have t1: "tier_empty sv_silent 0 [''a calm lake at sunrise'']"
    by code_simp
  have t2: "tier_empty sv_silent 1 (map keywordQuery (extractKeywords ''a calm lake at sunrise''))"
    by code_simp
  have t3: "tier_empty sv_silent (Suc (length (extractKeywords ''a calm lake at sunrise'')))
              DEFAULT_CATEGORIES"
    by code_simp
  have t4: "tier_empty sv_silent 0 (map keywordQuery (audioKeywords ''a calm lake at sunrise''))"
    by code_simp
  have t5: "tier_empty sv_silent (length (audioKeywords ''a calm lake at sunrise'')) DEFAULT_CATEGORIES"
    by code_simp
  from C5_cascade_order [where sv = sv_ok and prompt = "''a calm lake at sunrise''"
                           and out = "''temp/music.mp3''" and d = 10] hit
  have a: "queries (fst (searchAndDownloadMusic sv_ok ''a calm lake at sunrise'' ''temp/music.mp3''))
             = [''a calm lake at sunrise'']" by blast
  from C5_cascade_order [where sv = sv_silent and prompt = "''a calm lake at sunrise''"
                           and out = "''temp/music.mp3''" and d = 10] t1 t2 t3 t4 t5
  have b: "queries (fst (searchAndDownloadMusic sv_silent ''a calm lake at sunrise'' ''temp/music.mp3''))
               = ''a calm lake at sunrise'' # map keywordQuery (extractKeywords ''a calm lake at sunrise'')
                   @ DEFAULT_CATEGORIES"
    and c: "snd (searchAndDownloadMusic sv_silent ''a calm lake at sunrise'' ''temp/music.mp3'')
                 = Inl ''No matching sounds found after all attempts''"
    and e: "queries (fst (getAudioFromFreesound sv_silent ''a calm lake at sunrise'' 10))
               = map keywordQuery (audioKeywords ''a calm lake at sunrise'') @ DEFAULT_CATEGORIES"
    and f: "snd (getAudioFromFreesound sv_silent ''a calm lake at sunrise'' 10) = None"
    by blast+
  from a b c e f show ?thesis unfolding kw akw dc by simp
qed

section \<open>The image requests of a run\<close>

lemma image_requests_loop_index:
  "\<exists>k\<le>length idxs. image_requests (fst (frames_loop_index sv prompt idxs acc)) = take k idxs
      \<and> ((\<forall>i\<in>set idxs. \<not> request_failed (reply_index sv prompt i)) \<longrightarrow> k = length idxs)"
proof (induction idxs arbitrary: acc)
  case Nil
  show ?case by simp
next
  case (Cons i rest)
  show ?case
  proof (cases "reply_index sv prompt i")
    case (ImgFailed m)
    then have "image_requests (fst (frames_loop_index sv prompt (i # rest) acc)) = take 1 (i # rest)"
      by (simp add: reply_index_def)
    moreover have "request_failed (reply_index sv prompt i)" using ImgFailed by simp
    ultimately show ?thesis by (intro exI [of _ 1]) simp
  next
    case (ImgReply b)
    from Cons.IH [of "if truthy b then acc @ [framePath_index i] else acc"] obtain k where
      k: "k \<le> length rest"
         "image_requests (fst (frames_loop_index sv prompt rest
                                 (if truthy b then acc @ [framePath_index i] else acc))) = take k rest"
         "(\<forall>j\<in>set rest. \<not> request_failed (reply_index sv prompt j)) \<longrightarrow> k = length rest"
      by blast
    from ImgReply k(2)
    have "image_requests (fst (frames_loop_index sv prompt (i # rest) acc)) = take (Suc k) (i # rest)"
      by (simp add: reply_index_def Let_def case_prod_beta)
    with k(1,3) show ?thesis by (intro exI [of _ "Suc k"]) simp
  qed
qed

lemma image_requests_loop_part000:
  "\<exists>k\<le>length idxs. image_requests (fst (frames_loop_part000 sv prompt n idxs acc)) = take k idxs
      \<and> ((\<forall>i\<in>set idxs. well_formed (reply_part000 sv prompt n i)) \<longrightarrow> k = length idxs)"
proof (induction idxs arbitrary: acc)
  case Nil
  show ?case by simp
next
  case (Cons i rest)
  show ?case
  proof (cases "well_formed (reply_part000 sv prompt n i)")
    case False
    then have "image_requests (fst (frames_loop_part000 sv prompt n (i # rest) acc)) = take 1 (i # rest)"
      by (cases "reply_part000 sv prompt n i") (simp_all add: reply_part000_def)
    with False show ?thesis by (intro exI [of _ 1]) simp
  next
    case True
    then obtain b where b: "reply_part000 sv prompt n i = ImgReply b" "truthy b"
      by (cases "reply_part000 sv prompt n i") auto
    from Cons.IH [of "acc @ [framePath_part000 sv i]"] obtain k where
      k: "k \<le> length rest"
         "image_requests (fst (frames_loop_part000 sv prompt n rest (acc @ [framePath_part000 sv i])))
            = take k rest"
         "(\<forall>j\<in>set rest. well_formed (reply_part000 sv prompt n j)) \<longrightarrow> k = length rest"
      by blast
    from b k(2)
    have "image_requests (fst (frames_loop_part000 sv prompt n (i # rest) acc)) = take (Suc k) (i # rest)"
      by (simp add: reply_part000_def Let_def case_prod_beta)
    with k(1,3) show ?thesis by (intro exI [of _ "Suc k"]) simp
  qed
qed

lemma image_requests_generateVideoFrames_index:
  "\<exists>k\<le>nat (Math_max 4 n).
      image_requests (fst (generateVideoFrames_index sv prompt n)) = [0..<k]
      \<and> ((\<forall>i\<in>{0..<nat (Math_max 4 n)}. \<not> request_failed (reply_index sv prompt i))
            \<longrightarrow> k = nat (Math_max 4 n))"
proof -
  have f: "fst (generateVideoFrames_index sv prompt n)
             = fst (frames_loop_index sv prompt [0..<nat (Math_max 4 n)] [])"
    by (simp add: generateVideoFrames_index_def Let_def case_prod_beta split: sum.splits)
  from image_requests_loop_index [of "[0..<nat (Math_max 4 n)]" sv prompt "[]"] obtain k where
    k: "k \<le> length [0..<nat (Math_max 4 n)]"
       "image_requests (fst (frames_loop_index sv prompt [0..<nat (Math_max 4 n)] []))
          = take k [0..<nat (Math_max 4 n)]"
       "(\<forall>i\<in>set [0..<nat (Math_max 4 n)]. \<not> request_failed (reply_index sv prompt i))
            \<longrightarrow> k = length [0..<nat (Math_max 4 n)]"
    by blast
  from k(1) have le: "k \<le> nat (Math_max 4 n)" by simp
  then have t: "take k [0..<nat (Math_max 4 n)] = [0..<k]" by (simp add: take_upt)
  from k(3) have full: "(\<forall>i\<in>{0..<nat (Math_max 4 n)}. \<not> request_failed (reply_index sv prompt i))
            \<longrightarrow> k = nat (Math_max 4 n)" by simp
  from k(2) t f have "image_requests (fst (generateVideoFrames_index sv prompt n)) = [0..<k]" by simp
  with le full show ?thesis by blast
qed

lemma image_requests_generateVideoFrames_part000:
  "\<exists>k\<le>nat n.
      image_requests (fst (generateVideoFrames_part000 sv prompt n)) = [1..<Suc k]
      \<and> ((\<forall>i\<in>{1..nat n}. well_formed (reply_part000 sv prompt n i)) \<longrightarrow> k = nat n)"
proof -
  have f: "image_requests (fst (generateVideoFrames_part000 sv prompt n))
             = image_requests (fst (frames_loop_part000 sv prompt n [1..<Suc (nat n)] []))"
    by (simp add: generateVideoFrames_part000_def Let_def case_prod_beta image_requests_append
          split: sum.splits del: upt_Suc)
  from image_requests_loop_part000 [of "[1..<Suc (nat n)]" sv prompt n "[]"] obtain k where
    k: "k \<le> length [1..<Suc (nat n)]"
       "image_requests (fst (frames_loop_part000 sv prompt n [1..<Suc (nat n)] []))
          = take k [1..<Suc (nat n)]"
       "(\<forall>i\<in>set [1..<Suc (nat n)]. well_formed (reply_part000 sv prompt n i))
            \<longrightarrow> k = length [1..<Suc (nat n)]"
    by blast
  from k(1) have le: "k \<le> nat n" by (simp del: upt_Suc)
  then have t: "take k [1..<Suc (nat n)] = [1..<Suc k]" by (simp add: take_upt del: upt_Suc)
  have "set [1..<Suc (nat n)] = {1..nat n}" by (simp add: atLeastLessThanSuc_atLeastAtMost del: upt_Suc)
  with k(3) have full: "(\<forall>i\<in>{1..nat n}. well_formed (reply_part000 sv prompt n i)) \<longrightarrow> k = nat n"
    by (simp del: upt_Suc)
  from k(2) t f have "image_requests (fst (generateVideoFrames_part000 sv prompt n)) = [1..<Suc k]"
    by (simp del: upt_Suc)
  with le full show ?thesis by blast
qed

lemma image_requests_audio_each: "image_requests (fst (audio_each sv k qs)) = []"
  by (induction qs arbitrary: k)
     (simp_all add: Let_def case_prod_beta
        split: search_response.splits option.splits list.splits fetch_response.splits)

lemma image_requests_getAudioFromFreesound:
  "image_requests (fst (getAudioFromFreesound sv prompt d)) = []"
  by (simp add: getAudioFromFreesound_def Let_def case_prod_beta image_requests_append
        image_requests_audio_each split: sum.splits option.splits)

lemma image_requests_generateMusicFromPrompt:
  "image_requests (fst (generateMusicFromPrompt sv prompt d)) = []"
  by (simp add: generateMusicFromPrompt_def split: fetch_response.splits)

lemma image_requests_createVideo_index:
  "image_requests (fst (createVideo_index sv frames a d)) = []"
  by (simp add: createVideo_index_def Let_def split: enc_finish.splits stat_response.splits)

lemma image_requests_encoderProgress:
  "image_requests (concat (map encoderProgress ps)) = []"
  by (induction ps) (simp_all add: encoderProgress_def)

lemma image_requests_createVideo_part000:
  "image_requests (fst (createVideo_part000 sv frames a d)) = []"
  by (simp add: createVideo_part000_def Let_def case_prod_beta image_requests_encoderProgress
        split: enc_finish.splits)

lemma image_requests_unlink: "image_requests (map Unlink xs) = []"
  by (induction xs) simp_all

lemma image_requests_pipeline_index:
  "image_requests (fst (pipeline_index sv prompt d))
     = image_requests (fst (generateVideoFrames_index sv prompt (Math_ceil (d / 2))))"
  by (simp add: pipeline_index_def Let_def case_prod_beta image_requests_append
        image_requests_getAudioFromFreesound image_requests_createVideo_index image_requests_unlink
        split: sum.splits stat_response.splits option.splits)

lemma image_requests_pipeline_part000:
  "image_requests (fst (pipeline_part000 sv prompt d))
     = image_requests (fst (generateVideoFrames_part000 sv prompt (Math_ceil (d / 2))))"
  by (simp add: pipeline_part000_def Let_def case_prod_beta image_requests_append
        image_requests_generateMusicFromPrompt image_requests_createVideo_part000
        image_requests_unlink split: sum.splits option.splits)

lemma image_requests_route_index:
  assumes "trim prompt \<noteq> []"
  shows "image_requests (fst (route_index sv (Str prompt) (Fin d)))
           = image_requests (fst (generateVideoFrames_index sv prompt (Math_ceil (d / 2))))"
  using fst_route_index [OF assms, of sv d] image_requests_pipeline_index [of sv prompt d] by simp

lemma image_requests_route_part000:
  assumes "trim prompt \<noteq> []"
  shows "image_requests (fst (route_part000 sv (Str prompt) (Fin d)))
           = image_requests (fst (generateVideoFrames_part000 sv prompt (Math_ceil (d / 2))))"
  using assms image_requests_pipeline_part000 [of sv prompt d]
  by (simp add: route_part000_def try_part000_def case_prod_beta image_requests_append
        split: sum.splits)


text \<open>
  C2, as the specification states it, fails for index.js at the duration 5: the route
  asks for \<open>\<lceil>5 / 2\<rceil> = 3\<close> frames and the generator requests and returns 4.
\<close>

theorem C2_counterexample:
  "image_requests (fst (route_index sv_ok (Str ''cat'') (Fin 5))) = [0, 1, 2, 3]
   \<and> snd (generateVideoFrames_index sv_ok ''cat'' (Math_ceil (5 / 2)))
       = Inr [''temp/frame_0.png'', ''temp/frame_1.png'', ''temp/frame_2.png'', ''temp/frame_3.png'']
   \<and> Math_ceil (5 / 2) = 3"
  by code_simp

text \<open>
  C2, amended. For every duration in [5, 30] the route asks the frame generator for
  \<open>\<lceil>duration / 2\<rceil>\<close> frames, a number between 3 and 15, and no other part of the run
  requests an image. In part_000 the image requests of the run are those for the indices
  1, 2, ... up to the first one that fails, all \<open>\<lceil>duration / 2\<rceil>\<close> of them when every
  response is well-formed; a frame stage that succeeds returns exactly that many frames,
  and an encoder run has exactly that many. In index.js the generator raises the number
  to \<open>max 4 \<lceil>duration / 2\<rceil>\<close>: the image requests of the run are those for the indices
  0, 1, ... up to the first request that fails, all \<open>max 4 \<lceil>duration / 2\<rceil>\<close> of them
  when no request fails; a stage that succeeds returns at least 1 and at most that many
  frames, exactly that many when every response is well-formed, and an encoder run has
  the frames that the stage returned. The number \<open>max 4 \<lceil>duration / 2\<rceil>\<close> equals
  \<open>\<lceil>duration / 2\<rceil>\<close> exactly when the duration is above 6.
\<close>

theorem C2_frame_count:
  assumes "5 \<le> d" and "d \<le> 30" and "trim prompt \<noteq> []"
  shows "3 \<le> Math_ceil (d / 2) \<and> Math_ceil (d / 2) \<le> 15
     \<and> (\<exists>rest. fst (route_part000 sv (Str prompt) (Fin d))
           = [ProgressAssign \<lparr>progress = 0, status = ''Starting generation...'',
                               videoUrl = None, error = None\<rparr>,
              SetStatus ''Generating frames...'']
             @ fst (generateVideoFrames_part000 sv prompt (Math_ceil (d / 2))) @ rest)
     \<and> image_requests (fst (route_part000 sv (Str prompt) (Fin d)))
         = image_requests (fst (generateVideoFrames_part000 sv prompt (Math_ceil (d / 2))))
     \<and> (\<exists>k\<le>nat (Math_ceil (d / 2)).
           image_requests (fst (route_part000 sv (Str prompt) (Fin d))) = [1..<Suc k])
     \<and> ((\<forall>i\<in>{1..nat (Math_ceil (d / 2))}.
             well_formed (reply_part000 sv prompt (Math_ceil (d / 2)) i)) \<longrightarrow>
           image_requests (fst (route_part000 sv (Str prompt) (Fin d)))
             = [1..<Suc (nat (Math_ceil (d / 2)))])
     \<and> (\<forall>frames. snd (generateVideoFrames_part000 sv prompt (Math_ceil (d / 2))) = Inr frames \<longrightarrow>
           int (length frames) = Math_ceil (d / 2))
     \<and> (encoder_runs (fst (route_part000 sv (Str prompt) (Fin d))) = []
          \<or> (\<exists>frames a. int (length frames) = Math_ceil (d / 2)
                \<and> encoder_runs (fst (route_part000 sv (Str prompt) (Fin d)))
                    = [EncoderRun_part000 (videoCommand_part000 sv frames a)]))
     \<and> (\<exists>rest. fst (route_index sv (Str prompt) (Fin d))
           = fst (generateVideoFrames_index sv prompt (Math_ceil (d / 2))) @ rest)
     \<and> image_requests (fst (route_index sv (Str prompt) (Fin d)))
         = image_requests (fst (generateVideoFrames_index sv prompt (Math_ceil (d / 2))))
     \<and> (\<exists>k\<le>nat (Math_max 4 (Math_ceil (d / 2))).
           image_requests (fst (route_index sv (Str prompt) (Fin d))) = [0..<k])
     \<and> ((\<forall>i\<in>{0..<nat (Math_max 4 (Math_ceil (d / 2)))}.
             \<not> request_failed (reply_index sv prompt i)) \<longrightarrow>
           image_requests (fst (route_index sv (Str prompt) (Fin d)))
             = [0..<nat (Math_max 4 (Math_ceil (d / 2)))])
     \<and> (\<forall>frames. snd (generateVideoFrames_index sv prompt (Math_ceil (d / 2))) = Inr frames \<longrightarrow>
           1 \<le> length frames \<and> int (length frames) \<le> Math_max 4 (Math_ceil (d / 2)))
     \<and> ((\<forall>i\<in>{0..<nat (Math_max 4 (Math_ceil (d / 2)))}. well_formed (reply_index sv prompt i)) \<longrightarrow>
           (\<exists>frames. snd (generateVideoFrames_index sv prompt (Math_ceil (d / 2))) = Inr frames
              \<and> int (length frames) = Math_max 4 (Math_ceil (d / 2))))
     \<and> (encoder_runs (fst (route_index sv (Str prompt) (Fin d))) = []
          \<or> (\<exists>frames a. snd (generateVideoFrames_index sv prompt (Math_ceil (d / 2))) = Inr frames
                \<and> 1 \<le> length frames \<and> int (length frames) \<le> Math_max 4 (Math_ceil (d / 2))
                \<and> encoder_runs (fst (route_index sv (Str prompt) (Fin d)))
                    = [EncoderRun_index (videoCommand_index sv frames (Some a) d)]))
     \<and> (Math_max 4 (Math_ceil (d / 2)) = Math_ceil (d / 2)) = (6 < d)"
proof -
  let ?n = "Math_ceil (d / 2)"
  note bounds = ceil_half_bounds [OF assms(1,2)]
  have p: "\<exists>rest. fst (route_part000 sv (Str prompt) (Fin d))
           = [ProgressAssign \<lparr>progress = 0, status = ''Starting generation...'',
                               videoUrl = None, error = None\<rparr>,
              SetStatus ''Generating frames...'']
             @ fst (generateVideoFrames_part000 sv prompt ?n) @ rest"
  proof -
    from fst_pipeline_part000_prefix [of sv prompt d] obtain r1 where
      "fst (pipeline_part000 sv prompt d)
         = [ProgressAssign \<lparr>progress = 0, status = ''Starting generation...'',
                             videoUrl = None, error = None\<rparr>,
            SetStatus ''Generating frames...'']
           @ fst (generateVideoFrames_part000 sv prompt ?n) @ r1" by blast
    moreover from fst_route_part000 [OF assms(3), of sv d] obtain tail where
      "fst (route_part000 sv (Str prompt) (Fin d)) = fst (pipeline_part000 sv prompt d) @ tail"
      by blast
    ultimately show ?thesis by simp
  qed
  note pi = image_requests_route_part000 [OF assms(3), of sv d]
  from image_requests_generateVideoFrames_part000 [of ?n sv prompt] obtain kp where
    kp: "kp \<le> nat ?n"
        "image_requests (fst (generateVideoFrames_part000 sv prompt ?n)) = [1..<Suc kp]"
        "(\<forall>i\<in>{1..nat ?n}. well_formed (reply_part000 sv prompt ?n i)) \<longrightarrow> kp = nat ?n"
    by blast
  have pk: "\<exists>k\<le>nat ?n. image_requests (fst (route_part000 sv (Str prompt) (Fin d))) = [1..<Suc k]"
    using kp(1,2) pi by auto
  have pf: "image_requests (fst (route_part000 sv (Str prompt) (Fin d))) = [1..<Suc (nat ?n)]"
    if "\<forall>i\<in>{1..nat ?n}. well_formed (reply_part000 sv prompt ?n i)"
    using kp(2,3) pi that by simp
  have q: "int (length frames) = ?n"
    if "snd (generateVideoFrames_part000 sv prompt ?n) = Inr frames" for frames
  proof -
    from generateVideoFrames_part000_Inr [OF that] bounds show ?thesis by simp
  qed
  have pe: "encoder_runs (fst (route_part000 sv (Str prompt) (Fin d))) = []
          \<or> (\<exists>frames a. int (length frames) = ?n
                \<and> encoder_runs (fst (route_part000 sv (Str prompt) (Fin d)))
                    = [EncoderRun_part000 (videoCommand_part000 sv frames a)])"
  proof (cases "encoder_runs (fst (pipeline_part000 sv prompt d)) = []")
    case True
    then show ?thesis using route_part000_of_pipeline(1) [OF assms(3), of sv d] by simp
  next
    case False
    with pipeline_part000_encoder [of sv prompt d] obtain frames a where
      f: "snd (generateVideoFrames_part000 sv prompt ?n) = Inr frames"
         "encoder_runs (fst (pipeline_part000 sv prompt d))
            = [EncoderRun_part000 (videoCommand_part000 sv frames a)]" by blast
    from q [OF f(1)] f(2) route_part000_of_pipeline(1) [OF assms(3), of sv d] show ?thesis by auto
  qed
  have i: "\<exists>rest. fst (route_index sv (Str prompt) (Fin d))
           = fst (generateVideoFrames_index sv prompt ?n) @ rest"
    using fst_pipeline_index_prefix [of sv prompt d] fst_route_index [OF assms(3), of sv d] by simp
  note ii = image_requests_route_index [OF assms(3), of sv d]
  from image_requests_generateVideoFrames_index [of ?n sv prompt] obtain ki where
    ki: "ki \<le> nat (Math_max 4 ?n)"
        "image_requests (fst (generateVideoFrames_index sv prompt ?n)) = [0..<ki]"
        "(\<forall>i\<in>{0..<nat (Math_max 4 ?n)}. \<not> request_failed (reply_index sv prompt i))
            \<longrightarrow> ki = nat (Math_max 4 ?n)"
    by blast
  have ik: "\<exists>k\<le>nat (Math_max 4 ?n). image_requests (fst (route_index sv (Str prompt) (Fin d))) = [0..<k]"
    using ki(1,2) ii by auto
  have "if": "image_requests (fst (route_index sv (Str prompt) (Fin d))) = [0..<nat (Math_max 4 ?n)]"
    if "\<forall>i\<in>{0..<nat (Math_max 4 ?n)}. \<not> request_failed (reply_index sv prompt i)"
    using ki(2,3) ii that by simp
  have j: "1 \<le> length frames \<and> int (length frames) \<le> Math_max 4 ?n"
    if "snd (generateVideoFrames_index sv prompt ?n) = Inr frames" for frames
  proof -
    note f = generateVideoFrames_index_Inr [OF that]
    have "length (filter (\<lambda>i. well_formed (reply_index sv prompt i)) [0..<nat (Math_max 4 ?n)])
            \<le> length [0..<nat (Math_max 4 ?n)]" by (rule length_filter_le)
    with f(2) have "length frames \<le> nat (Math_max 4 ?n)" by (metis length_map length_upt diff_zero)
    moreover have "0 < Math_max 4 ?n" by (simp add: Math_max_def)
    ultimately have "int (length frames) \<le> Math_max 4 ?n" by linarith
    moreover from f(1) have "1 \<le> length frames" by (cases frames) simp_all
    ultimately show ?thesis by simp
  qed
  have k: "\<exists>frames. snd (generateVideoFrames_index sv prompt ?n) = Inr frames
              \<and> int (length frames) = Math_max 4 ?n"
    if "\<forall>i\<in>{0..<nat (Math_max 4 ?n)}. well_formed (reply_index sv prompt i)"
  proof -
    from generateVideoFrames_index_all_good [OF that] obtain frames where
      f: "snd (generateVideoFrames_index sv prompt ?n) = Inr frames"
         "length frames = nat (Math_max 4 ?n)" by blast
    have "0 < Math_max 4 ?n" by (simp add: Math_max_def)
    with f(2) have "int (length frames) = Math_max 4 ?n" by simp
    with f(1) show ?thesis by blast
  qed
  have ie: "encoder_runs (fst (route_index sv (Str prompt) (Fin d))) = []
          \<or> (\<exists>frames a. snd (generateVideoFrames_index sv prompt ?n) = Inr frames
                \<and> 1 \<le> length frames \<and> int (length frames) \<le> Math_max 4 ?n
                \<and> encoder_runs (fst (route_index sv (Str prompt) (Fin d)))
                    = [EncoderRun_index (videoCommand_index sv frames (Some a) d)])"
  proof (cases "encoder_runs (fst (pipeline_index sv prompt d)) = []")
    case True
    then show ?thesis using route_index_of_pipeline(1) [OF assms(3), of sv d] by simp
  next
    case False
    with pipeline_index_encoder [of sv prompt d] obtain frames a where
      f: "snd (generateVideoFrames_index sv prompt ?n) = Inr frames"
         "encoder_runs (fst (pipeline_index sv prompt d))
            = [EncoderRun_index (videoCommand_index sv frames (Some a) d)]" by blast
    from j [OF f(1)] f route_index_of_pipeline(1) [OF assms(3), of sv d] show ?thesis by auto
  qed
  from bounds have b1: "3 \<le> ?n" and b2: "?n \<le> 15" by simp_all
  note m = max4_ceil_half [of d]
  show ?thesis
    using b1 b2 p pi pk pf q pe i ii ik "if" j k ie m by (intro conjI allI impI) blast+
qed

text \<open>
  The durations 5 and 10 at a service that always succeeds: 4 image requests and 4
  frames for the duration 5, not 3; 5 image requests for the duration 10.
\<close>

theorem C2_frame_count_witness:
  "(3 :: int) \<le> Math_ceil (5 / 2)
   \<and> (\<exists>frames. snd (generateVideoFrames_index sv_ok ''cat'' (Math_ceil (5 / 2))) = Inr frames
         \<and> int (length frames) = Math_max 4 (Math_ceil (5 / 2)))
   \<and> Math_max 4 (Math_ceil (5 / 2)) \<noteq> Math_ceil (5 / 2)
   \<and> image_requests (fst (route_index sv_ok (Str ''cat'') (Fin 10))) = [0..<5]
   \<and> image_requests (fst (route_part000 sv_ok (Str ''cat'') (Fin 10))) = [1..<Suc 5]"
proof -
  have h: "(5 :: rat) \<le> 5" "(5 :: rat) \<le> 30" by simp_all
  have h10: "(5 :: rat) \<le> 10" "(10 :: rat) \<le> 30" by simp_all
  have t: "trim ''cat'' \<noteq> []" by code_simp
  have w: "\<forall>i\<in>{0..<nat (Math_max 4 (Math_ceil (5 / 2)))}. well_formed (reply_index sv_ok ''cat'' i)"
    by (simp add: reply_index_def sv_ok_def truthy_def)
  have c10: "Math_ceil (10 / 2) = 5" by code_simp
  have m10: "nat (Math_max 4 5) = 5" by (simp add: Math_max_def)
  have nf: "\<forall>i\<in>{0..<nat (Math_max 4 (Math_ceil (10 / 2)))}. \<not> request_failed (reply_index sv_ok ''cat'' i)"
    by (simp add: reply_index_def sv_ok_def)
  have wf: "\<forall>i\<in>{1..nat (Math_ceil (10 / 2))}. well_formed (reply_part000 sv_ok ''cat'' (Math_ceil (10 / 2)) i)"
    by (simp add: reply_part000_def sv_ok_def truthy_def)
  from C2_frame_count [OF h t, of sv_ok] w
  have a: "(3 :: int) \<le> Math_ceil (5 / 2)
   \<and> (\<exists>frames. snd (generateVideoFrames_index sv_ok ''cat'' (Math_ceil (5 / 2))) = Inr frames
         \<and> int (length frames) = Math_max 4 (Math_ceil (5 / 2)))
   \<and> Math_max 4 (Math_ceil (5 / 2)) \<noteq> Math_ceil (5 / 2)"
    by simp
  from C2_frame_count [OF h10 t, of sv_ok] nf wf
  have "image_requests (fst (route_index sv_ok (Str ''cat'') (Fin 10)))
          = [0..<nat (Math_max 4 (Math_ceil (10 / 2)))]"
    and "image_requests (fst (route_part000 sv_ok (Str ''cat'') (Fin 10)))
          = [1..<Suc (nat (Math_ceil (10 / 2)))]"
    by blast+
  then have b: "image_requests (fst (route_index sv_ok (Str ''cat'') (Fin 10))) = [0..<5]
   \<and> image_requests (fst (route_part000 sv_ok (Str ''cat'') (Fin 10))) = [1..<Suc 5]"
    unfolding c10 m10 by simp
  from a b show ?thesis by blast
qed

section \<open>Verification of the output file\<close>











section \<open>The progress object of part_000\<close>

lemma final_state_Nil [simp]: "final_state s [] = s"
  by (simp add: final_state_def)

lemma final_state_Cons [simp]: "final_state s (e # es) = final_state (apply_event s e) es"
  by (simp add: final_state_def)









lemma double_of_0 [simp]: "double_of 0 = 0"
  by (simp add: double_of_def)
















end
